(* ===== verification/Prelude.thy ===== *)
theory Prelude
  imports Main "HOL-Library.Word"
begin

text \<open>
  Shared vocabulary of the backstream development: the byte and identifier types of the
  Go sources, Go's error values as a datatype, the named collections that carry the
  component proofs, and the generic lemmas on lists and maps the components share.
\<close>

section \<open>Types of the model\<close>

type_synonym byte = "8 word"
type_synonym bytes = "byte list"

text \<open>A connection is a Go pointer (\<open>*ws.Conn\<close>); its identity is modelled by a number.\<close>
type_synonym cid = nat

text \<open>
  Go errors that the code distinguishes.  \<open>ErrConnectionClosed\<close> is the sentinel of
  \<open>src/ws/conn.go\<close>; \<open>CtxErr\<close> is \<open>ctx.Err()\<close> of an expired or cancelled context;
  \<open>CodecErr\<close>, \<open>HandlerErr\<close> and \<open>ParseErr\<close> stand for the errors returned by the
  codecs, the event handlers and \<open>time.ParseDuration\<close>, \<open>IOErr\<close> for failed reads and
  writes, \<open>GoErr\<close> for an \<open>errors.New\<close> of the sources, with their message.  \<open>Panic\<close> is
  the outcome of a call that panics: the callers of the model propagate it unchanged, as
  Go unwinds, unless a \<open>recover\<close> of the source catches it.
\<close>
datatype go_error =
    ErrConnectionClosed
  | CtxErr
  | CodecErr string
  | HandlerErr string
  | ParseErr string
  | IOErr string
  | GoErr string
  | Panic string

type_synonym 'a result = "go_error + 'a"

text \<open>\<open>err.Error()\<close>: the message of an error, as \<open>http.Error\<close> writes it.\<close>
fun go_error_text :: "go_error \<Rightarrow> string" where
  "go_error_text ErrConnectionClosed = ''connection closed''"
| "go_error_text CtxErr = ''context deadline exceeded''"
| "go_error_text (CodecErr m) = m"
| "go_error_text (HandlerErr m) = m"
| "go_error_text (ParseErr m) = m"
| "go_error_text (IOErr m) = m"
| "go_error_text (GoErr m) = m"
| "go_error_text (Panic m) = m"

fun is_panic :: "go_error \<Rightarrow> bool" where
  "is_panic (Panic _) = True"
| "is_panic _ = False"

section \<open>Named collections\<close>

text \<open>
  \<open>state_simps\<close> collects the equations of the state-changing operations that the
  invariant proofs unfold; \<open>inv_intros\<close> the one-step preservation lemmas.
\<close>
named_theorems state_simps
named_theorems inv_intros

section \<open>Lists\<close>

text \<open>
  Go's \<open>for k, v := range m\<close> visits every entry of a map once, in an order the
  language leaves unspecified.  The model passes that order as an explicit enumeration:
  a distinct list whose set is the domain.  These lemmas read \<open>find\<close> and
  \<open>filter\<close> over such an enumeration.
\<close>

lemma filter_enum_set:
  assumes "set xs = A"
  shows "set (filter P xs) = {x \<in> A. P x}"
  using assms by auto

lemma find_Some_enum:
  assumes "find P xs = Some x"
  shows "x \<in> set xs \<and> P x"
  using assms by (simp add: find_Some_iff) (metis nth_mem)

lemma find_None_enum:
  "find P xs = None \<longleftrightarrow> (\<forall>x \<in> set xs. \<not> P x)"
  by (auto simp add: find_None_iff)

section \<open>Maps\<close>

lemma map_delete_dom [simp]:
  "dom (m(k := None)) = dom m - {k}"
  by auto

lemma map_update_dom [simp]:
  "dom (m(k \<mapsto> v)) = insert k (dom m)"
  by auto

lemma card_dom_update:
  "finite (dom m) \<Longrightarrow> k \<notin> dom m \<Longrightarrow> card (dom (m(k \<mapsto> v))) = Suc (card (dom m))"
  by simp

lemma card_dom_delete:
  "finite (dom m) \<Longrightarrow> k \<in> dom m \<Longrightarrow> card (dom (m(k := None))) = card (dom m) - 1"
  by simp

end
