(* ===== verification/Pool.thy ===== *)
theory Pool
  imports Prelude
begin

text \<open>
  The connection registry of \<open>src/ws/pool.go\<close>: a Go map from connection (a pointer,
  here a \<open>cid\<close>) to its client id, guarded by a mutex.  Every operation holds the mutex
  for its whole body, so each is one atomic step on the map.  The lookups range over the
  map; Go leaves the order of a \<open>range\<close> unspecified, so they take that order as an
  argument, and the lemmas hold for every order that enumerates the map
  (\<open>enumerates\<close>).
\<close>

section \<open>State and operations\<close>

record pool =
  clients :: "cid \<rightharpoonup> string"

definition NewPool :: pool where
  "NewPool = \<lparr>clients = Map.empty\<rparr>"

text \<open>An order in which \<open>range\<close> may visit a map: each key once.\<close>
definition enumerates :: "cid list \<Rightarrow> (cid \<rightharpoonup> string) \<Rightarrow> bool" where
  "enumerates ord m \<longleftrightarrow> distinct ord \<and> set ord = dom m"

text \<open>\<open>GetConn\<close>: the first connection the range visits, \<open>nil\<close> for an empty map.\<close>
definition GetConn :: "pool \<Rightarrow> cid list \<Rightarrow> cid option" where
  "GetConn p ord = (case ord of [] \<Rightarrow> None | c # _ \<Rightarrow> Some c)"

text \<open>The loop of \<open>GetConnByID\<close>: return the first visited client with that id.\<close>
fun get_conn_by_id_loop :: "(cid \<rightharpoonup> string) \<Rightarrow> string \<Rightarrow> cid list \<Rightarrow> cid option" where
  "get_conn_by_id_loop m i [] = None"
| "get_conn_by_id_loop m i (c # cs) =
     (if m c = Some i then Some c else get_conn_by_id_loop m i cs)"

definition GetConnByID :: "pool \<Rightarrow> cid list \<Rightarrow> string \<Rightarrow> cid option" where
  "GetConnByID p ord i = get_conn_by_id_loop (clients p) i ord"

text \<open>The loop of \<open>GetConnsByID\<close>: \<open>result = append(result, client)\<close> for each match.\<close>
fun get_conns_by_id_loop ::
  "(cid \<rightharpoonup> string) \<Rightarrow> string \<Rightarrow> cid list \<Rightarrow> cid list \<Rightarrow> cid list" where
  "get_conns_by_id_loop m i [] acc = acc"
| "get_conns_by_id_loop m i (c # cs) acc =
     get_conns_by_id_loop m i cs (if m c = Some i then acc @ [c] else acc)"

definition GetConnsByID :: "pool \<Rightarrow> cid list \<Rightarrow> string \<Rightarrow> cid list" where
  "GetConnsByID p ord i = get_conns_by_id_loop (clients p) i ord []"

definition Size :: "pool \<Rightarrow> nat" where
  "Size p = card (dom (clients p))"

text \<open>\<open>register\<close> stores the connection under its own client id.\<close>
definition register :: "pool \<Rightarrow> cid \<Rightarrow> string \<Rightarrow> pool" where
  "register p c client_id = p\<lparr>clients := (clients p)(c \<mapsto> client_id)\<rparr>"

definition unregister :: "pool \<Rightarrow> cid \<Rightarrow> pool" where
  "unregister p c = p\<lparr>clients := (clients p)(c := None)\<rparr>"

text \<open>A Go map holds finitely many entries.\<close>
definition pool_inv :: "pool \<Rightarrow> bool" where
  "pool_inv p \<longleftrightarrow> finite (dom (clients p))"

text \<open>The abstract registry: the connections registered under a client id.\<close>
definition conns_of :: "pool \<Rightarrow> string \<Rightarrow> cid set" where
  "conns_of p i = {c. clients p c = Some i}"

declare register_def [state_simps] unregister_def [state_simps]

section \<open>The loops\<close>

lemma get_conns_by_id_loop_acc:
  "get_conns_by_id_loop m i cs acc = acc @ filter (\<lambda>c. m c = Some i) cs"
  by (induction cs arbitrary: acc) auto

lemma get_conn_by_id_loop_find:
  "get_conn_by_id_loop m i cs = find (\<lambda>c. m c = Some i) cs"
  by (induction cs) auto

lemma GetConnsByID_filter:
  "GetConnsByID p ord i = filter (\<lambda>c. clients p c = Some i) ord"
  by (simp add: GetConnsByID_def get_conns_by_id_loop_acc)

lemma GetConnByID_find:
  "GetConnByID p ord i = find (\<lambda>c. clients p c = Some i) ord"
  by (simp add: GetConnByID_def get_conn_by_id_loop_find)

lemma enumerates_mem:
  "enumerates ord m \<Longrightarrow> c \<in> set ord \<longleftrightarrow> c \<in> dom m"
  by (simp add: enumerates_def)

lemmas pool_lookup_simps = GetConnsByID_filter GetConnByID_find conns_of_def

section \<open>Invariant\<close>

lemma pool_inv_NewPool: "pool_inv NewPool"
  by (simp add: pool_inv_def NewPool_def)

lemma pool_inv_register [inv_intros]: "pool_inv p \<Longrightarrow> pool_inv (register p c i)"
  by (simp add: pool_inv_def register_def)

lemma pool_inv_unregister [inv_intros]: "pool_inv p \<Longrightarrow> pool_inv (unregister p c)"
  by (simp add: pool_inv_def unregister_def)

lemma enumerates_exists: "pool_inv p \<Longrightarrow> \<exists>ord. enumerates ord (clients p)"
  unfolding pool_inv_def enumerates_def
  by (metis finite_distinct_list)

section \<open>Properties\<close>

text \<open>
  C33: \<open>GetConnsByID\<close> implements the abstract registry: whatever order the range
  takes, it returns every connection registered under the id, each once, and no other.
\<close>
theorem GetConnsByID_correct:
  assumes "enumerates ord (clients p)"
  shows "set (GetConnsByID p ord i) = conns_of p i \<and> distinct (GetConnsByID p ord i)"
  using assms by (auto simp: pool_lookup_simps enumerates_def)

theorem GetConnsByID_correct_witness:
  "enumerates [3, 1, 2] (clients (register (register (register NewPool 1 ''c1'') 2 ''c1'') 3 ''c2''))
   \<and> set (GetConnsByID (register (register (register NewPool 1 ''c1'') 2 ''c1'') 3 ''c2'') [3, 1, 2] ''c1'')
       = conns_of (register (register (register NewPool 1 ''c1'') 2 ''c1'') 3 ''c2'') ''c1''
   \<and> GetConnsByID (register (register (register NewPool 1 ''c1'') 2 ''c1'') 3 ''c2'') [3, 1, 2] ''c1'' = [1, 2]"
proof -
  have e: "enumerates [3, 1, 2] (clients (register (register (register NewPool 1 ''c1'') 2 ''c1'') 3 ''c2''))"
    by (auto simp: enumerates_def register_def NewPool_def)
  show ?thesis
    using e GetConnsByID_correct [OF e, of "''c1''"]
    by (simp add: GetConnsByID_def register_def NewPool_def)
qed

text \<open>
  C34: \<open>GetConnByID\<close> is sound and complete for every range order: it returns a
  connection registered under the id, and \<open>nil\<close> only when there is none.
\<close>
theorem GetConnByID_correct:
  assumes "enumerates ord (clients p)"
  shows "(case GetConnByID p ord i of
            None \<Rightarrow> conns_of p i = {}
          | Some c \<Rightarrow> c \<in> conns_of p i)"
proof (cases "GetConnByID p ord i")
  case None
  then have "\<forall>c \<in> set ord. clients p c \<noteq> Some i"
    by (simp add: GetConnByID_find find_None_enum)
  with assms show ?thesis
    using None by (auto simp: conns_of_def enumerates_def)
next
  case (Some c)
  then have "clients p c = Some i"
    using find_Some_enum by (fastforce simp: GetConnByID_find)
  with Some show ?thesis by (simp add: conns_of_def)
qed

theorem GetConnByID_correct_witness:
  "enumerates [2, 1] (clients (register (register NewPool 1 ''c1'') 2 ''c2''))
   \<and> GetConnByID (register (register NewPool 1 ''c1'') 2 ''c2'') [2, 1] ''c1'' = Some 1
   \<and> 1 \<in> conns_of (register (register NewPool 1 ''c1'') 2 ''c2'') ''c1''"
proof -
  have e: "enumerates [2, 1] (clients (register (register NewPool 1 ''c1'') 2 ''c2''))"
    by (auto simp: enumerates_def register_def NewPool_def)
  have r: "GetConnByID (register (register NewPool 1 ''c1'') 2 ''c2'') [2, 1] ''c1'' = Some 1"
    by (simp add: GetConnByID_def register_def NewPool_def)
  show ?thesis
    using e r GetConnByID_correct [OF e, of "''c1''"] by simp
qed




end
