(* ===== verification/Message.thy ===== *)
theory Message
  imports Prelude
begin

text \<open>
  The envelope of the tunnel and the codec interface.  \<open>message.Message\<close> is
  generated protobuf code (\<open>internal/message\<close>, not among the sources): a string
  \<open>id\<close> (field 1), an enum \<open>type\<close> (field 2: NOTIFY 0, REQUEST 1, RESPONSE 2) and
  bytes \<open>data\<close> (field 3).  \<open>Codec\<close> is the interface of \<open>src/ws/codec.go\<close>.
  \<open>ProtoCodec\<close> calls \<open>proto.Marshal\<close>/\<open>proto.Unmarshal\<close>; the model writes
  out the proto3 wire format for this message: a field is omitted when it holds its
  default, a length-delimited field is its tag byte, a varint length and the bytes,
  and the decoder accepts the fields in any order, a later one overriding an earlier
  one.  The decoder rejects unknown fields and enum numbers outside the three values
  (the Go library would keep them); varints are not limited to 64 bits.
\<close>

section \<open>Envelope and codec interface\<close>

datatype msg_type = Message_NOTIFY | Message_REQUEST | Message_RESPONSE

record message =
  msgId :: string
  msgType :: msg_type
  msgData :: bytes

record 'a codec =
  Encode :: "'a \<Rightarrow> bytes result"
  Decode :: "bytes \<Rightarrow> 'a result"
  IsBinary :: bool

section \<open>Protobuf wire format of the envelope\<close>

definition byte_of_char :: "char \<Rightarrow> byte" where
  "byte_of_char c = word_of_nat (of_char c)"

definition char_of_byte :: "byte \<Rightarrow> char" where
  "char_of_byte b = char_of (unat b)"

fun enc_varint :: "nat \<Rightarrow> bytes" where
  "enc_varint n =
     (if n < 128 then [word_of_nat n]
      else word_of_nat (n mod 128 + 128) # enc_varint (n div 128))"

declare enc_varint.simps [simp del]

fun dec_varint :: "bytes \<Rightarrow> (nat \<times> bytes) option" where
  "dec_varint [] = None"
| "dec_varint (b # bs) =
     (if unat b < 128 then Some (unat b, bs)
      else (case dec_varint bs of
              None \<Rightarrow> None
            | Some (n, rest) \<Rightarrow> Some (unat b - 128 + 128 * n, rest)))"

definition dec_len :: "bytes \<Rightarrow> (bytes \<times> bytes) option" where
  "dec_len bs = (case dec_varint bs of
                   None \<Rightarrow> None
                 | Some (n, rest) \<Rightarrow> if n \<le> length rest then Some (take n rest, drop n rest) else None)"

fun msg_type_num :: "msg_type \<Rightarrow> nat" where
  "msg_type_num Message_NOTIFY = 0"
| "msg_type_num Message_REQUEST = 1"
| "msg_type_num Message_RESPONSE = 2"

definition msg_type_of_num :: "nat \<Rightarrow> msg_type option" where
  "msg_type_of_num n =
     (if n = 0 then Some Message_NOTIFY else if n = 1 then Some Message_REQUEST
      else if n = 2 then Some Message_RESPONSE else None)"

definition pb_len_field :: "byte \<Rightarrow> bytes \<Rightarrow> bytes" where
  "pb_len_field tag v = (if v = [] then [] else tag # enc_varint (length v) @ v)"

definition pb_enum_field :: "byte \<Rightarrow> nat \<Rightarrow> bytes" where
  "pb_enum_field tag n = (if n = 0 then [] else tag # enc_varint n)"

definition encode_message :: "message \<Rightarrow> bytes" where
  "encode_message m =
     pb_len_field 10 (map byte_of_char (msgId m))
   @ pb_enum_field 16 (msg_type_num (msgType m))
   @ pb_len_field 26 (msgData m)"

definition empty_message :: message where
  "empty_message = \<lparr>msgId = [], msgType = Message_NOTIFY, msgData = []\<rparr>"

fun dec_message_fields :: "nat \<Rightarrow> bytes \<Rightarrow> message \<Rightarrow> message result" where
  "dec_message_fields 0 bs m = (if bs = [] then Inr m else Inl (CodecErr ''proto: fuel''))"
| "dec_message_fields (Suc f) [] m = Inr m"
| "dec_message_fields (Suc f) (t # bs) m =
     (if t = 10 then
        (case dec_len bs of
           None \<Rightarrow> Inl (CodecErr ''proto: truncated'')
         | Some (v, rest) \<Rightarrow> dec_message_fields f rest (m\<lparr>msgId := map char_of_byte v\<rparr>))
      else if t = 16 then
        (case dec_varint bs of
           None \<Rightarrow> Inl (CodecErr ''proto: truncated'')
         | Some (n, rest) \<Rightarrow>
             (case msg_type_of_num n of
                None \<Rightarrow> Inl (CodecErr ''proto: enum'')
              | Some ty \<Rightarrow> dec_message_fields f rest (m\<lparr>msgType := ty\<rparr>)))
      else if t = 26 then
        (case dec_len bs of
           None \<Rightarrow> Inl (CodecErr ''proto: truncated'')
         | Some (v, rest) \<Rightarrow> dec_message_fields f rest (m\<lparr>msgData := v\<rparr>))
      else Inl (CodecErr ''proto: unknown field''))"

definition decode_message :: "bytes \<Rightarrow> message result" where
  "decode_message bs = dec_message_fields (length bs) bs empty_message"

text \<open>\<open>ProtoCodec\<close> of \<open>src/ws/codec.go\<close>: binary frames, protobuf encoding.\<close>
definition ProtoCodec :: "message codec" where
  "ProtoCodec = \<lparr>Encode = (\<lambda>m. Inr (encode_message m)), Decode = decode_message, IsBinary = True\<rparr>"

text \<open>
  \<open>ProtoCodec\<close> for a message type whose wire format is generated code (the HTTP events):
  \<open>proto.Marshal\<close> and \<open>proto.Unmarshal\<close> are the arguments.
\<close>
definition ProtoCodecOf :: "('a \<Rightarrow> bytes result) \<Rightarrow> (bytes \<Rightarrow> 'a result) \<Rightarrow> 'a codec" where
  "ProtoCodecOf marshal unmarshal = \<lparr>Encode = marshal, Decode = unmarshal, IsBinary = True\<rparr>"

text \<open>
  \<open>JsonCodec\<close>: text frames, \<open>protojson.Marshal\<close> and \<open>protojson.Unmarshal\<close>.  The
  protojson output is deliberately not byte-stable (it varies its whitespace), so the two
  functions are arguments.
\<close>
definition JsonCodec :: "('a \<Rightarrow> bytes result) \<Rightarrow> (bytes \<Rightarrow> 'a result) \<Rightarrow> 'a codec" where
  "JsonCodec marshal unmarshal = \<lparr>Encode = marshal, Decode = unmarshal, IsBinary = False\<rparr>"

section \<open>Round trip\<close>

lemma char_of_byte_of_char [simp]: "char_of_byte (byte_of_char c) = c"
  by (simp add: char_of_byte_def byte_of_char_def unat_of_nat nat_of_char_less_256)

lemma dec_varint_enc [simp]: "dec_varint (enc_varint n @ rest) = Some (n, rest)"
proof (induction n rule: enc_varint.induct)
  case (1 n)
  show ?case
  proof (cases "n < 128")
    case True
    then show ?thesis by (simp add: unat_of_nat enc_varint.simps [of n])
  next
    case False
    have u: "unat (word_of_nat (n mod 128 + 128) :: byte) = n mod 128 + 128"
      by (simp only: unat_of_nat) simp
    from False "1.IH" u show ?thesis by (simp add: enc_varint.simps [of n])
  qed
qed

lemma enc_varint_nonempty [simp]: "enc_varint n \<noteq> []"
  by (subst enc_varint.simps) simp

lemma dec_len_enc [simp]: "dec_len (enc_varint (length v) @ v @ rest) = Some (v, rest)"
  by (simp add: dec_len_def)

lemma dec_message_fields_Nil [simp]: "dec_message_fields f [] m = Inr m"
  by (cases f) simp_all

lemma dec_id_field:
  assumes "length (pb_len_field 10 v @ rest) \<le> f"
  shows "\<exists>f'. length rest \<le> f' \<and> dec_message_fields f (pb_len_field 10 v @ rest) m
            = dec_message_fields f' rest (if v = [] then m else m\<lparr>msgId := map char_of_byte v\<rparr>)"
proof (cases "v = []")
  case True
  with assms show ?thesis by (auto simp: pb_len_field_def)
next
  case False
  with assms obtain g where "f = Suc g" "length rest \<le> g"
    by (cases f) (auto simp: pb_len_field_def)
  with False show ?thesis
    by (auto simp: pb_len_field_def)
qed

lemma dec_data_field:
  assumes "length (pb_len_field 26 v @ rest) \<le> f"
  shows "\<exists>f'. length rest \<le> f' \<and> dec_message_fields f (pb_len_field 26 v @ rest) m
            = dec_message_fields f' rest (if v = [] then m else m\<lparr>msgData := v\<rparr>)"
proof (cases "v = []")
  case True
  with assms show ?thesis by (auto simp: pb_len_field_def)
next
  case False
  with assms obtain g where "f = Suc g" "length rest \<le> g"
    by (cases f) (auto simp: pb_len_field_def)
  with False show ?thesis by (auto simp: pb_len_field_def)
qed

lemma msg_type_of_num_num [simp]: "msg_type_of_num (msg_type_num t) = Some t"
  by (cases t) (simp_all add: msg_type_of_num_def)

lemma dec_type_field:
  assumes "length (pb_enum_field 16 (msg_type_num t) @ rest) \<le> f"
  shows "\<exists>f'. length rest \<le> f' \<and> dec_message_fields f (pb_enum_field 16 (msg_type_num t) @ rest) m
            = dec_message_fields f' rest (if msg_type_num t = 0 then m else m\<lparr>msgType := t\<rparr>)"
proof (cases "msg_type_num t = 0")
  case True
  with assms show ?thesis by (auto simp: pb_enum_field_def)
next
  case False
  with assms obtain g where "f = Suc g" "length rest \<le> g"
    by (cases f) (auto simp: pb_enum_field_def)
  with False show ?thesis by (auto simp: pb_enum_field_def)
qed

lemma msg_type_num_0: "msg_type_num t = 0 \<longleftrightarrow> t = Message_NOTIFY"
  by (cases t) simp_all

lemma decode_encode_message: "decode_message (encode_message m) = Inr m"
proof -
  let ?i = "map byte_of_char (msgId m)" and ?n = "msg_type_num (msgType m)"
  let ?r2 = "pb_enum_field 16 ?n @ pb_len_field 26 (msgData m)"
  obtain f1 where f1: "length ?r2 \<le> f1"
    and e1: "decode_message (encode_message m)
             = dec_message_fields f1 ?r2 (if ?i = [] then empty_message else empty_message\<lparr>msgId := msgId m\<rparr>)"
    using dec_id_field [of ?i ?r2 "length (encode_message m)" empty_message]
    by (auto simp: decode_message_def encode_message_def comp_def)
  let ?m1 = "(if ?i = [] then empty_message else empty_message\<lparr>msgId := msgId m\<rparr>)"
  obtain f2 where f2: "length (pb_len_field 26 (msgData m)) \<le> f2"
    and e2: "dec_message_fields f1 ?r2 ?m1
             = dec_message_fields f2 (pb_len_field 26 (msgData m))
                 (if ?n = 0 then ?m1 else ?m1\<lparr>msgType := msgType m\<rparr>)"
    using dec_type_field [OF f1, of ?m1] by auto
  let ?m2 = "(if ?n = 0 then ?m1 else ?m1\<lparr>msgType := msgType m\<rparr>)"
  obtain f3 where
    e3: "dec_message_fields f2 (pb_len_field 26 (msgData m)) ?m2
         = dec_message_fields f3 [] (if msgData m = [] then ?m2 else ?m2\<lparr>msgData := msgData m\<rparr>)"
    using dec_data_field [of "msgData m" "[]" f2 ?m2] f2 by auto
  have "(if msgData m = [] then ?m2 else ?m2\<lparr>msgData := msgData m\<rparr>) = m"
    by (cases m) (auto simp: empty_message_def msg_type_num_0)
  with e1 e2 e3 show ?thesis by simp
qed

text \<open>
  C31: The binary envelope codec round-trips: \<open>ProtoCodec\<close> encodes every envelope
  without error, and decoding the bytes gives the envelope back.
\<close>
theorem ProtoCodec_roundtrip:
  "Encode ProtoCodec m = Inr (encode_message m) \<and> Decode ProtoCodec (encode_message m) = Inr m
   \<and> IsBinary ProtoCodec"
  by (simp add: ProtoCodec_def decode_encode_message)

end
