(* ===== verification/SyncedMap.thy ===== *)
theory SyncedMap
  imports Prelude
begin

text \<open>
  \<open>src/internal/util/syncedmap.go\<close>: a Go map behind a read-write mutex.  Each method
  holds the lock for its whole body, so each is one atomic operation on the map, which
  the model writes as a function on \<open>'k \<rightharpoonup> 'v\<close>.  The tunnel connection keeps its
  pending-response table in one.
\<close>

definition NewSyncedMap :: "'k \<rightharpoonup> 'v" where
  "NewSyncedMap = Map.empty"

definition SyncedMap_Get :: "('k \<rightharpoonup> 'v) \<Rightarrow> 'k \<Rightarrow> 'v option" where
  "SyncedMap_Get m k = m k"

definition SyncedMap_Set :: "('k \<rightharpoonup> 'v) \<Rightarrow> 'k \<Rightarrow> 'v \<Rightarrow> ('k \<rightharpoonup> 'v)" where
  "SyncedMap_Set m k v = m(k \<mapsto> v)"

definition SyncedMap_Delete :: "('k \<rightharpoonup> 'v) \<Rightarrow> 'k \<Rightarrow> ('k \<rightharpoonup> 'v)" where
  "SyncedMap_Delete m k = m(k := None)"

definition SyncedMap_Size :: "('k \<rightharpoonup> 'v) \<Rightarrow> nat" where
  "SyncedMap_Size m = card (dom m)"

lemmas synced_map_simps [simp] =
  NewSyncedMap_def SyncedMap_Get_def SyncedMap_Set_def SyncedMap_Delete_def

lemma SyncedMap_Set_Get: "SyncedMap_Get (SyncedMap_Set m k v) k' = (if k' = k then Some v else m k')"
  by simp

lemma SyncedMap_Delete_Get: "SyncedMap_Get (SyncedMap_Delete m k) k' = (if k' = k then None else m k')"
  by simp

lemma SyncedMap_Size_Set_Delete:
  "finite (dom m) \<Longrightarrow>
     SyncedMap_Size (SyncedMap_Delete (SyncedMap_Set m k v) k) = SyncedMap_Size m - (if k \<in> dom m then 1 else 0)"
  by (simp add: SyncedMap_Size_def)

end
