(* ===== verification/Conn.thy ===== *)
theory Conn
  imports Pool Message SyncedMap
begin

text \<open>
  One tunnel connection, \<open>src/ws/conn.go\<close>.  The Go \<open>Conn\<close> owns a buffered outbound
  channel \<open>sendCh\<close> (capacity \<open>inFlightCount\<close>), a pending-response table
  \<open>respMap\<close> from envelope id to a reply channel of capacity one, a cancellable
  context and the websocket.  The model keeps the reply channels in an explicit store
  \<open>chans\<close> indexed by a channel reference, because a \<open>Send\<close> keeps its own reference
  to its channel after the table entry is deleted, and a reader goroutine may hold it
  too.  Each operation of the file is split at its blocking points: every function
  below is one atomic step of one goroutine, \<open>None\<close> when that step is blocked.
  A Go \<open>select\<close> picks among its ready cases at random, so the step functions take the
  case as an argument (\<open>select_case\<close>, \<open>wait_case\<close>, \<open>write_case\<close>) and return
  \<open>None\<close> when that case is not ready.  Theory \<open>Tunnel\<close> composes the steps.
\<close>

section \<open>Constants\<close>

text \<open>Durations in seconds, sizes in bytes.\<close>
definition writeWait :: nat where "writeWait = 10"
definition pingPeriod :: nat where "pingPeriod = 10"
definition pongWait :: nat where "pongWait = pingPeriod * 2 + 1"
definition maxMessageSize :: nat where "maxMessageSize = 10 * 1024 * 1024"
definition inFlightCount :: nat where "inFlightCount = 1024"

section \<open>State\<close>

record event_handler =
  HandleRequest :: "bytes \<Rightarrow> bytes result"
  HandleNotify :: "bytes \<Rightarrow> go_error option"

datatype ws_frame = BinaryMessage bytes | TextMessage bytes | PingMessage | CloseMessage

text \<open>
  The fields of \<open>Conn\<close> that change: the outbound channel (its buffer and whether it
  is closed), the pending-response table and the reply channels it points to, whether
  the connection context is cancelled, and whether the websocket is closed.
\<close>
record conn =
  clientID :: string
  sendCh :: "bytes list"
  sendClosed :: bool
  respMap :: "string \<rightharpoonup> nat"
  chans :: "nat \<Rightarrow> bytes list"
  nextChan :: nat
  ctxDone :: bool
  wsClosed :: bool

section \<open>safeSend\<close>

text \<open>
  The two cases of the \<open>select\<close> in \<open>safeSend\<close>.  A send on a closed channel is ready
  and panics; the deferred \<open>recover\<close> turns the panic into \<open>closed = true\<close> with a
  nil error.  A send on an open channel is ready while the buffer has room.
\<close>
datatype select_case = SendCase | CtxDoneCase

definition safeSend ::
  "bool \<Rightarrow> nat \<Rightarrow> 'a list \<Rightarrow> bool \<Rightarrow> 'a \<Rightarrow> select_case \<Rightarrow> ((bool \<times> go_error option) \<times> 'a list) option" where
  "safeSend ctx_done cap ch closed v sc =
     (case sc of
        SendCase \<Rightarrow>
          if closed then Some ((True, None), ch)
          else if length ch < cap then Some ((False, None), ch @ [v])
          else None
      | CtxDoneCase \<Rightarrow> if ctx_done then Some ((False, Some CtxErr), ch) else None)"

section \<open>handleReceived\<close>

text \<open>
  What the goroutine that handles one inbound frame does after \<open>handleReceived\<close>:
  nothing, enqueue a response, or push the payload into a reply channel.
\<close>
datatype received = NoResponse | Response bytes | DeliverTo nat bytes

definition handleReceived :: "message codec \<Rightarrow> event_handler \<Rightarrow> conn \<Rightarrow> bytes \<Rightarrow> received" where
  "handleReceived cd h c input =
     (case Decode cd input of
        Inl _ \<Rightarrow> NoResponse
      | Inr msg \<Rightarrow>
          (case msgType msg of
             Message_NOTIFY \<Rightarrow> NoResponse
           | Message_REQUEST \<Rightarrow>
               (case HandleRequest h (msgData msg) of
                  Inl _ \<Rightarrow> NoResponse
                | Inr output \<Rightarrow>
                    (case Encode cd (msg\<lparr>msgType := Message_RESPONSE, msgData := output\<rparr>) of
                       Inl _ \<Rightarrow> NoResponse
                     | Inr d \<Rightarrow> Response d))
           | Message_RESPONSE \<Rightarrow>
               (case SyncedMap_Get (respMap c) (msgId msg) of
                  None \<Rightarrow> NoResponse
                | Some k \<Rightarrow> DeliverTo k (msgData msg))))"

text \<open>\<open>respCh <- msg.Data\<close>: the reply channel holds one value; a second send blocks.\<close>
definition deliver :: "conn \<Rightarrow> nat \<Rightarrow> bytes \<Rightarrow> conn option" where
  "deliver c k d = (if chans c k = [] then Some (c\<lparr>chans := (chans c)(k := [d])\<rparr>) else None)"

section \<open>readLoop\<close>

text \<open>
  The goroutine's reply: \<open>safeSend\<close> on the connection context; on an error or a
  closed channel it closes the websocket.
\<close>
definition readLoop_reply :: "conn \<Rightarrow> bytes \<Rightarrow> select_case \<Rightarrow> conn option" where
  "readLoop_reply c resp sc =
     (case safeSend (ctxDone c) inFlightCount (sendCh c) (sendClosed c) resp sc of
        None \<Rightarrow> None
      | Some ((closed, err), ch') \<Rightarrow>
          Some (if err \<noteq> None \<or> closed then c\<lparr>sendCh := ch', wsClosed := True\<rparr>
                else c\<lparr>sendCh := ch'\<rparr>))"

text \<open>\<open>sendClose\<close> is \<open>sync.OnceFunc(close(sendCh))\<close>: the channel is closed once.\<close>
definition sendClose :: "conn \<Rightarrow> conn" where
  "sendClose c = (if sendClosed c then c else c\<lparr>sendClosed := True\<rparr>)"

text \<open>The deferred teardown of \<open>readLoop\<close>: unregister, close the queue, close the socket.\<close>
definition readLoop_teardown :: "pool \<Rightarrow> cid \<Rightarrow> conn \<Rightarrow> pool \<times> conn" where
  "readLoop_teardown p self c = (unregister p self, (sendClose c)\<lparr>wsClosed := True\<rparr>)"

section \<open>writeLoop\<close>

datatype write_case = WriteCtxDone | WriteDequeue | WriteTick

definition frame_of :: "bool \<Rightarrow> bytes \<Rightarrow> ws_frame" where
  "frame_of binary m = (if binary then BinaryMessage m else TextMessage m)"

text \<open>
  One iteration of \<open>writeLoop\<close>.  \<open>ok\<close> says whether the peer accepts the write; a
  write to a closed socket fails.  The result is the new state, the frames written and
  whether the loop returned (its deferred \<open>conn.Close()\<close> closes the socket).
  A dequeued message whose write fails is lost.
\<close>
definition writeLoop_step ::
  "message codec \<Rightarrow> conn \<Rightarrow> write_case \<Rightarrow> bool \<Rightarrow> (conn \<times> ws_frame list \<times> bool) option" where
  "writeLoop_step cd c wc ok =
     (let ok' = (ok \<and> \<not> wsClosed c) in
      case wc of
        WriteCtxDone \<Rightarrow>
          if ctxDone c then Some (c\<lparr>wsClosed := True\<rparr>, if ok' then [CloseMessage] else [], True)
          else None
      | WriteDequeue \<Rightarrow>
          (case sendCh c of
             m # rest \<Rightarrow>
               if ok' then Some (c\<lparr>sendCh := rest\<rparr>, [frame_of (IsBinary cd) m], False)
               else Some (c\<lparr>sendCh := rest, wsClosed := True\<rparr>, [], True)
           | [] \<Rightarrow>
               if sendClosed c
               then Some (c\<lparr>wsClosed := True\<rparr>, if ok' then [CloseMessage] else [], True)
               else None)
      | WriteTick \<Rightarrow>
          if ok' then Some (c, [PingMessage], False)
          else Some (c\<lparr>wsClosed := True\<rparr>, [], True))"

definition Close :: "conn \<Rightarrow> conn" where
  "Close c = c\<lparr>ctxDone := True\<rparr>"

section \<open>Send and Notify\<close>

datatype send_pc = SendEnqueue bytes | SendWait | SendReturned "bytes result"

text \<open>A call of \<open>Send\<close> in progress: its id, its reply channel, its context.\<close>
record caller =
  cId :: string
  cChan :: "nat option"
  cCtxDone :: bool
  cPc :: send_pc

text \<open>The deferred \<open>c.respMap.Delete(msg.Id)\<close> of \<open>Send\<close>.\<close>
definition release :: "conn \<Rightarrow> caller \<Rightarrow> conn" where
  "release c cl = c\<lparr>respMap := SyncedMap_Delete (respMap c) (cId cl)\<rparr>"

text \<open>
  \<open>Send\<close> up to its first blocking point: build and encode the REQUEST envelope with
  the fresh id \<open>x\<close> (\<open>uuid.New()\<close>), make the reply channel, store it in the table.
\<close>
definition Send_start :: "message codec \<Rightarrow> conn \<Rightarrow> string \<Rightarrow> bytes \<Rightarrow> bool \<Rightarrow> conn \<times> caller" where
  "Send_start cd c x input ctx_done =
     (case Encode cd \<lparr>msgId = x, msgType = Message_REQUEST, msgData = input\<rparr> of
        Inl e \<Rightarrow> (c, \<lparr>cId = x, cChan = None, cCtxDone = ctx_done, cPc = SendReturned (Inl e)\<rparr>)
      | Inr data \<Rightarrow>
          (let k = nextChan c in
           (c\<lparr>respMap := SyncedMap_Set (respMap c) x k, chans := (chans c)(k := []),
              nextChan := Suc k\<rparr>,
            \<lparr>cId = x, cChan = Some k, cCtxDone = ctx_done, cPc = SendEnqueue data\<rparr>)))"

text \<open>\<open>safeSend\<close> of the encoded request, then the two early returns.\<close>
definition Send_enqueue :: "conn \<Rightarrow> caller \<Rightarrow> select_case \<Rightarrow> (conn \<times> caller) option" where
  "Send_enqueue c cl sc =
     (case cPc cl of
        SendEnqueue data \<Rightarrow>
          (case safeSend (cCtxDone cl) inFlightCount (sendCh c) (sendClosed c) data sc of
             None \<Rightarrow> None
           | Some ((closed, err), ch') \<Rightarrow>
               (let c' = c\<lparr>sendCh := ch'\<rparr> in
                case err of
                  Some e \<Rightarrow> Some (release c' cl, cl\<lparr>cPc := SendReturned (Inl e)\<rparr>)
                | None \<Rightarrow>
                    if closed
                    then Some (release c' cl, cl\<lparr>cPc := SendReturned (Inl ErrConnectionClosed)\<rparr>)
                    else Some (c', cl\<lparr>cPc := SendWait\<rparr>)))
      | _ \<Rightarrow> None)"

datatype wait_case = RespReceived | CtxExpired

text \<open>The final \<open>select\<close> of \<open>Send\<close>: a reply on its channel, or its context.\<close>
definition Send_wait :: "conn \<Rightarrow> caller \<Rightarrow> wait_case \<Rightarrow> (conn \<times> caller) option" where
  "Send_wait c cl wc =
     (case (cPc cl, cChan cl) of
        (SendWait, Some k) \<Rightarrow>
          (case wc of
             RespReceived \<Rightarrow>
               (case chans c k of
                  [] \<Rightarrow> None
                | r # rest \<Rightarrow>
                    Some (release (c\<lparr>chans := (chans c)(k := rest)\<rparr>) cl,
                          cl\<lparr>cPc := SendReturned (Inr r)\<rparr>))
           | CtxExpired \<Rightarrow>
               if cCtxDone cl then Some (release c cl, cl\<lparr>cPc := SendReturned (Inl CtxErr)\<rparr>)
               else None)
      | _ \<Rightarrow> None)"

text \<open>\<open>Notify\<close>: encode a NOTIFY envelope and \<open>safeSend\<close> it; no reply is awaited.\<close>
definition Notify ::
  "message codec \<Rightarrow> conn \<Rightarrow> bool \<Rightarrow> string \<Rightarrow> bytes \<Rightarrow> select_case \<Rightarrow> (go_error option \<times> conn) option" where
  "Notify cd c ctx_done x input sc =
     (case Encode cd \<lparr>msgId = x, msgType = Message_NOTIFY, msgData = input\<rparr> of
        Inl e \<Rightarrow> Some (Some e, c)
      | Inr data \<Rightarrow>
          (case safeSend ctx_done inFlightCount (sendCh c) (sendClosed c) data sc of
             None \<Rightarrow> None
           | Some ((closed, err), ch') \<Rightarrow>
               Some (case err of
                       Some e \<Rightarrow> Some e
                     | None \<Rightarrow> if closed then Some ErrConnectionClosed else None,
                     c\<lparr>sendCh := ch'\<rparr>)))"

text \<open>How a step may change the outbound queue: not at all, or by one value at its end.\<close>
definition queue_grows :: "conn \<Rightarrow> conn \<Rightarrow> bool" where
  "queue_grows c c' \<longleftrightarrow>
     sendCh c' = sendCh c
   \<or> (\<exists>v. sendCh c' = sendCh c @ [v] \<and> length (sendCh c) < inFlightCount \<and> \<not> sendClosed c)"

section \<open>handleConn\<close>

text \<open>A new connection, registered in the pool; its two loops start in \<open>Tunnel\<close>.\<close>
definition handleConn :: "pool \<Rightarrow> cid \<Rightarrow> string \<Rightarrow> pool \<times> conn" where
  "handleConn p self client_id =
     (register p self client_id,
      \<lparr>clientID = client_id, sendCh = [], sendClosed = False, respMap = NewSyncedMap,
       chans = (\<lambda>_. []), nextChan = 0, ctxDone = False, wsClosed = False\<rparr>)"

section \<open>Step lemmas\<close>

lemma safeSend_SomeE:
  assumes "safeSend cx cap ch closed v sc = Some (r, ch')"
  obtains (sent) "ch' = ch @ [v]" "\<not> closed" "length ch < cap" "r = (False, None)" "sc = SendCase"
    | (closed) "ch' = ch" "closed" "r = (True, None)" "sc = SendCase"
    | (ctx) "ch' = ch" "cx" "r = (False, Some CtxErr)" "sc = CtxDoneCase"
  using assms by (auto simp: safeSend_def split: select_case.splits if_splits)

lemma queue_grows_refl [simp]: "queue_grows c c"
  by (simp add: queue_grows_def)

lemma queue_grows_same: "sendCh c' = sendCh c \<Longrightarrow> queue_grows c c'"
  by (simp add: queue_grows_def)

lemma queue_grows_safeSend:
  "safeSend cx inFlightCount (sendCh c) (sendClosed c) v sc = Some (r, ch') \<Longrightarrow>
   queue_grows c (c'\<lparr>sendCh := ch'\<rparr>)"
  by (erule safeSend_SomeE) (auto simp: queue_grows_def)

lemma Send_start_fields [state_simps]:
  "Send_start cd c x input cx = (c', cl) \<Longrightarrow>
     sendCh c' = sendCh c \<and> sendClosed c' = sendClosed c \<and> wsClosed c' = wsClosed c
   \<and> ctxDone c' = ctxDone c \<and> clientID c' = clientID c"
  by (auto simp: Send_start_def Let_def split: sum.splits)

lemma Send_enqueue_fields [state_simps]:
  "Send_enqueue c cl sc = Some (c', cl') \<Longrightarrow>
     queue_grows c c' \<and> sendClosed c' = sendClosed c \<and> wsClosed c' = wsClosed c
   \<and> ctxDone c' = ctxDone c \<and> clientID c' = clientID c"
  by (auto simp: Send_enqueue_def release_def Let_def queue_grows_def
           split: send_pc.splits option.splits prod.splits if_splits
           elim!: safeSend_SomeE)

lemma Send_wait_fields [state_simps]:
  "Send_wait c cl wc = Some (c', cl') \<Longrightarrow>
     sendCh c' = sendCh c \<and> sendClosed c' = sendClosed c \<and> wsClosed c' = wsClosed c
   \<and> ctxDone c' = ctxDone c \<and> clientID c' = clientID c"
  by (auto simp: Send_wait_def release_def
           split: send_pc.splits option.splits prod.splits wait_case.splits list.splits if_splits)

lemma Notify_fields [state_simps]:
  "Notify cd c cx x input sc = Some (r, c') \<Longrightarrow>
     queue_grows c c' \<and> sendClosed c' = sendClosed c \<and> wsClosed c' = wsClosed c
   \<and> ctxDone c' = ctxDone c \<and> clientID c' = clientID c \<and> respMap c' = respMap c
   \<and> chans c' = chans c \<and> nextChan c' = nextChan c"
  by (auto simp: Notify_def queue_grows_def split: sum.splits option.splits prod.splits
           elim!: safeSend_SomeE)

lemma readLoop_reply_fields [state_simps]:
  "readLoop_reply c d sc = Some c' \<Longrightarrow>
     queue_grows c c' \<and> sendClosed c' = sendClosed c \<and> ctxDone c' = ctxDone c
   \<and> clientID c' = clientID c \<and> respMap c' = respMap c \<and> chans c' = chans c
   \<and> nextChan c' = nextChan c \<and> (wsClosed c \<longrightarrow> wsClosed c')"
  by (auto simp: readLoop_reply_def queue_grows_def split: option.splits prod.splits
           elim!: safeSend_SomeE)

lemma deliver_fields [state_simps]:
  "deliver c k d = Some c' \<Longrightarrow> c' = c\<lparr>chans := (chans c)(k := [d])\<rparr> \<and> chans c k = []"
  by (auto simp: deliver_def split: if_splits)

lemma readLoop_teardown_fields [state_simps]:
  "readLoop_teardown p self c = (p', c') \<Longrightarrow>
     p' = unregister p self \<and> sendCh c' = sendCh c \<and> sendClosed c' \<and> wsClosed c'
   \<and> ctxDone c' = ctxDone c \<and> clientID c' = clientID c \<and> respMap c' = respMap c
   \<and> chans c' = chans c \<and> nextChan c' = nextChan c"
  by (auto simp: readLoop_teardown_def sendClose_def split: if_splits)

lemma writeLoop_step_cases:
  assumes "writeLoop_step cd c wc ok = Some (c', fs, ex)"
  obtains (sent) m rest where "sendCh c = m # rest" "c' = c\<lparr>sendCh := rest\<rparr>"
      "fs = [frame_of (IsBinary cd) m]" "\<not> ex"
    | (lost) m rest where "sendCh c = m # rest" "c' = c\<lparr>sendCh := rest, wsClosed := True\<rparr>"
      "fs = []" "ex"
    | (control) "c' = c\<lparr>wsClosed := True\<rparr>" "fs \<in> {[], [CloseMessage]}" "ex"
    | (ping) "c' = c" "fs = [PingMessage]" "\<not> ex"
proof (cases wc)
  case WriteCtxDone
  with assms control show ?thesis
    by (simp add: writeLoop_step_def split: if_splits)
next
  case WriteDequeue
  show ?thesis
  proof (cases "sendCh c")
    case Nil
    with assms WriteDequeue control show ?thesis
      by (simp add: writeLoop_step_def split: if_splits)
  next
    case (Cons m rest)
    with assms WriteDequeue sent lost show ?thesis
      by (simp add: writeLoop_step_def split: if_splits)
  qed
next
  case WriteTick
  with assms ping control show ?thesis
    by (simp add: writeLoop_step_def split: if_splits)
qed

lemma Send_start_result:
  assumes "Send_start cd c x input cx = (c', cl)"
  shows "cId cl = x \<and> cCtxDone cl = cx \<and>
         ((c' = c \<and> cChan cl = None \<and> (\<exists>e. cPc cl = SendReturned (Inl e)))
        \<or> (cChan cl = Some (nextChan c) \<and> (\<exists>d. cPc cl = SendEnqueue d)
           \<and> respMap c' = (respMap c)(x \<mapsto> nextChan c) \<and> chans c' = (chans c)(nextChan c := [])
           \<and> nextChan c' = Suc (nextChan c)))"
  using assms by (auto simp: Send_start_def Let_def split: sum.splits)

lemma Send_enqueue_result:
  assumes "Send_enqueue c cl sc = Some (c', cl')"
  shows "cId cl' = cId cl \<and> cChan cl' = cChan cl \<and> cCtxDone cl' = cCtxDone cl
       \<and> (\<exists>d. cPc cl = SendEnqueue d) \<and> chans c' = chans c \<and> nextChan c' = nextChan c
       \<and> ((cPc cl' = SendWait \<and> respMap c' = respMap c)
        \<or> ((\<exists>e. cPc cl' = SendReturned (Inl e)) \<and> respMap c' = (respMap c)(cId cl := None)))"
  using assms by (auto simp: Send_enqueue_def release_def Let_def
                      split: send_pc.splits option.splits prod.splits if_splits
                      elim!: safeSend_SomeE)

lemma Send_wait_result:
  assumes "Send_wait c cl wc = Some (c', cl')"
  obtains k where "cPc cl = SendWait" "cChan cl = Some k"
    "cId cl' = cId cl" "cChan cl' = cChan cl" "cCtxDone cl' = cCtxDone cl"
    "respMap c' = (respMap c)(cId cl := None)" "nextChan c' = nextChan c"
    "(\<exists>r rest. chans c k = r # rest \<and> chans c' = (chans c)(k := rest) \<and> cPc cl' = SendReturned (Inr r))
     \<or> (chans c' = chans c \<and> cCtxDone cl \<and> cPc cl' = SendReturned (Inl CtxErr))"
  using assms
  by (auto simp: Send_wait_def release_def
           split: send_pc.splits option.splits wait_case.splits list.splits if_splits)

lemma writeLoop_step_table [state_simps]:
  "writeLoop_step cd c wc ok = Some (c', fs, ex) \<Longrightarrow>
     respMap c' = respMap c \<and> chans c' = chans c \<and> nextChan c' = nextChan c
   \<and> clientID c' = clientID c \<and> sendClosed c' = sendClosed c \<and> (wsClosed c \<longrightarrow> wsClosed c')"
  by (erule writeLoop_step_cases) auto

lemma handleReceived_DeliverTo:
  "handleReceived cd h c b = DeliverTo k d \<Longrightarrow>
     \<exists>m. Decode cd b = Inr m \<and> msgType m = Message_RESPONSE
        \<and> SyncedMap_Get (respMap c) (msgId m) = Some k \<and> d = msgData m"
  by (auto simp: handleReceived_def split: sum.splits msg_type.splits option.splits)

section \<open>Properties\<close>

text \<open>
  C18: Enqueue on a torn-down connection.  Once the queue is closed, the enqueue step of
  \<open>Send\<close> never blocks and never enqueues: it returns \<open>ErrConnectionClosed\<close> (or, when
  the context is also done, possibly \<open>ctx.Err()\<close>) and its table entry is removed; the
  panic of the send on a closed channel is recovered.
\<close>
theorem Send_on_closed_queue:
  assumes "sendClosed c" "cPc cl = SendEnqueue d"
  shows "(\<exists>c' cl'. Send_enqueue c cl SendCase = Some (c', cl')
                  \<and> cPc cl' = SendReturned (Inl ErrConnectionClosed))
       \<and> (\<forall>sc c' cl'. Send_enqueue c cl sc = Some (c', cl') \<longrightarrow>
            (cPc cl' = SendReturned (Inl ErrConnectionClosed)
             \<or> (cPc cl' = SendReturned (Inl CtxErr) \<and> cCtxDone cl))
          \<and> SyncedMap_Get (respMap c') (cId cl) = None \<and> sendCh c' = sendCh c)"
  using assms
  by (auto simp: Send_enqueue_def safeSend_def release_def split: select_case.splits if_splits)

theorem Send_on_closed_queue_witness:
  "sendClosed \<lparr>clientID = ''c1'', sendCh = [], sendClosed = True, respMap = [''a'' \<mapsto> 0],
               chans = (\<lambda>_. []), nextChan = 1, ctxDone = False, wsClosed = True\<rparr>
   \<and> cPc \<lparr>cId = ''a'', cChan = Some 0, cCtxDone = False, cPc = SendEnqueue [1]\<rparr> = SendEnqueue [1]
   \<and> Send_enqueue \<lparr>clientID = ''c1'', sendCh = [], sendClosed = True, respMap = [''a'' \<mapsto> 0],
               chans = (\<lambda>_. []), nextChan = 1, ctxDone = False, wsClosed = True\<rparr>
       \<lparr>cId = ''a'', cChan = Some 0, cCtxDone = False, cPc = SendEnqueue [1]\<rparr> SendCase
     = Some (\<lparr>clientID = ''c1'', sendCh = [], sendClosed = True, respMap = Map.empty,
               chans = (\<lambda>_. []), nextChan = 1, ctxDone = False, wsClosed = True\<rparr>,
             \<lparr>cId = ''a'', cChan = Some 0, cCtxDone = False, cPc = SendReturned (Inl ErrConnectionClosed)\<rparr>)"
proof -
  have "sendClosed \<lparr>clientID = ''c1'', sendCh = [], sendClosed = True, respMap = [''a'' \<mapsto> 0],
               chans = (\<lambda>_. []), nextChan = 1, ctxDone = False, wsClosed = True\<rparr>" by simp
  from Send_on_closed_queue [OF this, of "\<lparr>cId = ''a'', cChan = Some 0, cCtxDone = False, cPc = SendEnqueue [1]\<rparr>" "[1]"]
  show ?thesis by (simp add: Send_enqueue_def safeSend_def release_def)
qed

text \<open>
  C19: Only requests are answered.  The reader goroutine enqueues a reply only for a frame
  that decodes to a REQUEST whose handler succeeded, and the reply is the encoding of
  that envelope turned into a RESPONSE carrying the handler's output: NOTIFY frames,
  RESPONSE frames, undecodable frames and failed handlers get no reply.
\<close>
theorem only_requests_answered:
  assumes "handleReceived cd h c b = Response d"
  shows "\<exists>m out. Decode cd b = Inr m \<and> msgType m = Message_REQUEST \<and> HandleRequest h (msgData m) = Inr out
              \<and> Encode cd (m\<lparr>msgType := Message_RESPONSE, msgData := out\<rparr>) = Inr d"
  using assms
  by (auto simp: handleReceived_def split: sum.splits msg_type.splits option.splits)

theorem only_requests_answered_witness:
  "handleReceived ProtoCodec \<lparr>HandleRequest = (\<lambda>b. Inr (b @ b)), HandleNotify = (\<lambda>b. None)\<rparr>
      (snd (handleConn NewPool 1 ''c1''))
      (encode_message \<lparr>msgId = ''q'', msgType = Message_REQUEST, msgData = [5]\<rparr>)
    = Response (encode_message \<lparr>msgId = ''q'', msgType = Message_RESPONSE, msgData = [5, 5]\<rparr>)
   \<and> Decode ProtoCodec (encode_message \<lparr>msgId = ''q'', msgType = Message_REQUEST, msgData = [5]\<rparr>)
       = Inr \<lparr>msgId = ''q'', msgType = Message_REQUEST, msgData = [5]\<rparr>"
proof -
  have hr: "handleReceived ProtoCodec \<lparr>HandleRequest = (\<lambda>b. Inr (b @ b)), HandleNotify = (\<lambda>b. None)\<rparr>
      (snd (handleConn NewPool 1 ''c1''))
      (encode_message \<lparr>msgId = ''q'', msgType = Message_REQUEST, msgData = [5]\<rparr>)
    = Response (encode_message \<lparr>msgId = ''q'', msgType = Message_RESPONSE, msgData = [5, 5]\<rparr>)"
    by (simp add: handleReceived_def ProtoCodec_def decode_encode_message)
  from only_requests_answered [OF hr] hr show ?thesis
    by (simp add: ProtoCodec_def decode_encode_message)
qed

text \<open>
  C20: A request is answered under its own id.  With the protobuf codec, a REQUEST frame
  whose handler returns \<open>out\<close> is answered by a frame that decodes to a RESPONSE with the
  request's id and payload \<open>out\<close>, which is what the peer's correlation relies on.
\<close>
theorem request_answered_same_id:
  assumes "Decode ProtoCodec b = Inr m" "msgType m = Message_REQUEST" "HandleRequest h (msgData m) = Inr out"
  shows "\<exists>d. handleReceived ProtoCodec h c b = Response d
           \<and> Decode ProtoCodec d = Inr \<lparr>msgId = msgId m, msgType = Message_RESPONSE, msgData = out\<rparr>"
proof -
  have "m\<lparr>msgType := Message_RESPONSE, msgData := out\<rparr>
        = \<lparr>msgId = msgId m, msgType = Message_RESPONSE, msgData = out\<rparr>"
    by (cases m) simp
  with assms show ?thesis
    by (simp add: handleReceived_def ProtoCodec_def decode_encode_message)
qed

theorem request_answered_same_id_witness:
  "Decode ProtoCodec (encode_message \<lparr>msgId = ''q'', msgType = Message_REQUEST, msgData = [5]\<rparr>)
     = Inr \<lparr>msgId = ''q'', msgType = Message_REQUEST, msgData = [5]\<rparr>
   \<and> (\<exists>d. handleReceived ProtoCodec \<lparr>HandleRequest = (\<lambda>b. Inr [9]), HandleNotify = (\<lambda>b. None)\<rparr>
            (snd (handleConn NewPool 1 ''c1''))
            (encode_message \<lparr>msgId = ''q'', msgType = Message_REQUEST, msgData = [5]\<rparr>) = Response d
          \<and> Decode ProtoCodec d = Inr \<lparr>msgId = ''q'', msgType = Message_RESPONSE, msgData = [9]\<rparr>)"
proof -
  have d: "Decode ProtoCodec (encode_message \<lparr>msgId = ''q'', msgType = Message_REQUEST, msgData = [5]\<rparr>)
     = Inr \<lparr>msgId = ''q'', msgType = Message_REQUEST, msgData = [5]\<rparr>"
    by (simp add: ProtoCodec_def decode_encode_message)
  from request_answered_same_id [OF d, of "\<lparr>HandleRequest = (\<lambda>b. Inr [9]), HandleNotify = (\<lambda>b. None)\<rparr>" "[9]"] d
  show ?thesis by simp
qed

end
