(* ===== verification/Tunnel.thy ===== *)
theory Tunnel
  imports Conn
begin

text \<open>
  The concurrent behaviour of one tunnel connection of \<open>src/ws/conn.go\<close>: the state
  of the connection, the pool it is registered in, every \<open>Send\<close> call in progress, the
  goroutines \<open>readLoop\<close> spawned for inbound frames, and the two loops.  \<open>tstep\<close>
  is one atomic step of one of them, chosen by the scheduler; the network is the
  environment (a frame arrives, a read or a write fails).  Three ghost fields record
  history for the statements: the frames received (\<open>inbound\<close>), the ids \<open>uuid.New\<close>
  returned (\<open>usedIds\<close>; a fresh id is the model of a random UUID) and every value put
  into \<open>sendCh\<close> in order (\<open>enqueued\<close>).
\<close>

section \<open>State\<close>

datatype goroutine = GHandle bytes | GReply bytes | GDeliver nat bytes

record tunnel =
  tpool :: pool
  self :: cid
  tconn :: conn
  callers :: "nat \<rightharpoonup> caller"
  gos :: "goroutine list"
  readerRunning :: bool
  writerRunning :: bool
  wireOut :: "ws_frame list"
  inbound :: "bytes list"
  usedIds :: "string set"
  enqueued :: "bytes list"

text \<open>\<open>handleConn\<close>: the connection registered, both loops started.\<close>
definition tunnel_init :: "pool \<Rightarrow> cid \<Rightarrow> string \<Rightarrow> tunnel" where
  "tunnel_init p c client_id =
     (let (p', cn) = handleConn p c client_id in
      \<lparr>tpool = p', self = c, tconn = cn, callers = Map.empty, gos = [], readerRunning = True,
       writerRunning = True, wireOut = [], inbound = [], usedIds = {}, enqueued = []\<rparr>)"

text \<open>What the goroutine of an inbound frame continues with after \<open>handleReceived\<close>.\<close>
fun continuation :: "received \<Rightarrow> goroutine list" where
  "continuation NoResponse = []"
| "continuation (Response d) = [GReply d]"
| "continuation (DeliverTo k d) = [GDeliver k d]"

definition replace_nth :: "nat \<Rightarrow> 'a list \<Rightarrow> 'a list \<Rightarrow> 'a list" where
  "replace_nth i ys xs = take i xs @ ys @ drop (Suc i) xs"

text \<open>The values a step appended to \<open>sendCh\<close>.\<close>
definition appended :: "bytes list \<Rightarrow> bytes list \<Rightarrow> bytes list" where
  "appended old new = drop (length old) new"

definition active :: "caller \<Rightarrow> bool" where
  "active cl \<longleftrightarrow> (case cPc cl of SendReturned _ \<Rightarrow> False | _ \<Rightarrow> True)"

section \<open>Steps\<close>

inductive tstep :: "message codec \<Rightarrow> event_handler \<Rightarrow> tunnel \<Rightarrow> tunnel \<Rightarrow> bool"
  for cd :: "message codec" and h :: event_handler where
  send_start:
    "callers s t = None \<Longrightarrow> x \<notin> usedIds s \<Longrightarrow>
     Send_start cd (tconn s) x input cx = (c', cl) \<Longrightarrow>
     tstep cd h s (s\<lparr>tconn := c', callers := (callers s)(t \<mapsto> cl), usedIds := insert x (usedIds s)\<rparr>)"
| send_enqueue:
    "callers s t = Some cl \<Longrightarrow> Send_enqueue (tconn s) cl sc = Some (c', cl') \<Longrightarrow>
     tstep cd h s (s\<lparr>tconn := c', callers := (callers s)(t \<mapsto> cl'),
                     enqueued := enqueued s @ appended (sendCh (tconn s)) (sendCh c')\<rparr>)"
| send_wait:
    "callers s t = Some cl \<Longrightarrow> Send_wait (tconn s) cl wc = Some (c', cl') \<Longrightarrow>
     tstep cd h s (s\<lparr>tconn := c', callers := (callers s)(t \<mapsto> cl')\<rparr>)"
| ctx_expire:
    "callers s t = Some cl \<Longrightarrow>
     tstep cd h s (s\<lparr>callers := (callers s)(t \<mapsto> cl\<lparr>cCtxDone := True\<rparr>)\<rparr>)"
| notify:
    "x \<notin> usedIds s \<Longrightarrow> Notify cd (tconn s) cx x input sc = Some (r, c') \<Longrightarrow>
     tstep cd h s (s\<lparr>tconn := c', usedIds := insert x (usedIds s),
                     enqueued := enqueued s @ appended (sendCh (tconn s)) (sendCh c')\<rparr>)"
| read_frame:
    "readerRunning s \<Longrightarrow> \<not> wsClosed (tconn s) \<Longrightarrow> length b \<le> maxMessageSize \<Longrightarrow>
     tstep cd h s (s\<lparr>inbound := inbound s @ [b], gos := gos s @ [GHandle b]\<rparr>)"
| read_error:
    "readerRunning s \<Longrightarrow> readLoop_teardown (tpool s) (self s) (tconn s) = (p', c') \<Longrightarrow>
     tstep cd h s (s\<lparr>tpool := p', tconn := c', readerRunning := False\<rparr>)"
| go_handle:
    "i < length (gos s) \<Longrightarrow> gos s ! i = GHandle b \<Longrightarrow>
     tstep cd h s (s\<lparr>gos := replace_nth i (continuation (handleReceived cd h (tconn s) b)) (gos s)\<rparr>)"
| go_reply:
    "i < length (gos s) \<Longrightarrow> gos s ! i = GReply d \<Longrightarrow> readLoop_reply (tconn s) d sc = Some c' \<Longrightarrow>
     tstep cd h s (s\<lparr>tconn := c', gos := replace_nth i [] (gos s),
                     enqueued := enqueued s @ appended (sendCh (tconn s)) (sendCh c')\<rparr>)"
| go_deliver:
    "i < length (gos s) \<Longrightarrow> gos s ! i = GDeliver k d \<Longrightarrow> deliver (tconn s) k d = Some c' \<Longrightarrow>
     tstep cd h s (s\<lparr>tconn := c', gos := replace_nth i [] (gos s)\<rparr>)"
| write_step:
    "writerRunning s \<Longrightarrow> writeLoop_step cd (tconn s) wc ok = Some (c', fs, ex) \<Longrightarrow>
     tstep cd h s (s\<lparr>tconn := c', wireOut := wireOut s @ fs, writerRunning := \<not> ex\<rparr>)"
| close:
    "tstep cd h s (s\<lparr>tconn := Close (tconn s)\<rparr>)"

inductive reach :: "message codec \<Rightarrow> event_handler \<Rightarrow> tunnel \<Rightarrow> bool"
  for cd :: "message codec" and h :: event_handler where
  init: "reach cd h (tunnel_init p c client_id)"
| step: "reach cd h s \<Longrightarrow> tstep cd h s s' \<Longrightarrow> reach cd h s'"

section \<open>Invariants\<close>

text \<open>The payloads of the data frames written, in order.\<close>
fun data_frames :: "ws_frame list \<Rightarrow> bytes list" where
  "data_frames [] = []"
| "data_frames (BinaryMessage m # fs) = m # data_frames fs"
| "data_frames (TextMessage m # fs) = m # data_frames fs"
| "data_frames (_ # fs) = data_frames fs"

text \<open>
  The outbound queue: bounded by its capacity, and what was enqueued is what was
  written, then at most one message lost by a failed write (after which the writer has
  returned), then what is still buffered.
\<close>
definition queue_inv :: "tunnel \<Rightarrow> bool" where
  "queue_inv s \<longleftrightarrow>
     length (sendCh (tconn s)) \<le> inFlightCount
   \<and> (\<exists>lost. enqueued s = data_frames (wireOut s) @ lost @ sendCh (tconn s)
            \<and> length lost \<le> 1 \<and> (lost \<noteq> [] \<longrightarrow> \<not> writerRunning s))"

text \<open>The connection is registered exactly while its reader runs; teardown closes both.\<close>
definition reg_inv :: "tunnel \<Rightarrow> bool" where
  "reg_inv s \<longleftrightarrow>
     clients (tpool s) (self s) = (if readerRunning s then Some (clientID (tconn s)) else None)
   \<and> (\<not> readerRunning s \<longrightarrow> sendClosed (tconn s) \<and> wsClosed (tconn s))"

text \<open>A RESPONSE envelope with id \<open>x\<close> and payload \<open>r\<close> arrived on the socket.\<close>
definition is_resp :: "message codec \<Rightarrow> bytes list \<Rightarrow> string \<Rightarrow> bytes \<Rightarrow> bool" where
  "is_resp cd ins x r \<longleftrightarrow>
     (\<exists>b \<in> set ins. \<exists>m. Decode cd b = Inr m \<and> msgType m = Message_RESPONSE
                       \<and> msgId m = x \<and> msgData m = r)"

text \<open>
  The pending-response table agrees with the calls of \<open>Send\<close>, one predicate per fact:
  ids come from \<open>uuid.New\<close> and are distinct; a call in progress has its own channel in
  the table and a call that returned has no entry; every entry belongs to a call in
  progress; no two calls share a channel; every channel reference was allocated.
\<close>
definition ids_fresh :: "tunnel \<Rightarrow> bool" where
  "ids_fresh s \<longleftrightarrow> (\<forall>t cl. callers s t = Some cl \<longrightarrow> cId cl \<in> usedIds s)"

definition ids_distinct :: "tunnel \<Rightarrow> bool" where
  "ids_distinct s \<longleftrightarrow>
     (\<forall>t1 t2 cl1 cl2. callers s t1 = Some cl1 \<longrightarrow> callers s t2 = Some cl2 \<longrightarrow>
        cId cl1 = cId cl2 \<longrightarrow> t1 = t2)"

definition table_sync :: "tunnel \<Rightarrow> bool" where
  "table_sync s \<longleftrightarrow>
     (\<forall>t cl. callers s t = Some cl \<longrightarrow>
        (if active cl then \<exists>k. cChan cl = Some k \<and> respMap (tconn s) (cId cl) = Some k
         else respMap (tconn s) (cId cl) = None))"

definition table_owned :: "tunnel \<Rightarrow> bool" where
  "table_owned s \<longleftrightarrow>
     (\<forall>x k. respMap (tconn s) x = Some k \<longrightarrow>
        (\<exists>t cl. callers s t = Some cl \<and> cId cl = x \<and> active cl))"

definition chans_distinct :: "tunnel \<Rightarrow> bool" where
  "chans_distinct s \<longleftrightarrow>
     (\<forall>t1 t2 cl1 cl2 k. callers s t1 = Some cl1 \<longrightarrow> callers s t2 = Some cl2 \<longrightarrow>
        cChan cl1 = Some k \<longrightarrow> cChan cl2 = Some k \<longrightarrow> t1 = t2)"

definition chans_alloc :: "tunnel \<Rightarrow> bool" where
  "chans_alloc s \<longleftrightarrow>
     (\<forall>t cl k. callers s t = Some cl \<longrightarrow> cChan cl = Some k \<longrightarrow> k < nextChan (tconn s))
   \<and> (\<forall>k d. GDeliver k d \<in> set (gos s) \<longrightarrow> k < nextChan (tconn s))"

definition table_inv :: "tunnel \<Rightarrow> bool" where
  "table_inv s \<longleftrightarrow> ids_fresh s \<and> ids_distinct s \<and> table_sync s \<and> table_owned s
                   \<and> chans_distinct s \<and> chans_alloc s"

text \<open>
  Correlation: every value in the reply channel of a call, every value a goroutine is
  about to push into it, and every value a call returned is the payload of a RESPONSE
  with the call's id that arrived on the socket; a goroutine handles a received frame.
\<close>
definition chan_resp :: "message codec \<Rightarrow> tunnel \<Rightarrow> bool" where
  "chan_resp cd s \<longleftrightarrow>
     (\<forall>t cl k r. callers s t = Some cl \<longrightarrow> cChan cl = Some k \<longrightarrow> r \<in> set (chans (tconn s) k) \<longrightarrow>
        is_resp cd (inbound s) (cId cl) r)"

definition deliver_resp :: "message codec \<Rightarrow> tunnel \<Rightarrow> bool" where
  "deliver_resp cd s \<longleftrightarrow>
     (\<forall>k d t cl. GDeliver k d \<in> set (gos s) \<longrightarrow> callers s t = Some cl \<longrightarrow> cChan cl = Some k \<longrightarrow>
        is_resp cd (inbound s) (cId cl) d)"

definition return_resp :: "message codec \<Rightarrow> tunnel \<Rightarrow> bool" where
  "return_resp cd s \<longleftrightarrow>
     (\<forall>t cl r. callers s t = Some cl \<longrightarrow> cPc cl = SendReturned (Inr r) \<longrightarrow>
        is_resp cd (inbound s) (cId cl) r)"

definition handle_inbound :: "tunnel \<Rightarrow> bool" where
  "handle_inbound s \<longleftrightarrow> (\<forall>b. GHandle b \<in> set (gos s) \<longrightarrow> b \<in> set (inbound s))"

definition corr_inv :: "message codec \<Rightarrow> tunnel \<Rightarrow> bool" where
  "corr_inv cd s \<longleftrightarrow> chan_resp cd s \<and> deliver_resp cd s \<and> return_resp cd s \<and> handle_inbound s"

section \<open>Preservation of the queue invariant\<close>

lemma data_frames_append [simp]: "data_frames (xs @ ys) = data_frames xs @ data_frames ys"
proof (induction xs)
  case (Cons f fs)
  then show ?case by (cases f) simp_all
qed simp

lemma data_frames_single [simp]:
  "data_frames [frame_of b m] = [m]" "data_frames [CloseMessage] = []" "data_frames [PingMessage] = []"
  by (simp_all add: frame_of_def)

lemma appended_same [simp]: "appended xs xs = []"
  by (simp add: appended_def)

lemma appended_snoc [simp]: "appended xs (xs @ [v]) = [v]"
  by (simp add: appended_def)

lemma queue_inv_grows:
  assumes "queue_inv s" "queue_grows (tconn s) (tconn s')"
    and "wireOut s' = wireOut s" "writerRunning s' = writerRunning s"
    and "enqueued s' = enqueued s @ appended (sendCh (tconn s)) (sendCh (tconn s'))"
  shows "queue_inv s'"
  using assms unfolding queue_inv_def queue_grows_def
  by (elim conjE exE disjE) (auto simp: inFlightCount_def)

lemma queue_inv_frame:
  assumes "queue_inv s" "sendCh (tconn s') = sendCh (tconn s)"
    and "wireOut s' = wireOut s" "writerRunning s' = writerRunning s" "enqueued s' = enqueued s"
  shows "queue_inv s'"
  using assms by (intro queue_inv_grows [OF assms(1)]) (simp_all add: queue_grows_same)

lemma queue_inv_write:
  assumes inv: "queue_inv s" and run: "writerRunning s"
    and w: "writeLoop_step cd (tconn s) wc ok = Some (c', fs, ex)"
  shows "queue_inv (s\<lparr>tconn := c', wireOut := wireOut s @ fs, writerRunning := \<not> ex\<rparr>)"
proof -
  from inv obtain lost where len: "length (sendCh (tconn s)) \<le> inFlightCount"
    and eq: "enqueued s = data_frames (wireOut s) @ lost @ sendCh (tconn s)"
    and l1: "length lost \<le> 1" and l2: "lost \<noteq> [] \<longrightarrow> \<not> writerRunning s"
    unfolding queue_inv_def by blast
  from l2 run have nl: "lost = []" by blast
  from w show ?thesis
  proof (cases rule: writeLoop_step_cases)
    case (sent m rest)
    with len eq nl show ?thesis by (auto simp: queue_inv_def)
  next
    case (lost m rest)
    with len eq nl show ?thesis
      by (auto simp: queue_inv_def intro!: exI [of _ "[m]"])
  next
    case control
    with len eq nl show ?thesis by (auto simp: queue_inv_def)
  next
    case ping
    with len eq nl show ?thesis by (auto simp: queue_inv_def)
  qed
qed

lemma queue_inv_init: "queue_inv (tunnel_init p c i)"
  by (simp add: queue_inv_def tunnel_init_def handleConn_def)

lemma tstep_queue_inv [inv_intros]:
  assumes "tstep cd h s s'" "queue_inv s"
  shows "queue_inv s'"
  using assms
proof (induction rule: tstep.induct)
  case (send_start s t x input cx c' cl)
  from send_start.prems show ?case
    by (rule queue_inv_frame) (simp_all add: Send_start_fields [OF send_start.hyps(3)])
next
  case (send_enqueue s t cl sc c' cl')
  from send_enqueue.prems show ?case
    by (rule queue_inv_grows) (simp_all add: Send_enqueue_fields [OF send_enqueue.hyps(2)])
next
  case (send_wait s t cl wc c' cl')
  from send_wait.prems show ?case
    by (rule queue_inv_frame) (simp_all add: Send_wait_fields [OF send_wait.hyps(2)])
next
  case (ctx_expire s t cl)
  from ctx_expire.prems show ?case by (rule queue_inv_frame) simp_all
next
  case (notify x s cx input sc r c')
  from notify.prems show ?case
    by (rule queue_inv_grows) (simp_all add: Notify_fields [OF notify.hyps(2)])
next
  case (read_frame s b)
  from read_frame.prems show ?case by (rule queue_inv_frame) simp_all
next
  case (read_error s p' c')
  from read_error.prems show ?case
    by (rule queue_inv_frame) (simp_all add: readLoop_teardown_fields [OF read_error.hyps(2)])
next
  case (go_handle i s b)
  from go_handle.prems show ?case by (rule queue_inv_frame) simp_all
next
  case (go_reply i s d sc c')
  from go_reply.prems show ?case
    by (rule queue_inv_grows) (simp_all add: readLoop_reply_fields [OF go_reply.hyps(3)])
next
  case (go_deliver i s k d c')
  from go_deliver.prems show ?case
    by (rule queue_inv_frame) (simp_all add: deliver_fields [OF go_deliver.hyps(3)])
next
  case (write_step s wc ok c' fs ex)
  from write_step.prems write_step.hyps show ?case by (rule queue_inv_write)
next
  case (close s)
  from close.prems show ?case by (rule queue_inv_frame) (simp_all add: Close_def)
qed

lemma reach_queue_inv: "reach cd h s \<Longrightarrow> queue_inv s"
  by (induction rule: reach.induct) (auto intro: queue_inv_init tstep_queue_inv)

end
