(* ===== verification/TunnelInv.thy ===== *)
theory TunnelInv
  imports Tunnel
begin

text \<open>
  Preservation of the registration, table and correlation invariants of \<open>Tunnel\<close> by
  every step, one lemma per kind of step, and the consequences for the code's calls of
  \<open>Send\<close>.
\<close>

section \<open>Registration\<close>

lemma reg_inv_frame:
  assumes "reg_inv s" "tpool s' = tpool s" "self s' = self s" "readerRunning s' = readerRunning s"
    "clientID (tconn s') = clientID (tconn s)"
    "sendClosed (tconn s) \<longrightarrow> sendClosed (tconn s')" "wsClosed (tconn s) \<longrightarrow> wsClosed (tconn s')"
  shows "reg_inv s'"
  using assms by (simp add: reg_inv_def)

lemma reg_inv_init: "reg_inv (tunnel_init p c i)"
  by (simp add: reg_inv_def tunnel_init_def handleConn_def register_def)

lemma tstep_reg_inv [inv_intros]:
  assumes "tstep cd h s s'" "reg_inv s"
  shows "reg_inv s'"
  using assms
proof (induction rule: tstep.induct)
  case (send_start s t x input cx c' cl)
  from send_start.prems show ?case
    by (rule reg_inv_frame) (simp_all add: Send_start_fields [OF send_start.hyps(3)])
next
  case (send_enqueue s t cl sc c' cl')
  from send_enqueue.prems show ?case
    by (rule reg_inv_frame) (simp_all add: Send_enqueue_fields [OF send_enqueue.hyps(2)])
next
  case (send_wait s t cl wc c' cl')
  from send_wait.prems show ?case
    by (rule reg_inv_frame) (simp_all add: Send_wait_fields [OF send_wait.hyps(2)])
next
  case (ctx_expire s t cl)
  from ctx_expire.prems show ?case by (rule reg_inv_frame) simp_all
next
  case (notify x s cx input sc r c')
  from notify.prems show ?case
    by (rule reg_inv_frame) (simp_all add: Notify_fields [OF notify.hyps(2)])
next
  case (read_frame s b)
  from read_frame.prems show ?case by (rule reg_inv_frame) simp_all
next
  case (read_error s p' c')
  with readLoop_teardown_fields [OF read_error.hyps(2)] show ?case
    by (simp add: reg_inv_def unregister_def)
next
  case (go_handle i s b)
  from go_handle.prems show ?case by (rule reg_inv_frame) simp_all
next
  case (go_reply i s d sc c')
  from go_reply.prems show ?case
    by (rule reg_inv_frame) (simp_all add: readLoop_reply_fields [OF go_reply.hyps(3)])
next
  case (go_deliver i s k d c')
  from go_deliver.prems show ?case
    by (rule reg_inv_frame) (simp_all add: deliver_fields [OF go_deliver.hyps(3)])
next
  case (write_step s wc ok c' fs ex)
  from write_step.prems show ?case
    by (rule reg_inv_frame) (simp_all add: writeLoop_step_table [OF write_step.hyps(2)])
next
  case (close s)
  from close.prems show ?case by (rule reg_inv_frame) (simp_all add: Close_def)
qed

section \<open>Table and correlation: shared facts\<close>

lemma is_resp_mono:
  "is_resp cd ins x r \<Longrightarrow> set ins \<subseteq> set ins' \<Longrightarrow> is_resp cd ins' x r"
  by (auto simp: is_resp_def)

lemma set_replace_nth:
  "set (replace_nth i ys xs) \<subseteq> set xs \<union> set ys"
  by (auto simp: replace_nth_def dest: in_set_takeD in_set_dropD)

lemma callers_table_same:
  assumes "callers s' = callers s" "respMap (tconn s') = respMap (tconn s)"
  shows "ids_distinct s' = ids_distinct s \<and> table_sync s' = table_sync s
       \<and> table_owned s' = table_owned s \<and> chans_distinct s' = chans_distinct s"
  using assms by (simp add: ids_distinct_def table_sync_def table_owned_def chans_distinct_def)

lemma inv_frame:
  assumes inv: "table_inv s" "corr_inv cd s"
    and cl: "callers s' = callers s" and rm: "respMap (tconn s') = respMap (tconn s)"
    and ch: "chans (tconn s') = chans (tconn s)" and nx: "nextChan (tconn s') = nextChan (tconn s)"
    and us: "usedIds s \<subseteq> usedIds s'" and ib: "set (inbound s) \<subseteq> set (inbound s')"
    and gd: "\<forall>k d. GDeliver k d \<in> set (gos s') \<longrightarrow> GDeliver k d \<in> set (gos s)"
    and gh: "\<forall>b. GHandle b \<in> set (gos s') \<longrightarrow> b \<in> set (inbound s')"
  shows "table_inv s' \<and> corr_inv cd s'"
proof -
  from inv have f: "ids_fresh s" and a: "chans_alloc s" and cr: "chan_resp cd s"
    and dr: "deliver_resp cd s" and rr: "return_resp cd s"
    by (simp_all add: table_inv_def corr_inv_def)
  have m: "is_resp cd (inbound s) x r \<Longrightarrow> is_resp cd (inbound s') x r" for x r
    using ib by (rule is_resp_mono [rotated])
  have "ids_fresh s'" using f cl us by (auto simp: ids_fresh_def)
  moreover have "chans_alloc s'" using a cl nx gd unfolding chans_alloc_def by metis
  moreover have "chan_resp cd s'" using cr cl ch m by (simp add: chan_resp_def)
  moreover have "deliver_resp cd s'" using dr cl gd m unfolding deliver_resp_def by metis
  moreover have "return_resp cd s'" using rr cl m by (simp add: return_resp_def)
  moreover have "handle_inbound s'" using gh by (simp add: handle_inbound_def)
  ultimately show ?thesis
    using inv callers_table_same [OF cl rm] by (simp add: table_inv_def corr_inv_def)
qed

lemma table_entry:
  assumes "table_inv s" "respMap (tconn s) x = Some k"
  obtains t cl where "callers s t = Some cl" "cId cl = x" "cChan cl = Some k" "active cl"
proof -
  from assms obtain t cl where c: "callers s t = Some cl" "cId cl = x" "active cl"
    by (auto simp: table_inv_def table_owned_def)
  from assms(1) have "table_sync s" by (simp add: table_inv_def)
  with c(1) have "if active cl then \<exists>k. cChan cl = Some k \<and> respMap (tconn s) (cId cl) = Some k
                  else respMap (tconn s) (cId cl) = None"
    unfolding table_sync_def by blast
  with c assms(2) have "cChan cl = Some k" by auto
  from c(1,2) this c(3) show ?thesis by (rule that)
qed

lemma table_unused:
  assumes "table_inv s" "x \<notin> usedIds s"
  shows "respMap (tconn s) x = None"
proof (rule ccontr)
  assume "respMap (tconn s) x \<noteq> None"
  then obtain k where "respMap (tconn s) x = Some k" by blast
  with assms(1) obtain t cl where "callers s t = Some cl" "cId cl = x"
    by (rule table_entry)
  with assms show False by (auto simp: table_inv_def ids_fresh_def)
qed

lemma table_chan_owner:
  assumes "table_inv s" "respMap (tconn s) x = Some k" "callers s t = Some cl" "cChan cl = Some k"
  shows "cId cl = x"
proof -
  from assms(1,2) obtain t' cl' where "callers s t' = Some cl'" "cId cl' = x" "cChan cl' = Some k"
    by (rule table_entry)
  moreover from assms(1) have "chans_distinct s" by (simp add: table_inv_def)
  ultimately have "t' = t" using assms(3,4) unfolding chans_distinct_def by blast
  with assms(3) \<open>callers s t' = Some cl'\<close> \<open>cId cl' = x\<close> show ?thesis by simp
qed

lemma inv_send_start:
  assumes inv: "table_inv s" "corr_inv cd s"
    and new: "callers s t = None" and fresh: "x \<notin> usedIds s"
    and st: "Send_start cd (tconn s) x input cx = (c', cl)"
  shows "table_inv (s\<lparr>tconn := c', callers := (callers s)(t \<mapsto> cl), usedIds := insert x (usedIds s)\<rparr>)
       \<and> corr_inv cd (s\<lparr>tconn := c', callers := (callers s)(t \<mapsto> cl), usedIds := insert x (usedIds s)\<rparr>)"
    (is "table_inv ?s \<and> corr_inv cd ?s")
proof -
  from inv have f: "ids_fresh s" and d: "ids_distinct s" and sy: "table_sync s"
    and ow: "table_owned s" and cd': "chans_distinct s" and a: "chans_alloc s"
    and cr: "chan_resp cd s" and dr: "deliver_resp cd s" and rr: "return_resp cd s"
    and hi: "handle_inbound s"
    by (simp_all add: table_inv_def corr_inv_def)
  have none: "respMap (tconn s) x = None" using inv(1) fresh by (rule table_unused)
  have oldid: "\<forall>t' cl'. callers s t' = Some cl' \<longrightarrow> cId cl' \<noteq> x"
    using f fresh by (auto simp: ids_fresh_def)
  have oldne: "callers s t' = Some cl' \<Longrightarrow> t' \<noteq> t" for t' cl'
    using new by auto
  from Send_start_result [OF st] have idc: "cId cl = x" and
    cases: "(c' = tconn s \<and> cChan cl = None \<and> (\<exists>e. cPc cl = SendReturned (Inl e)))
        \<or> (cChan cl = Some (nextChan (tconn s)) \<and> (\<exists>d. cPc cl = SendEnqueue d)
           \<and> respMap c' = (respMap (tconn s))(x \<mapsto> nextChan (tconn s))
           \<and> chans c' = (chans (tconn s))(nextChan (tconn s) := [])
           \<and> nextChan c' = Suc (nextChan (tconn s)))"
    by blast+
  have "ids_fresh ?s" using f idc by (auto simp: ids_fresh_def)
  moreover have "ids_distinct ?s" using d idc oldid by (fastforce simp: ids_distinct_def)
  moreover have "handle_inbound ?s" using hi by (simp add: handle_inbound_def)
  moreover have "table_sync ?s \<and> table_owned ?s \<and> chans_distinct ?s \<and> chans_alloc ?s
                 \<and> chan_resp cd ?s \<and> deliver_resp cd ?s \<and> return_resp cd ?s"
    using cases
  proof
    assume c: "c' = tconn s \<and> cChan cl = None \<and> (\<exists>e. cPc cl = SendReturned (Inl e))"
    then have ina: "\<not> active cl" by (auto simp: active_def)
    have "table_sync ?s" using sy c ina none idc by (auto simp: table_sync_def)
    moreover have "table_owned ?s" using ow c oldne unfolding table_owned_def by fastforce
    moreover have "chans_distinct ?s" using cd' c by (auto simp: chans_distinct_def)
    moreover have "chans_alloc ?s" using a c by (auto simp: chans_alloc_def)
    moreover have "chan_resp cd ?s" using cr c by (auto simp: chan_resp_def)
    moreover have "deliver_resp cd ?s" using dr c by (auto simp: deliver_resp_def)
    moreover have "return_resp cd ?s" using rr c by (auto simp: return_resp_def)
    ultimately show ?thesis by blast
  next
    let ?n = "nextChan (tconn s)"
    assume c: "cChan cl = Some ?n \<and> (\<exists>d. cPc cl = SendEnqueue d)
           \<and> respMap c' = (respMap (tconn s))(x \<mapsto> ?n) \<and> chans c' = (chans (tconn s))(?n := [])
           \<and> nextChan c' = Suc ?n"
    then have act: "active cl" by (auto simp: active_def)
    have lt: "callers s t' = Some cl' \<Longrightarrow> cChan cl' = Some k \<Longrightarrow> k < ?n" for t' cl' k
      using a by (auto simp: chans_alloc_def)
    have glt: "GDeliver k d \<in> set (gos s) \<Longrightarrow> k < ?n" for k d
      using a by (auto simp: chans_alloc_def)
    have "table_sync ?s" using sy c act idc oldid by (auto simp: table_sync_def)
    moreover have "table_owned ?s"
      using ow c act idc oldne unfolding table_owned_def by fastforce
    moreover have "chans_distinct ?s" using cd' c lt by (fastforce simp: chans_distinct_def)
    moreover have "chans_alloc ?s" using a c by (fastforce simp: chans_alloc_def)
    moreover have "chan_resp cd ?s" using cr c lt by (fastforce simp: chan_resp_def)
    moreover have "deliver_resp cd ?s" using dr c glt by (fastforce simp: deliver_resp_def)
    moreover have "return_resp cd ?s" using rr c by (auto simp: return_resp_def)
    ultimately show ?thesis by blast
  qed
  ultimately show ?thesis by (simp add: table_inv_def corr_inv_def)
qed

lemma inv_caller_update:
  assumes inv: "table_inv s" "corr_inv cd s"
    and old: "callers s t = Some cl"
    and same: "cId cl' = cId cl" "cChan cl' = cChan cl"
    and nx: "nextChan (tconn s') = nextChan (tconn s)"
    and cls: "callers s' = (callers s)(t \<mapsto> cl')"
    and fx: "usedIds s' = usedIds s" "gos s' = gos s" "inbound s' = inbound s"
    and tab: "(active cl' = active cl \<and> respMap (tconn s') = respMap (tconn s))
            \<or> (\<not> active cl' \<and> respMap (tconn s') = (respMap (tconn s))(cId cl := None))"
    and ch: "\<forall>k. set (chans (tconn s') k) \<subseteq> set (chans (tconn s) k)"
    and ret: "\<forall>r. cPc cl' = SendReturned (Inr r) \<longrightarrow>
                cPc cl = SendReturned (Inr r) \<or> (\<exists>k. cChan cl = Some k \<and> r \<in> set (chans (tconn s) k))"
  shows "table_inv s' \<and> corr_inv cd s'"
proof -
  from inv have f: "ids_fresh s" and d: "ids_distinct s" and sy: "table_sync s"
    and ow: "table_owned s" and cdi: "chans_distinct s" and a: "chans_alloc s"
    and cr: "chan_resp cd s" and dr: "deliver_resp cd s" and rr: "return_resp cd s"
    and hi: "handle_inbound s"
    by (simp_all add: table_inv_def corr_inv_def)
  have other: "\<forall>t2 cl2. callers s t2 = Some cl2 \<longrightarrow> t2 \<noteq> t \<longrightarrow> cId cl2 \<noteq> cId cl"
    using d old unfolding ids_distinct_def by blast
  have "ids_fresh s'" using f old same cls fx by (auto simp: ids_fresh_def)
  moreover have "ids_distinct s'" using d old same cls by (fastforce simp: ids_distinct_def)
  moreover have "table_sync s'"
    unfolding table_sync_def
  proof (intro allI impI)
    fix t2 cl2 assume c2: "callers s' t2 = Some cl2"
    show "if active cl2 then \<exists>k. cChan cl2 = Some k \<and> respMap (tconn s') (cId cl2) = Some k
          else respMap (tconn s') (cId cl2) = None"
    proof (cases "t2 = t")
      case True
      with c2 cls have cl2: "cl2 = cl'" by simp
      from sy old have "if active cl then \<exists>k. cChan cl = Some k \<and> respMap (tconn s) (cId cl) = Some k
                        else respMap (tconn s) (cId cl) = None"
        unfolding table_sync_def by blast
      with tab same cl2 show ?thesis by auto
    next
      case False
      with c2 cls have c2': "callers s t2 = Some cl2" by simp
      with other False have "cId cl2 \<noteq> cId cl" by blast
      moreover from sy c2' have "if active cl2 then \<exists>k. cChan cl2 = Some k \<and> respMap (tconn s) (cId cl2) = Some k
                        else respMap (tconn s) (cId cl2) = None"
        unfolding table_sync_def by blast
      ultimately show ?thesis using tab by auto
    qed
  qed
  moreover have "table_owned s'"
    unfolding table_owned_def
  proof (intro allI impI)
    fix x k assume e: "respMap (tconn s') x = Some k"
    then have e0: "respMap (tconn s) x = Some k"
      using tab by (auto split: if_splits)
    from ow e0 obtain t0 cl0 where c0: "callers s t0 = Some cl0" "cId cl0 = x" "active cl0"
      unfolding table_owned_def by blast
    show "\<exists>t cl. callers s' t = Some cl \<and> cId cl = x \<and> active cl"
    proof (cases "t0 = t")
      case True
      with c0 old have cl0: "cl0 = cl" by simp
      have act: "active cl'" using tab e c0 cl0 by auto
      show ?thesis using cls act same c0 cl0 by (intro exI [of _ t] exI [of _ cl']) auto
    next
      case False
      with c0 cls show ?thesis by auto
    qed
  qed
  moreover have "chans_distinct s'"
    using cdi old same cls unfolding chans_distinct_def by (metis fun_upd_apply option.inject)
  moreover have "chans_alloc s'"
    using a old same cls nx fx unfolding chans_alloc_def by (metis fun_upd_apply option.inject)
  moreover have "chan_resp cd s'"
    unfolding chan_resp_def
  proof (intro allI impI)
    fix t2 cl2 k r
    assume "callers s' t2 = Some cl2" "cChan cl2 = Some k" "r \<in> set (chans (tconn s') k)"
    moreover then have "r \<in> set (chans (tconn s) k)" using ch by blast
    ultimately show "is_resp cd (inbound s') (cId cl2) r"
      using cr old same cls fx unfolding chan_resp_def by (metis fun_upd_apply option.inject)
  qed
  moreover have "deliver_resp cd s'"
    using dr old same cls fx unfolding deliver_resp_def by (metis fun_upd_apply option.inject)
  moreover have "return_resp cd s'"
    unfolding return_resp_def
  proof (intro allI impI)
    fix t2 cl2 r assume c2: "callers s' t2 = Some cl2" and pc: "cPc cl2 = SendReturned (Inr r)"
    show "is_resp cd (inbound s') (cId cl2) r"
    proof (cases "t2 = t")
      case True
      with c2 cls have cl2: "cl2 = cl'" by simp
      with ret pc have "cPc cl = SendReturned (Inr r) \<or> (\<exists>k. cChan cl = Some k \<and> r \<in> set (chans (tconn s) k))"
        by blast
      then show ?thesis
        using rr cr old cl2 same fx unfolding return_resp_def chan_resp_def by metis
    next
      case False
      with c2 cls have "callers s t2 = Some cl2" by simp
      with rr pc fx show ?thesis unfolding return_resp_def by simp
    qed
  qed
  moreover have "handle_inbound s'" using hi fx by (simp add: handle_inbound_def)
  ultimately show ?thesis by (simp add: table_inv_def corr_inv_def)
qed

lemma inv_gos_update:
  assumes inv: "table_inv s" "corr_inv cd s"
    and s': "s' = s\<lparr>gos := gs\<rparr>"
    and gd: "\<forall>k d. GDeliver k d \<in> set gs \<longrightarrow> GDeliver k d \<in> set (gos s)
              \<or> (k < nextChan (tconn s)
                 \<and> (\<forall>t cl. callers s t = Some cl \<longrightarrow> cChan cl = Some k \<longrightarrow> is_resp cd (inbound s) (cId cl) d))"
    and gh: "\<forall>b. GHandle b \<in> set gs \<longrightarrow> GHandle b \<in> set (gos s)"
  shows "table_inv s' \<and> corr_inv cd s'"
proof -
  from inv have a: "chans_alloc s" and dr: "deliver_resp cd s" and hi: "handle_inbound s"
    by (simp_all add: table_inv_def corr_inv_def)
  have a1: "callers s t = Some cl \<Longrightarrow> cChan cl = Some k \<Longrightarrow> k < nextChan (tconn s)" for t cl k
    using a unfolding chans_alloc_def by blast
  have a2: "GDeliver k d \<in> set (gos s) \<Longrightarrow> k < nextChan (tconn s)" for k d
    using a unfolding chans_alloc_def by blast
  have "chans_alloc s'"
    unfolding chans_alloc_def
  proof (intro conjI allI impI)
    fix t cl k assume "callers s' t = Some cl" "cChan cl = Some k"
    with a1 s' show "k < nextChan (tconn s')" by simp
  next
    fix k d assume "GDeliver k d \<in> set (gos s')"
    with gd [rule_format, of k d] s' have "GDeliver k d \<in> set (gos s) \<or> k < nextChan (tconn s)"
      by auto
    with a2 s' show "k < nextChan (tconn s')" by auto
  qed
  moreover have "deliver_resp cd s'"
    unfolding deliver_resp_def
  proof (intro allI impI)
    fix k d t cl assume g: "GDeliver k d \<in> set (gos s')" and c: "callers s' t = Some cl" "cChan cl = Some k"
    from g s' gd [rule_format, of k d] have
      "GDeliver k d \<in> set (gos s)
       \<or> (\<forall>t cl. callers s t = Some cl \<longrightarrow> cChan cl = Some k \<longrightarrow> is_resp cd (inbound s) (cId cl) d)"
      by auto
    with dr c s' show "is_resp cd (inbound s') (cId cl) d" unfolding deliver_resp_def by auto
  qed
  moreover have "handle_inbound s'" using hi gh s' unfolding handle_inbound_def by auto
  moreover have "ids_fresh s' \<and> ids_distinct s' \<and> table_sync s' \<and> table_owned s'
                 \<and> chans_distinct s' \<and> chan_resp cd s' \<and> return_resp cd s'"
    using inv s'
    by (simp add: table_inv_def corr_inv_def ids_fresh_def ids_distinct_def table_sync_def
                  table_owned_def chans_distinct_def chan_resp_def return_resp_def)
  ultimately show ?thesis by (simp add: table_inv_def corr_inv_def)
qed

lemma inv_go_handle:
  assumes inv: "table_inv s" "corr_inv cd s"
    and i: "i < length (gos s)" "gos s ! i = GHandle b"
  shows "table_inv (s\<lparr>gos := replace_nth i (continuation (handleReceived cd h (tconn s) b)) (gos s)\<rparr>)
       \<and> corr_inv cd (s\<lparr>gos := replace_nth i (continuation (handleReceived cd h (tconn s) b)) (gos s)\<rparr>)"
proof (rule inv_gos_update [OF inv refl])
  let ?r = "handleReceived cd h (tconn s) b"
  have sub: "set (replace_nth i (continuation ?r) (gos s)) \<subseteq> set (gos s) \<union> set (continuation ?r)"
    by (rule set_replace_nth)
  have bin: "b \<in> set (inbound s)"
    using inv(2) i nth_mem [OF i(1)] by (auto simp: corr_inv_def handle_inbound_def)
  show "\<forall>b'. GHandle b' \<in> set (replace_nth i (continuation ?r) (gos s)) \<longrightarrow> GHandle b' \<in> set (gos s)"
    using sub by (cases ?r) auto
  show "\<forall>k d. GDeliver k d \<in> set (replace_nth i (continuation ?r) (gos s)) \<longrightarrow>
          GDeliver k d \<in> set (gos s)
        \<or> (k < nextChan (tconn s)
           \<and> (\<forall>t cl. callers s t = Some cl \<longrightarrow> cChan cl = Some k \<longrightarrow> is_resp cd (inbound s) (cId cl) d))"
  proof (intro allI impI)
    fix k d assume "GDeliver k d \<in> set (replace_nth i (continuation ?r) (gos s))"
    with sub have "GDeliver k d \<in> set (gos s) \<or> ?r = DeliverTo k d"
      by (cases ?r) auto
    then show "GDeliver k d \<in> set (gos s)
        \<or> (k < nextChan (tconn s)
           \<and> (\<forall>t cl. callers s t = Some cl \<longrightarrow> cChan cl = Some k \<longrightarrow> is_resp cd (inbound s) (cId cl) d))"
    proof
      assume "?r = DeliverTo k d"
      then obtain m where m: "Decode cd b = Inr m" "msgType m = Message_RESPONSE"
        "respMap (tconn s) (msgId m) = Some k" "d = msgData m"
        by (auto dest: handleReceived_DeliverTo)
      from inv(1) m(3) obtain t0 cl0 where "callers s t0 = Some cl0" "cChan cl0 = Some k"
        by (rule table_entry)
      with inv(1) have lt: "k < nextChan (tconn s)"
        by (auto simp: table_inv_def chans_alloc_def)
      have "is_resp cd (inbound s) (cId cl) d" if "callers s t = Some cl" "cChan cl = Some k" for t cl
      proof -
        from table_chan_owner [OF inv(1) m(3) that] have "cId cl = msgId m" .
        with m bin show ?thesis by (auto simp: is_resp_def)
      qed
      with lt show ?thesis by blast
    qed blast
  qed
qed

lemma inv_go_deliver:
  assumes inv: "table_inv s" "corr_inv cd s"
    and i: "i < length (gos s)" "gos s ! i = GDeliver k d"
    and dl: "deliver (tconn s) k d = Some c'"
  shows "table_inv (s\<lparr>tconn := c', gos := replace_nth i [] (gos s)\<rparr>)
       \<and> corr_inv cd (s\<lparr>tconn := c', gos := replace_nth i [] (gos s)\<rparr>)"
    (is "table_inv ?s \<and> corr_inv cd ?s")
proof -
  from deliver_fields [OF dl] have c': "c' = (tconn s)\<lparr>chans := (chans (tconn s))(k := [d])\<rparr>" by blast
  have gin: "GDeliver k d \<in> set (gos s)" using i nth_mem [OF i(1)] by simp
  have sub: "set (replace_nth i [] (gos s)) \<subseteq> set (gos s)"
    using set_replace_nth [of i "[]" "gos s"] by simp
  from inv have cr: "chan_resp cd s" and dr: "deliver_resp cd s" and a: "chans_alloc s"
    and hi: "handle_inbound s"
    by (simp_all add: table_inv_def corr_inv_def)
  have "chan_resp cd ?s"
    unfolding chan_resp_def
  proof (intro allI impI)
    fix t cl k' r
    assume c: "callers ?s t = Some cl" "cChan cl = Some k'" "r \<in> set (chans (tconn ?s) k')"
    show "is_resp cd (inbound ?s) (cId cl) r"
    proof (cases "k' = k")
      case True
      with c c' have "r = d" by simp
      with True c gin dr show ?thesis unfolding deliver_resp_def by simp
    next
      case False
      with c c' cr show ?thesis unfolding chan_resp_def by simp
    qed
  qed
  moreover have "deliver_resp cd ?s" using dr sub unfolding deliver_resp_def by auto
  moreover have "chans_alloc ?s"
  proof -
    have a1: "callers s t = Some cl \<Longrightarrow> cChan cl = Some k \<Longrightarrow> k < nextChan (tconn s)" for t cl k
      using a unfolding chans_alloc_def by blast
    have a2: "GDeliver k d \<in> set (gos s) \<Longrightarrow> k < nextChan (tconn s)" for k d
      using a unfolding chans_alloc_def by blast
    show ?thesis using a1 a2 sub c' unfolding chans_alloc_def by auto
  qed
  moreover have "handle_inbound ?s" using hi sub unfolding handle_inbound_def by auto
  moreover have "ids_fresh ?s \<and> ids_distinct ?s \<and> table_sync ?s \<and> table_owned ?s
                 \<and> chans_distinct ?s \<and> return_resp cd ?s"
    using inv c'
    by (simp add: table_inv_def corr_inv_def ids_fresh_def ids_distinct_def table_sync_def
                  table_owned_def chans_distinct_def return_resp_def)
  ultimately show ?thesis by (simp add: table_inv_def corr_inv_def)
qed

lemma handle_in_inbound:
  "corr_inv cd s \<Longrightarrow> GHandle b \<in> set (gos s) \<Longrightarrow> b \<in> set (inbound s)"
  by (simp add: corr_inv_def handle_inbound_def)

lemma set_replace_nth_Nil: "set (replace_nth i [] xs) \<subseteq> set xs"
  using set_replace_nth [of i "[]" xs] by simp

lemma inv_init: "table_inv (tunnel_init p c i) \<and> corr_inv cd (tunnel_init p c i)"
  by (simp add: tunnel_init_def handleConn_def table_inv_def corr_inv_def ids_fresh_def
                ids_distinct_def table_sync_def table_owned_def chans_distinct_def chans_alloc_def
                chan_resp_def deliver_resp_def return_resp_def handle_inbound_def)

lemma tstep_inv [inv_intros]:
  assumes "tstep cd h s s'" "table_inv s \<and> corr_inv cd s"
  shows "table_inv s' \<and> corr_inv cd s'"
  using assms
proof (induction rule: tstep.induct)
  case (send_start s t x input cx c' cl)
  with inv_send_start [OF _ _ send_start.hyps] show ?case by blast
next
  case (send_enqueue s t cl sc c' cl')
  note r = Send_enqueue_result [OF send_enqueue.hyps(2)]
  from r have act: "active cl" by (auto simp: active_def)
  from r act have tab: "(active cl' = active cl \<and> respMap c' = respMap (tconn s))
            \<or> (\<not> active cl' \<and> respMap c' = (respMap (tconn s))(cId cl := None))"
    by (auto simp: active_def)
  show ?case
    by (rule inv_caller_update [where s = s and t = t and cl = cl and cl' = cl'])
       (use send_enqueue.prems send_enqueue.hyps(1) r tab in auto)
next
  case (send_wait s t cl wc c' cl')
  from send_wait.hyps(2) obtain k where r: "cPc cl = SendWait" "cChan cl = Some k"
    "cId cl' = cId cl" "cChan cl' = cChan cl"
    "respMap c' = (respMap (tconn s))(cId cl := None)" "nextChan c' = nextChan (tconn s)"
    "(\<exists>r rest. chans (tconn s) k = r # rest \<and> chans c' = (chans (tconn s))(k := rest)
                \<and> cPc cl' = SendReturned (Inr r))
     \<or> (chans c' = chans (tconn s) \<and> cCtxDone cl \<and> cPc cl' = SendReturned (Inl CtxErr))"
    by (rule Send_wait_result)
  have ina: "\<not> active cl'" using r(7) by (auto simp: active_def)
  have ch: "\<forall>k'. set (chans c' k') \<subseteq> set (chans (tconn s) k')"
    using r(7) by (auto split: if_splits)
  have ret: "\<forall>v. cPc cl' = SendReturned (Inr v) \<longrightarrow>
       cPc cl = SendReturned (Inr v) \<or> (\<exists>k. cChan cl = Some k \<and> v \<in> set (chans (tconn s) k))"
    using r(2,7) by auto
  show ?case
    by (rule inv_caller_update [where s = s and t = t and cl = cl and cl' = cl'])
       (use send_wait.prems send_wait.hyps(1) r ina ch ret in auto)
next
  case (ctx_expire s t cl)
  show ?case
    by (rule inv_caller_update [where s = s and t = t and cl = cl and cl' = "cl\<lparr>cCtxDone := True\<rparr>"])
       (use ctx_expire.prems ctx_expire.hyps in \<open>auto simp: active_def\<close>)
next
  case (notify x s cx input sc r c')
  note f = Notify_fields [OF notify.hyps(2)]
  show ?case
    by (rule inv_frame [where s = s]) (use notify.prems f handle_in_inbound in auto)
next
  case (read_frame s b)
  show ?case
    by (rule inv_frame [where s = s]) (use read_frame.prems handle_in_inbound in auto)
next
  case (read_error s p' c')
  note f = readLoop_teardown_fields [OF read_error.hyps(2)]
  show ?case
    by (rule inv_frame [where s = s]) (use read_error.prems f handle_in_inbound in auto)
next
  case (go_handle i s b)
  with inv_go_handle [OF _ _ go_handle.hyps] show ?case by blast
next
  case (go_reply i s d sc c')
  note f = readLoop_reply_fields [OF go_reply.hyps(3)]
  have sub: "set (replace_nth i [] (gos s)) \<subseteq> set (gos s)" by (rule set_replace_nth_Nil)
  show ?case
    by (rule inv_frame [where s = s]) (use go_reply.prems f sub handle_in_inbound in auto)
next
  case (go_deliver i s k d c')
  with inv_go_deliver [OF _ _ go_deliver.hyps] show ?case by blast
next
  case (write_step s wc ok c' fs ex)
  note f = writeLoop_step_table [OF write_step.hyps(2)]
  show ?case
    by (rule inv_frame [where s = s]) (use write_step.prems f handle_in_inbound in auto)
next
  case (close s)
  show ?case
    by (rule inv_frame [where s = s]) (use close.prems handle_in_inbound in \<open>auto simp: Close_def\<close>)
qed

lemma reach_inv: "reach cd h s \<Longrightarrow> table_inv s \<and> corr_inv cd s"
proof (induction rule: reach.induct)
  case (init p c client_id)
  show ?case by (rule inv_init)
next
  case (step s s')
  from step.hyps(2) step.IH show ?case by (rule tstep_inv)
qed

lemma reach_reg_inv: "reach cd h s \<Longrightarrow> reg_inv s"
  by (induction rule: reach.induct) (auto intro: reg_inv_init tstep_reg_inv)

end
