(* ===== verification/TunnelProps.thy ===== *)
theory TunnelProps
  imports TunnelInv
begin

definition echo_handler :: event_handler where
  "echo_handler = \<lparr>HandleRequest = (\<lambda>b. Inr b), HandleNotify = (\<lambda>b. None)\<rparr>"

definition resp_a :: message where
  "resp_a = \<lparr>msgId = ''a'', msgType = Message_RESPONSE, msgData = [7]\<rparr>"

lemma encode_resp_a_len: "length (encode_message resp_a) \<le> maxMessageSize"
  by (simp add: encode_message_def resp_a_def pb_len_field_def pb_enum_field_def
                enc_varint.simps maxMessageSize_def)

lemma tunnel_init_eq:
  "tunnel_init p c i =
     \<lparr>tpool = register p c i, self = c,
      tconn = \<lparr>clientID = i, sendCh = [], sendClosed = False, respMap = Map.empty,
               chans = (\<lambda>_. []), nextChan = 0, ctxDone = False, wsClosed = False\<rparr>,
      callers = Map.empty, gos = [], readerRunning = True, writerRunning = True, wireOut = [],
      inbound = [], usedIds = {}, enqueued = []\<rparr>"
  by (simp add: tunnel_init_def handleConn_def)

lemma trace_request_enqueued:
  "\<exists>s. reach ProtoCodec echo_handler s
      \<and> callers s = [0 \<mapsto> \<lparr>cId = ''a'', cChan = Some 0, cCtxDone = cx, cPc = SendWait\<rparr>]
      \<and> tconn s = \<lparr>clientID = ''c1'', sendCh = [encode_message \<lparr>msgId = ''a'', msgType = Message_REQUEST, msgData = [1]\<rparr>],
                   sendClosed = False, respMap = [''a'' \<mapsto> 0], chans = (\<lambda>_. []), nextChan = 1,
                   ctxDone = False, wsClosed = False\<rparr>
      \<and> gos s = [] \<and> inbound s = [] \<and> readerRunning s \<and> writerRunning s \<and> wireOut s = []
      \<and> enqueued s = [encode_message \<lparr>msgId = ''a'', msgType = Message_REQUEST, msgData = [1]\<rparr>]
      \<and> tpool s = register NewPool 1 ''c1'' \<and> self s = 1"
proof -
  let ?cd = ProtoCodec and ?h = echo_handler
  define req where "req = encode_message \<lparr>msgId = ''a'', msgType = Message_REQUEST, msgData = [1]\<rparr>"
  define s0 where "s0 = tunnel_init NewPool 1 ''c1''"
  define c1 where "c1 = (tconn s0)\<lparr>respMap := [''a'' \<mapsto> 0], chans := (chans (tconn s0))(0 := []), nextChan := 1\<rparr>"
  define cl1 where "cl1 = \<lparr>cId = ''a'', cChan = Some 0, cCtxDone = cx, cPc = SendEnqueue req\<rparr>"
  define s1 where "s1 = s0\<lparr>tconn := c1, callers := (callers s0)(0 \<mapsto> cl1), usedIds := insert ''a'' (usedIds s0)\<rparr>"
  have r1: "reach ?cd ?h s1"
    unfolding s1_def
    by (rule reach.step [OF reach.init [of _ _ NewPool 1 "''c1''", folded s0_def]],
        rule tstep.send_start [where input = "[1]" and cx = cx])
       (simp_all add: s0_def tunnel_init_eq Send_start_def ProtoCodec_def c1_def cl1_def req_def)
  define c2 where "c2 = c1\<lparr>sendCh := [req]\<rparr>"
  define cl2 where "cl2 = cl1\<lparr>cPc := SendWait\<rparr>"
  define s2 where "s2 = s1\<lparr>tconn := c2, callers := (callers s1)(0 \<mapsto> cl2),
                          enqueued := enqueued s1 @ appended (sendCh (tconn s1)) (sendCh c2)\<rparr>"
  have tc1: "tconn s1 = \<lparr>clientID = ''c1'', sendCh = [], sendClosed = False,
                   respMap = [''a'' \<mapsto> 0], chans = (\<lambda>_. []), nextChan = 1, ctxDone = False,
                   wsClosed = False\<rparr>"
    by (simp add: s1_def c1_def s0_def tunnel_init_eq fun_eq_iff)
  have e2: "Send_enqueue (tconn s1) cl1 SendCase = Some (c2, cl2)"
    unfolding tc1 cl1_def c2_def cl2_def c1_def s0_def tunnel_init_eq
    by (simp add: Send_enqueue_def safeSend_def inFlightCount_def fun_eq_iff)
  have r2: "reach ?cd ?h s2"
    unfolding s2_def
    by (rule reach.step [OF r1], rule tstep.send_enqueue [OF _ e2]) (simp add: s1_def)
  have "callers s2 = [0 \<mapsto> \<lparr>cId = ''a'', cChan = Some 0, cCtxDone = cx, cPc = SendWait\<rparr>]"
    by (simp add: s2_def s1_def s0_def tunnel_init_eq cl2_def cl1_def)
  moreover have "tconn s2 = \<lparr>clientID = ''c1'', sendCh = [req],
                   sendClosed = False, respMap = [''a'' \<mapsto> 0], chans = (\<lambda>_. []), nextChan = 1,
                   ctxDone = False, wsClosed = False\<rparr>"
    by (simp add: s2_def c2_def c1_def s0_def tunnel_init_eq fun_eq_iff)
  moreover have "gos s2 = [] \<and> inbound s2 = [] \<and> readerRunning s2 \<and> writerRunning s2 \<and> wireOut s2 = []
      \<and> enqueued s2 = [req] \<and> tpool s2 = register NewPool 1 ''c1'' \<and> self s2 = 1"
    by (simp add: s2_def s1_def s0_def tunnel_init_eq c1_def c2_def appended_def)
  ultimately show ?thesis using r2 unfolding req_def by blast
qed

lemma trace_send_answered:
  "\<exists>s cl. reach ProtoCodec echo_handler s \<and> callers s 0 = Some cl \<and> cId cl = ''a''
        \<and> cPc cl = SendReturned (Inr [7])"
proof -
  let ?cd = ProtoCodec and ?h = echo_handler
  define req where "req = encode_message \<lparr>msgId = ''a'', msgType = Message_REQUEST, msgData = [1]\<rparr>"
  define b where "b = encode_message resp_a"
  define cl2 where "cl2 = \<lparr>cId = ''a'', cChan = Some 0, cCtxDone = False, cPc = SendWait\<rparr>"
  define c2 where "c2 = \<lparr>clientID = ''c1'', sendCh = [req],
                   sendClosed = False, respMap = [''a'' \<mapsto> 0], chans = (\<lambda>_::nat. []::bytes list), nextChan = 1,
                   ctxDone = False, wsClosed = False\<rparr>"
  obtain s2 where r2: "reach ?cd ?h s2" and cs2: "callers s2 = [0 \<mapsto> cl2]" and tc2: "tconn s2 = c2"
    and g2: "gos s2 = []" and rr2: "readerRunning s2"
    using trace_request_enqueued [of False] unfolding cl2_def c2_def req_def by blast
  define s3 where "s3 = s2\<lparr>inbound := inbound s2 @ [b], gos := gos s2 @ [GHandle b]\<rparr>"
  have r3: "reach ?cd ?h s3"
    unfolding s3_def
    by (rule reach.step [OF r2], rule tstep.read_frame)
       (simp_all add: rr2 tc2 c2_def b_def encode_resp_a_len)
  have tc3: "tconn s3 = c2" by (simp add: s3_def tc2)
  have g3: "gos s3 = [GHandle b]" by (simp add: s3_def g2)
  have hr: "handleReceived ?cd ?h (tconn s3) b = DeliverTo 0 [7]"
    by (simp add: tc3 c2_def b_def handleReceived_def ProtoCodec_def decode_encode_message resp_a_def)
  define s4 where "s4 = s3\<lparr>gos := replace_nth 0 (continuation (handleReceived ?cd ?h (tconn s3) b)) (gos s3)\<rparr>"
  have r4: "reach ?cd ?h s4"
    unfolding s4_def by (rule reach.step [OF r3], rule tstep.go_handle) (simp_all add: g3)
  have g4: "gos s4 = [GDeliver 0 [7]]" by (simp add: s4_def hr g3 replace_nth_def)
  have tc4: "tconn s4 = c2" by (simp add: s4_def tc3)
  define c5 where "c5 = c2\<lparr>chans := (chans c2)(0 := [[7]])\<rparr>"
  have e5: "deliver (tconn s4) 0 [7] = Some c5"
    by (simp add: tc4 deliver_def c5_def c2_def)
  define s5 where "s5 = s4\<lparr>tconn := c5, gos := replace_nth 0 [] (gos s4)\<rparr>"
  have r5: "reach ?cd ?h s5"
    unfolding s5_def by (rule reach.step [OF r4], rule tstep.go_deliver [OF _ _ e5]) (simp_all add: g4)
  have cs5: "callers s5 0 = Some cl2"
    by (simp add: s5_def s4_def s3_def cs2)
  define cl6 where "cl6 = cl2\<lparr>cPc := SendReturned (Inr [7])\<rparr>"
  define c6 where "c6 = release (c5\<lparr>chans := (chans c5)(0 := [])\<rparr>) cl2"
  have e6: "Send_wait (tconn s5) cl2 RespReceived = Some (c6, cl6)"
    by (simp add: s5_def Send_wait_def c6_def cl6_def cl2_def c5_def c2_def)
  define s6 where "s6 = s5\<lparr>tconn := c6, callers := (callers s5)(0 \<mapsto> cl6)\<rparr>"
  have r6: "reach ?cd ?h s6"
    unfolding s6_def by (rule reach.step [OF r5], rule tstep.send_wait [OF cs5 e6])
  have "callers s6 0 = Some cl6" "cId cl6 = ''a''" "cPc cl6 = SendReturned (Inr [7])"
    by (simp_all add: s6_def cl6_def cl2_def)
  with r6 show ?thesis by blast
qed

section \<open>Properties of the tunnel connection\<close>

lemma reach_table: "reach cd h s \<Longrightarrow> table_inv s"
  using reach_inv by blast

lemma reach_corr: "reach cd h s \<Longrightarrow> corr_inv cd s"
  using reach_inv by blast

text \<open>
  C1: Correlation.  Whatever the interleaving of callers, reader goroutines, loops,
  cancellations and network failures, a \<open>Send\<close> that returns bytes returns exactly the
  payload of a RESPONSE envelope carrying its own id that arrived on the socket.
\<close>
theorem Send_correlation:
  assumes "reach cd h s" "callers s t = Some cl" "cPc cl = SendReturned (Inr r)"
  shows "\<exists>b \<in> set (inbound s). \<exists>m. Decode cd b = Inr m \<and> msgType m = Message_RESPONSE
                                  \<and> msgId m = cId cl \<and> msgData m = r"
  using reach_corr [OF assms(1)] assms(2,3)
  unfolding corr_inv_def return_resp_def is_resp_def by blast

theorem Send_correlation_witness:
  "\<exists>s cl. reach ProtoCodec echo_handler s \<and> callers s 0 = Some cl \<and> cPc cl = SendReturned (Inr [7])
     \<and> (\<exists>b \<in> set (inbound s). \<exists>m. Decode ProtoCodec b = Inr m \<and> msgType m = Message_RESPONSE
                                  \<and> msgId m = ''a'' \<and> msgData m = [7])"
proof -
  obtain s cl where "reach ProtoCodec echo_handler s" "callers s 0 = Some cl" "cId cl = ''a''"
    "cPc cl = SendReturned (Inr [7])"
    using trace_send_answered by blast
  with Send_correlation [of ProtoCodec echo_handler s 0 cl "[7]"] show ?thesis by auto
qed

text \<open>
  C2: No waiter leak.  Once a \<open>Send\<close> has returned, by a reply, its context, or the
  closed queue, the pending-response table holds no entry for its id.
\<close>
theorem no_waiter_leak:
  assumes "reach cd h s" "callers s t = Some cl" "cPc cl = SendReturned r"
  shows "SyncedMap_Get (respMap (tconn s)) (cId cl) = None"
proof -
  from reach_table [OF assms(1)] have "table_sync s" by (simp add: table_inv_def)
  with assms(2,3) show ?thesis by (auto simp: table_sync_def active_def)
qed

theorem no_waiter_leak_witness:
  "\<exists>s cl. reach ProtoCodec echo_handler s \<and> callers s 0 = Some cl \<and> cPc cl = SendReturned (Inr [7])
     \<and> SyncedMap_Get (respMap (tconn s)) ''a'' = None"
proof -
  obtain s cl where "reach ProtoCodec echo_handler s" "callers s 0 = Some cl" "cId cl = ''a''"
    "cPc cl = SendReturned (Inr [7])"
    using trace_send_answered by blast
  with no_waiter_leak [of ProtoCodec echo_handler s 0 cl "Inr [7]"] show ?thesis by auto
qed

text \<open>
  C3: At most one waiter per id.  Every entry of the pending-response table belongs to
  exactly one \<open>Send\<close> in progress: the one with that id, waiting on that channel; no
  other call has the id or the channel.
\<close>
theorem at_most_one_waiter:
  assumes "reach cd h s" "SyncedMap_Get (respMap (tconn s)) x = Some k"
  shows "\<exists>t cl. callers s t = Some cl \<and> cId cl = x \<and> cChan cl = Some k \<and> active cl
            \<and> (\<forall>t' cl'. callers s t' = Some cl' \<longrightarrow> cId cl' = x \<or> cChan cl' = Some k \<longrightarrow> t' = t)"
proof -
  have inv: "table_inv s" using assms(1) by (rule reach_table)
  from assms(2) have e: "respMap (tconn s) x = Some k" by simp
  from inv e obtain t cl where c: "callers s t = Some cl" "cId cl = x" "cChan cl = Some k" "active cl"
    by (rule table_entry)
  from inv have "ids_distinct s" "chans_distinct s" by (simp_all add: table_inv_def)
  with c have "\<forall>t' cl'. callers s t' = Some cl' \<longrightarrow> cId cl' = x \<or> cChan cl' = Some k \<longrightarrow> t' = t"
    unfolding ids_distinct_def chans_distinct_def by metis
  with c show ?thesis by blast
qed

theorem at_most_one_waiter_witness:
  "\<exists>s. reach ProtoCodec echo_handler s \<and> SyncedMap_Get (respMap (tconn s)) ''a'' = Some 0
     \<and> (\<exists>t cl. callers s t = Some cl \<and> cId cl = ''a'' \<and> cChan cl = Some 0 \<and> active cl
            \<and> (\<forall>t' cl'. callers s t' = Some cl' \<longrightarrow> cId cl' = ''a'' \<or> cChan cl' = Some 0 \<longrightarrow> t' = t))"
proof -
  obtain s where r: "reach ProtoCodec echo_handler s"
    and m: "tconn s = \<lparr>clientID = ''c1'', sendCh = [encode_message \<lparr>msgId = ''a'', msgType = Message_REQUEST, msgData = [1]\<rparr>],
                   sendClosed = False, respMap = [''a'' \<mapsto> 0], chans = (\<lambda>_. []), nextChan = 1,
                   ctxDone = False, wsClosed = False\<rparr>"
    using trace_request_enqueued [of False] by blast
  then have g: "SyncedMap_Get (respMap (tconn s)) ''a'' = Some 0" by simp
  with at_most_one_waiter [OF r g] r show ?thesis by blast
qed

text \<open>
  C9: The context is the escape hatch of \<open>Send\<close>.  A call whose context is done can always
  return, from either blocking point (a full queue or a missing reply): the scheduler
  has a step that returns \<open>ctx.Err()\<close> and removes the table entry.
\<close>
theorem Send_ctx_escape:
  assumes "reach cd h s" "callers s t = Some cl" "active cl" "cCtxDone cl"
  shows "\<exists>s' cl'. tstep cd h s s' \<and> callers s' t = Some cl' \<and> cPc cl' = SendReturned (Inl CtxErr)
                 \<and> SyncedMap_Get (respMap (tconn s')) (cId cl) = None"
proof (cases "cPc cl")
  case (SendEnqueue d)
  let ?c' = "release (tconn s) cl" and ?cl' = "cl\<lparr>cPc := SendReturned (Inl CtxErr)\<rparr>"
  have "Send_enqueue (tconn s) cl CtxDoneCase = Some (?c', ?cl')"
    using SendEnqueue assms(4) by (simp add: Send_enqueue_def safeSend_def)
  from tstep.send_enqueue [OF assms(2) this] show ?thesis
    by (intro exI conjI) (auto simp: release_def appended_def)
next
  case SendWait
  from reach_table [OF assms(1)] have "table_sync s" by (simp add: table_inv_def)
  with assms(2) have "if active cl then \<exists>k. cChan cl = Some k \<and> respMap (tconn s) (cId cl) = Some k
                      else respMap (tconn s) (cId cl) = None"
    unfolding table_sync_def by blast
  with assms(3) obtain k where k: "cChan cl = Some k" by auto
  let ?c' = "release (tconn s) cl" and ?cl' = "cl\<lparr>cPc := SendReturned (Inl CtxErr)\<rparr>"
  have "Send_wait (tconn s) cl CtxExpired = Some (?c', ?cl')"
    using SendWait k assms(4) by (simp add: Send_wait_def)
  from tstep.send_wait [OF assms(2) this] show ?thesis
    by (intro exI conjI) (auto simp: release_def)
next
  case (SendReturned r)
  with assms(3) show ?thesis by (simp add: active_def)
qed

theorem Send_ctx_escape_witness:
  "\<exists>s cl. reach ProtoCodec echo_handler s \<and> callers s 0 = Some cl \<and> active cl \<and> cCtxDone cl
     \<and> (\<exists>s' cl'. tstep ProtoCodec echo_handler s s' \<and> callers s' 0 = Some cl'
                 \<and> cPc cl' = SendReturned (Inl CtxErr) \<and> SyncedMap_Get (respMap (tconn s')) ''a'' = None)"
proof -
  obtain s where r: "reach ProtoCodec echo_handler s"
    and c: "callers s = [0 \<mapsto> \<lparr>cId = ''a'', cChan = Some 0, cCtxDone = True, cPc = SendWait\<rparr>]"
    using trace_request_enqueued [of True] by blast
  let ?cl = "\<lparr>cId = ''a'', cChan = Some 0, cCtxDone = True, cPc = SendWait\<rparr>"
  have c0: "callers s 0 = Some ?cl" using c by simp
  have a: "active ?cl" by (simp add: active_def)
  from Send_ctx_escape [OF r c0 a] r c0 a show ?thesis by fastforce
qed

text \<open>
  C10: Teardown does not wake a waiting \<open>Send\<close>.  No step takes a call blocked on its
  reply to an error other than its context's: closing the connection, losing the
  socket or closing the queue leaves it waiting until its context is done.
\<close>
theorem wait_only_ctx_error:
  assumes "tstep cd h s s'" "callers s t = Some cl" "cPc cl = SendWait"
    "callers s' t = Some cl'" "cPc cl' = SendReturned (Inl e)"
  shows "e = CtxErr \<and> cCtxDone cl"
  using assms
proof (cases rule: tstep.cases)
  case (send_start t0 x input cx c0 cl0)
  with assms(2-5) show ?thesis by (auto split: if_splits)
next
  case (send_enqueue t0 cl0 sc c0 cl0')
  with assms(2-5) show ?thesis by (auto split: if_splits dest!: Send_enqueue_result)
next
  case (send_wait t0 cl0 wc c0 cl0')
  show ?thesis
  proof (cases "t0 = t")
    case True
    with send_wait assms(2,4) have "cl0 = cl" "cl0' = cl'" by auto
    with send_wait(3) assms(5) show ?thesis by (auto elim!: Send_wait_result)
  next
    case False
    with send_wait assms(2-5) show ?thesis by auto
  qed
next
  case (ctx_expire t0 cl0)
  with assms(2-5) show ?thesis by (auto split: if_splits)
qed (use assms(2-5) in auto)

theorem wait_only_ctx_error_witness:
  "tstep ProtoCodec echo_handler
     (tunnel_init NewPool 1 ''c1''\<lparr>callers := [0 \<mapsto> \<lparr>cId = ''a'', cChan = Some 0, cCtxDone = True, cPc = SendWait\<rparr>]\<rparr>)
     (tunnel_init NewPool 1 ''c1''\<lparr>callers := [0 \<mapsto> \<lparr>cId = ''a'', cChan = Some 0, cCtxDone = True,
                                                      cPc = SendReturned (Inl CtxErr)\<rparr>]\<rparr>)
   \<and> CtxErr = CtxErr \<and> cCtxDone \<lparr>cId = ''a'', cChan = Some 0, cCtxDone = True, cPc = SendWait\<rparr>"
proof -
  let ?cl = "\<lparr>cId = ''a'', cChan = Some 0, cCtxDone = True, cPc = SendWait\<rparr>"
  let ?cl' = "\<lparr>cId = ''a'', cChan = Some 0, cCtxDone = True, cPc = SendReturned (Inl CtxErr)\<rparr>"
  let ?s = "tunnel_init NewPool 1 ''c1''\<lparr>callers := [0 \<mapsto> ?cl]\<rparr>"
  have w: "Send_wait (tconn ?s) ?cl CtxExpired = Some (tconn ?s, ?cl')"
    by (simp add: Send_wait_def release_def tunnel_init_eq)
  have st: "tstep ProtoCodec echo_handler ?s (?s\<lparr>tconn := tconn ?s, callers := (callers ?s)(0 \<mapsto> ?cl')\<rparr>)"
    by (rule tstep.send_wait [OF _ w]) simp
  have eq: "?s\<lparr>tconn := tconn ?s, callers := (callers ?s)(0 \<mapsto> ?cl')\<rparr>
            = tunnel_init NewPool 1 ''c1''\<lparr>callers := [0 \<mapsto> ?cl']\<rparr>"
    by simp
  from st have "tstep ProtoCodec echo_handler ?s (tunnel_init NewPool 1 ''c1''\<lparr>callers := [0 \<mapsto> ?cl']\<rparr>)"
    by (simp only: eq)
  with wait_only_ctx_error [OF this, of 0 ?cl ?cl' CtxErr] show ?thesis by simp
qed



text \<open>
  C7: Frames leave in enqueue order.  The payloads of the data frames written to the
  socket are a prefix of the sequence of envelopes put into the queue; while the writer
  runs, what was enqueued is exactly what was written followed by what is still queued
  (a failed write loses at most the one envelope it dequeued, and ends the writer).
\<close>
theorem frames_in_enqueue_order:
  assumes "reach cd h s"
  shows "(\<exists>rest. enqueued s = data_frames (wireOut s) @ rest)
       \<and> (writerRunning s \<longrightarrow> enqueued s = data_frames (wireOut s) @ sendCh (tconn s))"
  using reach_queue_inv [OF assms] unfolding queue_inv_def by auto

theorem frames_in_enqueue_order_witness:
  "\<exists>s. reach ProtoCodec echo_handler s \<and> writerRunning s
     \<and> wireOut s = [BinaryMessage (encode_message \<lparr>msgId = ''a'', msgType = Message_REQUEST, msgData = [1]\<rparr>)]
     \<and> enqueued s = data_frames (wireOut s) @ sendCh (tconn s)"
proof -
  define req where "req = encode_message \<lparr>msgId = ''a'', msgType = Message_REQUEST, msgData = [1]\<rparr>"
  obtain s where r: "reach ProtoCodec echo_handler s"
    and m: "tconn s = \<lparr>clientID = ''c1'', sendCh = [req],
                   sendClosed = False, respMap = [''a'' \<mapsto> 0], chans = (\<lambda>_. []), nextChan = 1,
                   ctxDone = False, wsClosed = False\<rparr>"
    and w: "writerRunning s" "wireOut s = []"
    using trace_request_enqueued [of False] unfolding req_def by blast
  let ?c' = "(tconn s)\<lparr>sendCh := []\<rparr>"
  have ws: "writeLoop_step ProtoCodec (tconn s) WriteDequeue True = Some (?c', [BinaryMessage req], False)"
    by (simp add: writeLoop_step_def m frame_of_def ProtoCodec_def)
  let ?s' = "s\<lparr>tconn := ?c', wireOut := wireOut s @ [BinaryMessage req], writerRunning := \<not> False\<rparr>"
  have r': "reach ProtoCodec echo_handler ?s'"
    by (rule reach.step [OF r tstep.write_step [OF w(1) ws]])
  from frames_in_enqueue_order [OF r'] r' w show ?thesis unfolding req_def by auto
qed

text \<open>
  C8: Teardown.  A connection is in the pool exactly while its read loop runs; after the
  read loop's deferred teardown it is unregistered, its queue is closed and its socket
  is closed.
\<close>
theorem teardown_unregisters:
  assumes "reach cd h s"
  shows "(clients (tpool s) (self s) = None \<longleftrightarrow> \<not> readerRunning s)
       \<and> (\<not> readerRunning s \<longrightarrow> sendClosed (tconn s) \<and> wsClosed (tconn s))"
  using reach_reg_inv [OF assms] unfolding reg_inv_def by auto

theorem teardown_unregisters_witness:
  "\<exists>s. reach ProtoCodec echo_handler s \<and> \<not> readerRunning s
     \<and> clients (tpool s) (self s) = None \<and> sendClosed (tconn s) \<and> wsClosed (tconn s)"
proof -
  obtain s where r: "reach ProtoCodec echo_handler s" and rr: "readerRunning s"
    using trace_request_enqueued [of False] by blast
  obtain p' c' where td: "readLoop_teardown (tpool s) (self s) (tconn s) = (p', c')"
    by (cases "readLoop_teardown (tpool s) (self s) (tconn s)") auto
  have r': "reach ProtoCodec echo_handler (s\<lparr>tpool := p', tconn := c', readerRunning := False\<rparr>)"
    by (rule reach.step [OF r tstep.read_error [OF rr td]])
  from teardown_unregisters [OF r'] r' show ?thesis by fastforce
qed



end
