(* ===== verification/Http.thy ===== *)
theory Http
  imports Message
begin

text \<open>
  The conversions between \<open>net/http\<close> values and the HTTP events of
  \<open>src/handler/convert.go\<close>, with the parts of the libraries they rely on written out:
  \<open>http.Header\<close> as a map from key to values, read and written through
  \<open>textproto.CanonicalMIMEHeaderKey\<close>; the \<open>structpb\<close> list values that carry header
  values in an event (\<open>NewValue\<close> refuses a string that is not valid UTF-8); the body of
  a server request as a stream that the deferred \<open>Close\<close> ends; and an
  \<open>http.ResponseWriter\<close> that records the status line and header when
  \<open>WriteHeader\<close> first runs.  Each \<open>range\<close> over a Go map takes its visiting order as an
  argument.
\<close>

section \<open>Protobuf struct values\<close>

text \<open>\<open>structpb.Value\<close>; a \<open>*structpb.ListValue\<close> is \<open>None\<close> when the pointer is nil.\<close>
datatype pb_value =
    NullValue
  | NumberValue int
  | StringValue string
  | BoolValue bool
  | StructValue "(string \<times> pb_value) list"
  | ListValue "pb_value list"

type_synonym pb_list = "pb_value list option"

type_synonym header = "string \<rightharpoonup> string list"
type_synonym pb_headers = "string \<rightharpoonup> pb_list"

text \<open>Go's \<open>m[k]\<close>: the zero value (a nil slice, a nil pointer) for a missing key.\<close>
definition hdr_index :: "header \<Rightarrow> string \<Rightarrow> string list" where
  "hdr_index h k = (case h k of None \<Rightarrow> [] | Some vs \<Rightarrow> vs)"

definition pb_index :: "pb_headers \<Rightarrow> string \<Rightarrow> pb_list" where
  "pb_index m k = (case m k of None \<Rightarrow> None | Some l \<Rightarrow> l)"

section \<open>UTF-8\<close>

text \<open>A byte between two bounds (a continuation byte of an encoded rune).\<close>
definition in_range :: "nat \<Rightarrow> nat \<Rightarrow> char \<Rightarrow> bool" where
  "in_range lo hi c \<longleftrightarrow> lo \<le> of_char c \<and> of_char c \<le> hi"

text \<open>
  \<open>utf8.ValidString\<close>: the lead byte fixes the length of the rune and the range of its
  second byte (which excludes overlong forms, surrogates and runes above U+10FFFF).
  The bounds are the decimal values of 0x80, 0xBF, 0xC2, 0xDF, 0xE0, 0xA0, 0xED, 0x9F,
  0xEF, 0xF0, 0x90, 0xF4 and 0x8F.
\<close>
fun valid_utf8 :: "string \<Rightarrow> bool" where
  "valid_utf8 [] = True"
| "valid_utf8 (c # cs) =
     (if of_char c < (128::nat) then valid_utf8 cs
      else if in_range 194 223 c then
        (case cs of d # r \<Rightarrow> in_range 128 191 d \<and> valid_utf8 r | [] \<Rightarrow> False)
      else if in_range 224 239 c then
        (case cs of
           d # e # r \<Rightarrow>
             in_range (if of_char c = (224::nat) then 160 else 128)
                      (if of_char c = (237::nat) then 159 else 191) d
             \<and> in_range 128 191 e \<and> valid_utf8 r
         | _ \<Rightarrow> False)
      else if in_range 240 244 c then
        (case cs of
           d # e # f # r \<Rightarrow>
             in_range (if of_char c = (240::nat) then 144 else 128)
                      (if of_char c = (244::nat) then 143 else 191) d
             \<and> in_range 128 191 e \<and> in_range 128 191 f \<and> valid_utf8 r
         | _ \<Rightarrow> False)
      else False)"

section \<open>Header keys\<close>

text \<open>\<open>httpguts\<close>' token bytes: letters, digits and \<open>!#$%&'*+-.^_`|~\<close>.\<close>
definition token_char :: "char \<Rightarrow> bool" where
  "token_char c \<longleftrightarrow> in_range 48 57 c \<or> in_range 65 90 c \<or> in_range 97 122 c
     \<or> of_char c \<in> {33, 35, 36, 37, 38, 39, 42, 43, 45, 46, 94, 95, 96, 124, 126::nat}"

text \<open>Upper-case the first letter and every letter after a hyphen, lower-case the rest.\<close>
fun canon_loop :: "bool \<Rightarrow> string \<Rightarrow> string" where
  "canon_loop up [] = []"
| "canon_loop up (c # cs) =
     (let c' = (if up \<and> in_range 97 122 c then char_of (of_char c - (32::nat))
                else if \<not> up \<and> in_range 65 90 c then char_of (of_char c + (32::nat))
                else c)
      in c' # canon_loop (c' = CHR ''-'') cs)"

text \<open>A key with a byte that is not a token byte is left as it is.\<close>
definition CanonicalMIMEHeaderKey :: "string \<Rightarrow> string" where
  "CanonicalMIMEHeaderKey s = (if list_all token_char s then canon_loop True s else s)"

text \<open>\<open>Header.Get\<close>, \<open>Header.Add\<close>, \<open>Header.Set\<close>, \<open>Header.Del\<close>.\<close>
definition header_get :: "header \<Rightarrow> string \<Rightarrow> string" where
  "header_get h k = (case h (CanonicalMIMEHeaderKey k) of Some (v # _) \<Rightarrow> v | _ \<Rightarrow> [])"

definition header_add :: "header \<Rightarrow> string \<Rightarrow> string \<Rightarrow> header" where
  "header_add h k v = (let k' = CanonicalMIMEHeaderKey k in h(k' \<mapsto> hdr_index h k' @ [v]))"

definition header_set :: "header \<Rightarrow> string \<Rightarrow> string \<Rightarrow> header" where
  "header_set h k v = h(CanonicalMIMEHeaderKey k \<mapsto> [v])"

definition header_del :: "header \<Rightarrow> string \<Rightarrow> header" where
  "header_del h k = h(CanonicalMIMEHeaderKey k := None)"

section \<open>Header conversion\<close>

text \<open>\<open>structpb.NewList\<close> of strings: \<open>NewValue\<close> of each, the first failure returned.\<close>
fun new_list :: "string list \<Rightarrow> pb_value list result" where
  "new_list [] = Inr []"
| "new_list (s # ss) =
     (if valid_utf8 s
      then (case new_list ss of Inl e \<Rightarrow> Inl e | Inr vs \<Rightarrow> Inr (StringValue s # vs))
      else Inl (CodecErr (''invalid UTF-8 in string '' @ s)))"

definition toListString :: "string list \<Rightarrow> pb_list result" where
  "toListString vs = (case new_list vs of Inl e \<Rightarrow> Inl e | Inr l \<Rightarrow> Inr (Some l))"

text \<open>The loop of \<open>fromListString\<close>: append each value that is a string, fail on any other.\<close>
fun from_list_loop :: "pb_value list \<Rightarrow> string list \<Rightarrow> string list result" where
  "from_list_loop [] acc = Inr acc"
| "from_list_loop (v # vs) acc =
     (case v of
        StringValue s \<Rightarrow> from_list_loop vs (acc @ [s])
      | _ \<Rightarrow> Inl (GoErr ''header value not a string''))"

definition fromListString :: "pb_list \<Rightarrow> string list result" where
  "fromListString vs = (case vs of None \<Rightarrow> Inr [] | Some l \<Rightarrow> from_list_loop l [])"

text \<open>\<open>toHeaders\<close>: \<open>headers[k], err = toListString(vs)\<close> for each key in range order.\<close>
fun to_headers_loop :: "header \<Rightarrow> string list \<Rightarrow> pb_headers \<Rightarrow> pb_headers result" where
  "to_headers_loop hs [] acc = Inr acc"
| "to_headers_loop hs (k # ks) acc =
     (case toListString (hdr_index hs k) of
        Inl e \<Rightarrow> Inl e
      | Inr l \<Rightarrow> to_headers_loop hs ks (acc(k \<mapsto> l)))"

definition toHeaders :: "header \<Rightarrow> string list \<Rightarrow> pb_headers result" where
  "toHeaders hs ks = to_headers_loop hs ks Map.empty"

fun from_headers_loop :: "pb_headers \<Rightarrow> string list \<Rightarrow> header \<Rightarrow> header result" where
  "from_headers_loop hs [] acc = Inr acc"
| "from_headers_loop hs (k # ks) acc =
     (case fromListString (pb_index hs k) of
        Inl e \<Rightarrow> Inl e
      | Inr vs \<Rightarrow> from_headers_loop hs ks (acc(k \<mapsto> vs)))"

definition fromHeaders :: "pb_headers \<Rightarrow> string list \<Rightarrow> header result" where
  "fromHeaders hs ks = from_headers_loop hs ks Map.empty"

text \<open>Every header value is a valid UTF-8 string.\<close>
definition valid_header :: "header \<Rightarrow> string list \<Rightarrow> bool" where
  "valid_header hs ks \<longleftrightarrow> list_all (\<lambda>k. list_all valid_utf8 (hdr_index hs k)) ks"

section \<open>Requests and events\<close>

text \<open>
  The body of a request as \<open>io.ReadAll\<close> and \<open>Close\<close> see it: \<open>http.NoBody\<close> (a
  request without content), an open stream with its remaining bytes, a stream that fails
  after some bytes (the client went away), and a closed server body, whose reads fail
  with \<open>http.ErrBodyReadAfterClose\<close>.
\<close>
datatype body = NoBody | BodyOpen bytes | BodyFail bytes string | BodyClosed

definition read_all :: "body \<Rightarrow> bytes result" where
  "read_all b = (case b of
      NoBody \<Rightarrow> Inr []
    | BodyOpen bs \<Rightarrow> Inr bs
    | BodyFail _ m \<Rightarrow> Inl (IOErr m)
    | BodyClosed \<Rightarrow> Inl (IOErr ''http: invalid Read on closed Body''))"

definition body_close :: "body \<Rightarrow> body" where
  "body_close b = (case b of NoBody \<Rightarrow> NoBody | _ \<Rightarrow> BodyClosed)"

text \<open>The fields of \<open>http.Request\<close> the conversions read or write.\<close>
record http_request =
  reqMethod :: string
  urlPath :: string
  urlRawPath :: string
  urlRawQuery :: string
  reqHeader :: header
  reqBody :: body

text \<open>\<open>message.EventHTTPRequest\<close> and \<open>message.EventHTTPResponse\<close>.\<close>
record event_http_request =
  evMethod :: string
  evRawPath :: string
  evRawQuery :: string
  evHeaders :: pb_headers
  evBody :: bytes

record event_http_response =
  evStatusCode :: "32 word"
  evRespHeaders :: pb_headers
  evRespBody :: bytes

text \<open>The response an \<open>httptest.ResponseRecorder\<close> hands to \<open>fromHttpResponse\<close>.\<close>
record http_response =
  respStatus :: int
  respHeader :: header
  respBody :: bytes

text \<open>
  \<open>fromHttpRequest\<close>: read the whole body (the deferred \<open>Close\<close> ends it whatever
  happens), take \<open>RawPath\<close> or else \<open>Path\<close>, convert the header.  The request is
  returned with its body closed.
\<close>
definition fromHttpRequest ::
  "http_request \<Rightarrow> string list \<Rightarrow> http_request \<times> event_http_request result" where
  "fromHttpRequest r ks =
     (r\<lparr>reqBody := body_close (reqBody r)\<rparr>,
      case read_all (reqBody r) of
        Inl e \<Rightarrow> Inl e
      | Inr b \<Rightarrow>
          (let rawPath = (if urlRawPath r = [] then urlPath r else urlRawPath r) in
           case toHeaders (reqHeader r) ks of
             Inl e \<Rightarrow> Inl e
           | Inr hs \<Rightarrow> Inr \<lparr>evMethod = reqMethod r, evRawPath = rawPath,
                              evRawQuery = urlRawQuery r, evHeaders = hs, evBody = b\<rparr>))"

text \<open>\<open>http.NewRequest\<close> accepts the empty method (as GET) and any token.\<close>
definition valid_method :: "string \<Rightarrow> bool" where
  "valid_method m \<longleftrightarrow> list_all token_char m"

text \<open>
  \<open>toHttpRequest\<close>: the event's raw path becomes \<open>URL.Path\<close>; \<open>u.String()\<close> escapes it
  and \<open>NewRequest\<close> parses it back to the same \<open>Path\<close> with no \<open>RawPath\<close>.  A
  \<open>bytes.Reader\<close> body of length 0 becomes \<open>http.NoBody\<close>.  The header is the converted
  event header, its keys as they are.
\<close>
definition toHttpRequest :: "event_http_request \<Rightarrow> string list \<Rightarrow> http_request result" where
  "toHttpRequest ev ks =
     (if \<not> valid_method (evMethod ev) then Inl (GoErr ''net/http: invalid method'')
      else case fromHeaders (evHeaders ev) ks of
        Inl e \<Rightarrow> Inl e
      | Inr h \<Rightarrow> Inr \<lparr>reqMethod = (if evMethod ev = [] then ''GET'' else evMethod ev),
                      urlPath = evRawPath ev, urlRawPath = [], urlRawQuery = evRawQuery ev,
                      reqHeader = h,
                      reqBody = (if evBody ev = [] then NoBody else BodyOpen (evBody ev))\<rparr>)"

definition fromHttpResponse :: "http_response \<Rightarrow> string list \<Rightarrow> event_http_response result" where
  "fromHttpResponse resp ks =
     (case toHeaders (respHeader resp) ks of
        Inl e \<Rightarrow> Inl e
      | Inr h \<Rightarrow> Inr \<lparr>evStatusCode = word_of_int (respStatus resp), evRespHeaders = h,
                      evRespBody = respBody resp\<rparr>)"

definition toHttpResponse :: "event_http_response \<Rightarrow> string list \<Rightarrow> http_response result" where
  "toHttpResponse ev ks =
     (case fromHeaders (evRespHeaders ev) ks of
        Inl e \<Rightarrow> Inl e
      | Inr h \<Rightarrow> Inr \<lparr>respStatus = sint (evStatusCode ev), respHeader = h, respBody = evRespBody ev\<rparr>)"

section \<open>The response writer\<close>

text \<open>
  An \<open>http.ResponseWriter\<close> of the server: the header map handlers edit, the status
  and header sent by the first \<open>WriteHeader\<close> (later calls are superfluous and
  ignored), the body written, and whether the client connection is gone.
\<close>
record http_writer =
  wHeader :: header
  wSent :: "(int \<times> header) option"
  wBody :: bytes
  wBroken :: bool

text \<open>
  \<open>response.WriteHeader\<close>: ignored once the header is sent; a code outside 100..999
  panics; an informational 1xx code other than 101 is sent ahead and leaves the final
  status to come.
\<close>
definition WriteHeader :: "http_writer \<Rightarrow> int \<Rightarrow> http_writer result" where
  "WriteHeader w code =
     (case wSent w of
        Some _ \<Rightarrow> Inr w
      | None \<Rightarrow>
          if code < 100 \<or> 999 < code then Inl (Panic ''invalid WriteHeader code'')
          else if 100 \<le> code \<and> code \<le> 199 \<and> code \<noteq> 101 then Inr w
          else Inr (w\<lparr>wSent := Some (code, wHeader w)\<rparr>))"

text \<open>
  \<open>io.Copy(w, bytes.NewReader(b))\<close>: nothing for an empty body; otherwise \<open>Write\<close>, which
  sends a 200 header first if none was sent and fails on a broken connection.
\<close>
definition write_body :: "http_writer \<Rightarrow> bytes \<Rightarrow> http_writer \<times> go_error option" where
  "write_body w b =
     (if b = [] then (w, None)
      else (let w1 = (case wSent w of None \<Rightarrow> w\<lparr>wSent := Some (200, wHeader w)\<rparr> | Some _ \<Rightarrow> w) in
            if wBroken w then (w1, Some (IOErr ''write: broken pipe''))
            else (w1\<lparr>wBody := wBody w1 @ b\<rparr>, None)))"

definition bytes_of_string :: "string \<Rightarrow> bytes" where
  "bytes_of_string s = map byte_of_char s"

text \<open>
  \<open>http.Error\<close>: drop Content-Length, set a plain-text Content-Type and nosniff, send
  the code, write the message and a newline (the write's error is dropped).  The only
  error is the panic of \<open>WriteHeader\<close>.
\<close>
definition http_error :: "http_writer \<Rightarrow> string \<Rightarrow> int \<Rightarrow> http_writer \<times> go_error option" where
  "http_error w msg code =
     (let h = header_set (header_set (header_del (wHeader w) ''Content-Length'')
                 ''Content-Type'' ''text/plain; charset=utf-8'') ''X-Content-Type-Options'' ''nosniff'';
          w1 = w\<lparr>wHeader := h\<rparr> in
      case WriteHeader w1 code of
        Inl e \<Rightarrow> (w1, Some e)
      | Inr w2 \<Rightarrow> (fst (write_body w2 (bytes_of_string (msg @ [char_of (10::nat)]))), None))"

text \<open>The loops of \<open>writeHttpResponse\<close>: \<open>w.Header().Add(key, value)\<close> for every value.\<close>
fun add_header_loop :: "header \<Rightarrow> string list \<Rightarrow> header \<Rightarrow> header" where
  "add_header_loop src [] h = h"
| "add_header_loop src (k # ks) h =
     add_header_loop src ks (foldl (\<lambda>h' v. header_add h' k v) h (hdr_index src k))"

text \<open>
  \<open>writeHttpResponse\<close>: convert the event header (in range order \<open>ks\<close>), add it to the
  writer's header (in the range order \<open>hord\<close> gives the converted map), send the
  status, copy the body.
\<close>
definition writeHttpResponse ::
  "http_writer \<Rightarrow> event_http_response \<Rightarrow> string list \<Rightarrow> (header \<Rightarrow> string list) \<Rightarrow> http_writer \<times> go_error option" where
  "writeHttpResponse w ev ks hord =
     (case fromHeaders (evRespHeaders ev) ks of
        Inl e \<Rightarrow> (w, Some e)
      | Inr header \<Rightarrow>
          (let w1 = w\<lparr>wHeader := add_header_loop header (hord header) (wHeader w)\<rparr> in
           case WriteHeader w1 (sint (evStatusCode ev)) of
             Inl e \<Rightarrow> (w1, Some e)
           | Inr w2 \<Rightarrow> write_body w2 (evRespBody ev)))"

definition new_writer :: http_writer where
  "new_writer = \<lparr>wHeader = Map.empty, wSent = None, wBody = [], wBroken = False\<rparr>"

section \<open>Header conversion lemmas\<close>

lemma new_list_ok: "list_all valid_utf8 vs \<Longrightarrow> new_list vs = Inr (map StringValue vs)"
  by (induction vs) auto

lemma new_list_err: "\<not> list_all valid_utf8 vs \<Longrightarrow> \<exists>e. new_list vs = Inl e"
  by (induction vs) (auto split: sum.splits)

lemma from_list_loop_strings: "from_list_loop (map StringValue vs) acc = Inr (acc @ vs)"
  by (induction vs arbitrary: acc) auto

lemma to_headers_loop_ok:
  "list_all (\<lambda>k. list_all valid_utf8 (hdr_index hs k)) ks \<Longrightarrow>
   to_headers_loop hs ks acc
     = Inr (\<lambda>k. if k \<in> set ks then Some (Some (map StringValue (hdr_index hs k))) else acc k)"
  by (induction ks arbitrary: acc) (auto simp: toListString_def new_list_ok)

lemma to_headers_loop_err:
  "\<not> list_all (\<lambda>k. list_all valid_utf8 (hdr_index hs k)) ks \<Longrightarrow> \<exists>e. to_headers_loop hs ks acc = Inl e"
proof (induction ks arbitrary: acc)
  case (Cons k ks)
  then show ?case
    using new_list_err [of "hdr_index hs k"]
    by (cases "list_all valid_utf8 (hdr_index hs k)")
       (auto simp: toListString_def new_list_ok split: sum.splits)
qed simp

lemma from_headers_loop_strings:
  assumes "\<forall>k \<in> set ks. hs k = Some (Some (map StringValue (f k)))"
  shows "from_headers_loop hs ks acc = Inr (\<lambda>k. if k \<in> set ks then Some (f k) else acc k)"
  using assms
  by (induction ks arbitrary: acc)
     (auto simp: fromListString_def pb_index_def from_list_loop_strings intro!: ext)

lemma headers_roundtrip:
  assumes "set ks = dom hs" "valid_header hs ks" "set ks' = set ks"
  shows "\<exists>ph. toHeaders hs ks = Inr ph \<and> dom ph = dom hs \<and> fromHeaders ph ks' = Inr hs"
proof -
  let ?ph = "\<lambda>k. if k \<in> set ks then Some (Some (map StringValue (hdr_index hs k))) else None"
  have t: "toHeaders hs ks = Inr ?ph"
    using assms(2) by (simp add: toHeaders_def valid_header_def to_headers_loop_ok)
  have "fromHeaders ?ph ks' = Inr (\<lambda>k. if k \<in> set ks' then Some (hdr_index hs k) else None)"
    unfolding fromHeaders_def using assms(3) by (subst from_headers_loop_strings) auto
  also have "(\<lambda>k. if k \<in> set ks' then Some (hdr_index hs k) else None) = hs"
    using assms(1,3) by (auto simp: hdr_index_def intro!: ext split: option.splits)
  finally show ?thesis using t assms(1) by (auto split: if_splits)
qed

lemma sint_status: "-(2^31) \<le> x \<Longrightarrow> x < 2^31 \<Longrightarrow> sint (word_of_int x :: 32 word) = x"
  by (simp add: sint_sbintrunc' signed_take_bit_int_eq_self)

lemma foldl_header_add:
  "foldl (\<lambda>h' v. header_add h' k v) h vs
     = (if vs = [] then h else h(CanonicalMIMEHeaderKey k \<mapsto> hdr_index h (CanonicalMIMEHeaderKey k) @ vs))"
  by (induction vs arbitrary: h) (auto simp: header_add_def hdr_index_def Let_def)

lemma add_header_loop_canonical:
  assumes "distinct ks" "list_all (\<lambda>k. CanonicalMIMEHeaderKey k = k) ks"
  shows "add_header_loop src ks h
           = (\<lambda>k. if k \<in> set ks \<and> hdr_index src k \<noteq> [] then Some (hdr_index h k @ hdr_index src k) else h k)"
  using assms
proof (induction ks arbitrary: h)
  case (Cons k ks)
  then show ?case by (auto simp: foldl_header_add hdr_index_def intro!: ext split: option.splits)
qed simp

lemma toHeaders_Inr:
  assumes "toHeaders hs ks = Inr ph"
  shows "valid_header hs ks
         \<and> ph = (\<lambda>k. if k \<in> set ks then Some (Some (map StringValue (hdr_index hs k))) else None)"
proof -
  have v: "valid_header hs ks"
    using assms to_headers_loop_err [of hs ks Map.empty]
    by (auto simp: toHeaders_def valid_header_def)
  with assms show ?thesis by (simp add: toHeaders_def valid_header_def to_headers_loop_ok)
qed

lemma fromHttpRequest_Inr:
  assumes "fromHttpRequest r ks = (r', Inr ev)"
  shows "read_all (reqBody r) = Inr (evBody ev) \<and> toHeaders (reqHeader r) ks = Inr (evHeaders ev)
       \<and> evMethod ev = reqMethod r \<and> evRawQuery ev = urlRawQuery r
       \<and> evRawPath ev = (if urlRawPath r = [] then urlPath r else urlRawPath r)
       \<and> r' = r\<lparr>reqBody := body_close (reqBody r)\<rparr>"
  using assms by (auto simp: fromHttpRequest_def Let_def split: sum.splits)

lemma fromHeaders_toHeaders:
  assumes "toHeaders hs ks = Inr ph" "set ks = dom hs" "set ks' = set ks"
  shows "fromHeaders ph ks' = Inr hs"
  using headers_roundtrip [OF assms(2) _ assms(3)] toHeaders_Inr [OF assms(1)] assms(1) by auto

lemma read_all_reader: "read_all (if b = [] then NoBody else BodyOpen b) = Inr b"
  by (simp add: read_all_def)

lemma request_rebuilt:
  assumes "fromHttpRequest r ks = (r', Inr ev)" "set ks = dom (reqHeader r)" "set ks' = set ks"
    "reqMethod r \<noteq> []" "valid_method (reqMethod r)"
  shows "\<exists>q. toHttpRequest ev ks' = Inr q \<and> reqMethod q = reqMethod r \<and> urlRawQuery q = urlRawQuery r
            \<and> reqHeader q = reqHeader r \<and> read_all (reqBody q) = read_all (reqBody r)
            \<and> urlPath q = (if urlRawPath r = [] then urlPath r else urlRawPath r)
            \<and> read_all (reqBody r') = (if reqBody r = NoBody then Inr [] else Inl (IOErr ''http: invalid Read on closed Body''))"
proof -
  note f = fromHttpRequest_Inr [OF assms(1)]
  have h: "fromHeaders (evHeaders ev) ks' = Inr (reqHeader r)"
    using f assms(2,3) by (blast intro: fromHeaders_toHeaders)
  show ?thesis
    using f h assms(4,5) by (auto simp: toHttpRequest_def read_all_reader body_close_def read_all_def split: body.splits)
qed

lemma response_written:
  assumes "fromHttpResponse resp ks = Inr ev" "set ks = dom (respHeader resp)"
    "distinct ks'" "set ks' = set ks" "distinct (hord (respHeader resp))" "set (hord (respHeader resp)) = set ks"
    "list_all (\<lambda>k. CanonicalMIMEHeaderKey k = k \<and> hdr_index (respHeader resp) k \<noteq> []) ks"
    "200 \<le> respStatus resp" "respStatus resp \<le> 999"
  shows "\<exists>w. writeHttpResponse new_writer ev ks' hord = (w, None)
           \<and> wSent w = Some (respStatus resp, respHeader resp) \<and> wBody w = respBody resp"
proof -
  obtain ph where th: "toHeaders (respHeader resp) ks = Inr ph"
    and ev: "ev = \<lparr>evStatusCode = word_of_int (respStatus resp), evRespHeaders = ph, evRespBody = respBody resp\<rparr>"
    using assms(1) by (auto simp: fromHttpResponse_def split: sum.splits)
  have fh: "fromHeaders ph ks' = Inr (respHeader resp)"
    using fromHeaders_toHeaders [OF th assms(2,4)] .
  have st: "sint (evStatusCode ev) = respStatus resp"
    using assms(8,9) ev by (simp add: sint_status)
  have canon: "list_all (\<lambda>k. CanonicalMIMEHeaderKey k = k) (hord (respHeader resp))"
    using assms(7) assms(6) by (simp add: list_all_iff)
  have add: "add_header_loop (respHeader resp) (hord (respHeader resp)) Map.empty = respHeader resp"
    using add_header_loop_canonical [OF assms(5) canon, of "respHeader resp" Map.empty] assms(2,6,7)
    by (auto simp: hdr_index_def list_all_iff intro!: ext split: option.splits)
  show ?thesis
    using fh st add assms(8,9) ev
    by (auto simp: writeHttpResponse_def new_writer_def WriteHeader_def write_body_def)
qed


section \<open>Properties\<close>




end
