(* ===== verification/Handler.thy ===== *)
theory Handler
  imports Http Conn "HOL-Library.List_Lexorder" "HOL-Library.Char_ord"
begin

text \<open>
  The HTTP side of both ends, \<open>src/handler/handler.go\<close> and \<open>src/handler/httpcodec.go\<close>.
  On the edge, \<open>ProxyHttpRequest\<close> turns an incoming request into a request event,
  sends it through a tunnel with \<open>Conn.Send\<close> and writes the response event it gets
  back.  On the agent, \<open>HttpRequestHandler\<close> rebuilds the request, runs the user's
  \<open>http.HandlerFunc\<close> against a recorder and encodes the recorded response;
  \<open>recoveryHandler\<close> contains the panics of the user's handler.

  The functions the code only calls are arguments: \<open>send\<close> is \<open>conn.Send\<close> under the
  deadline of the exchange (\<open>None\<close> for no deadline), \<open>parse\<close> is \<open>time.ParseDuration\<close>
  (durations in nanoseconds), \<open>hf\<close> the user's handler with the deadline of its context
  (a result \<open>Inl (Panic m)\<close> when it panics), \<open>hord\<close> and \<open>pord\<close> the range orders of
  the header maps.  The request and response event codecs are generated protobuf or
  protojson code and are fields of the codec bundle.
\<close>

section \<open>Codec bundle and options\<close>

text \<open>\<open>HttpCodec\<close>: the three codecs of a tunnel.\<close>
record http_codec =
  RequestCodec :: "event_http_request codec"
  ResponseCodec :: "event_http_response codec"
  MessageCodec :: "message codec"

text \<open>\<open>NewHttpJsonCodec\<close>: \<open>ws.NewJsonCodec\<close> for the two events and the envelope.\<close>
definition NewHttpJsonCodec ::
  "(event_http_request \<Rightarrow> bytes result) \<Rightarrow> (bytes \<Rightarrow> event_http_request result) \<Rightarrow>
   (event_http_response \<Rightarrow> bytes result) \<Rightarrow> (bytes \<Rightarrow> event_http_response result) \<Rightarrow>
   (message \<Rightarrow> bytes result) \<Rightarrow> (bytes \<Rightarrow> message result) \<Rightarrow> http_codec" where
  "NewHttpJsonCodec mq uq mr ur mm um =
     \<lparr>RequestCodec = JsonCodec mq uq, ResponseCodec = JsonCodec mr ur, MessageCodec = JsonCodec mm um\<rparr>"

text \<open>\<open>NewHttpProtoCodec\<close>: \<open>ws.NewProtoCodec\<close> for the two events and the envelope.\<close>
definition NewHttpProtoCodec ::
  "(event_http_request \<Rightarrow> bytes result) \<Rightarrow> (bytes \<Rightarrow> event_http_request result) \<Rightarrow>
   (event_http_response \<Rightarrow> bytes result) \<Rightarrow> (bytes \<Rightarrow> event_http_response result) \<Rightarrow> http_codec" where
  "NewHttpProtoCodec mq uq mr ur =
     \<lparr>RequestCodec = ProtoCodecOf mq uq, ResponseCodec = ProtoCodecOf mr ur, MessageCodec = ProtoCodec\<rparr>"

definition HeaderRequestTimeout :: string where
  "HeaderRequestTimeout = ''x-backstream-request-timeout''"

text \<open>\<open>3 * time.Second\<close> in nanoseconds.\<close>
definition DefaultRequestTimeout :: int where
  "DefaultRequestTimeout = 3 * 1000000000"

text \<open>\<open>proxyHandler\<close> with its options.\<close>
record proxy_handler =
  phCodec :: http_codec
  phDefaultRequestTimeout :: int

datatype proxy_handler_option = WithProxyDefaultRequestTimeout int

definition NewProxyHandler :: "http_codec \<Rightarrow> proxy_handler_option list \<Rightarrow> proxy_handler" where
  "NewProxyHandler hc opts =
     foldl (\<lambda>h opt. case opt of WithProxyDefaultRequestTimeout t \<Rightarrow> h\<lparr>phDefaultRequestTimeout := t\<rparr>)
       \<lparr>phCodec = hc, phDefaultRequestTimeout = DefaultRequestTimeout\<rparr> opts"

text \<open>The edge does not serve requests or notifications its agents send.\<close>
definition proxy_event_handler :: event_handler where
  "proxy_event_handler =
     \<lparr>HandleRequest = (\<lambda>_. Inl (GoErr ''proxy request is not implemented'')),
      HandleNotify = (\<lambda>_. Some (GoErr ''proxy notification is not implemented''))\<rparr>"

section \<open>Request timeout\<close>

text \<open>\<open>GetRequestTimeout\<close>: the header's duration if the header is set, else the default.\<close>
definition GetRequestTimeout :: "(string \<Rightarrow> int result) \<Rightarrow> http_request \<Rightarrow> int \<Rightarrow> int result" where
  "GetRequestTimeout parse r dflt =
     (let rt = header_get (reqHeader r) HeaderRequestTimeout in
      if rt \<noteq> [] then (case parse rt of Inl e \<Rightarrow> Inl e | Inr d \<Rightarrow> Inr d) else Inr dflt)"

text \<open>\<open>if requestTimeout > 0 { ctx, cancel = context.WithTimeout(ctx, requestTimeout) }\<close>.\<close>
definition request_deadline :: "int \<Rightarrow> int option" where
  "request_deadline t = (if 0 < t then Some t else None)"

text \<open>A codec decodes its own encoding of \<open>x\<close> back to \<open>x\<close>.\<close>
definition roundtrips :: "'a codec \<Rightarrow> 'a \<Rightarrow> bool" where
  "roundtrips c x \<longleftrightarrow> (case Encode c x of Inl _ \<Rightarrow> False | Inr b \<Rightarrow> Decode c b = Inr x)"

section \<open>Edge: proxying a request\<close>

text \<open>
  What one \<open>ProxyHttpRequest\<close> leaves behind: the request (its body now closed), the
  response writer, the \<open>Send\<close> calls it made (deadline and encoded event) and its error.
\<close>
record attempt =
  aReq :: http_request
  aW :: http_writer
  aSent :: "(int option \<times> bytes) list"
  aErr :: "go_error option"

definition ProxyHttpRequest ::
  "(int option \<Rightarrow> bytes \<Rightarrow> bytes result) \<Rightarrow> http_writer \<Rightarrow> http_request \<Rightarrow> http_codec \<Rightarrow>
   (string \<Rightarrow> int result) \<Rightarrow> int \<Rightarrow> (header \<Rightarrow> string list) \<Rightarrow> (pb_headers \<Rightarrow> string list) \<Rightarrow> attempt" where
  "ProxyHttpRequest send w r hc parse dflt hord pord =
     (case fromHttpRequest r (hord (reqHeader r)) of
        (r1, Inl e) \<Rightarrow> \<lparr>aReq = r1, aW = w, aSent = [], aErr = Some e\<rparr>
      | (r1, Inr inputEvent) \<Rightarrow>
          (case Encode (RequestCodec hc) inputEvent of
             Inl e \<Rightarrow> \<lparr>aReq = r1, aW = w, aSent = [], aErr = Some e\<rparr>
           | Inr input \<Rightarrow>
               (case GetRequestTimeout parse r dflt of
                  Inl e \<Rightarrow> \<lparr>aReq = r1, aW = w, aSent = [], aErr = Some e\<rparr>
                | Inr t \<Rightarrow>
                    (let dl = request_deadline t in
                     case send dl input of
                       Inl e \<Rightarrow> \<lparr>aReq = r1, aW = w, aSent = [(dl, input)], aErr = Some e\<rparr>
                     | Inr output \<Rightarrow>
                         (case Decode (ResponseCodec hc) output of
                            Inl e \<Rightarrow> \<lparr>aReq = r1, aW = w, aSent = [(dl, input)], aErr = Some e\<rparr>
                          | Inr outputEvent \<Rightarrow>
                              (case writeHttpResponse w outputEvent (pord (evRespHeaders outputEvent)) hord of
                                 (w', err) \<Rightarrow> \<lparr>aReq = r1, aW = w', aSent = [(dl, input)], aErr = err\<rparr>))))))"

definition ProxyRequest ::
  "proxy_handler \<Rightarrow> (int option \<Rightarrow> bytes \<Rightarrow> bytes result) \<Rightarrow> http_writer \<Rightarrow> http_request \<Rightarrow>
   (string \<Rightarrow> int result) \<Rightarrow> (header \<Rightarrow> string list) \<Rightarrow> (pb_headers \<Rightarrow> string list) \<Rightarrow> attempt" where
  "ProxyRequest ph send w r parse hord pord =
     ProxyHttpRequest send w r (phCodec ph) parse (phDefaultRequestTimeout ph) hord pord"

section \<open>Agent: serving a request\<close>

text \<open>
  \<open>recoveryHandler\<close>: a panic of the target is recovered by the deferred function, and
  the call returns the zero values, a nil slice and a nil error.
\<close>
definition recoveryHandler :: "event_handler \<Rightarrow> event_handler" where
  "recoveryHandler target =
     \<lparr>HandleRequest = (\<lambda>b. case HandleRequest target b of
                              Inl e \<Rightarrow> if is_panic e then Inr [] else Inl e
                            | Inr out \<Rightarrow> Inr out),
      HandleNotify = (\<lambda>b. case HandleNotify target b of
                            Some e \<Rightarrow> if is_panic e then None else Some e
                          | None \<Rightarrow> None)\<rparr>"

text \<open>
  \<open>HttpRequestHandler\<close>: decode the event, rebuild the request, apply the timeout, run
  the handler on a recorder, convert and encode the recorded response.
\<close>
definition HttpRequestHandler ::
  "(http_request \<Rightarrow> int option \<Rightarrow> http_response result) \<Rightarrow> bytes \<Rightarrow> http_codec \<Rightarrow>
   (string \<Rightarrow> int result) \<Rightarrow> int \<Rightarrow> (header \<Rightarrow> string list) \<Rightarrow> (pb_headers \<Rightarrow> string list) \<Rightarrow> bytes result" where
  "HttpRequestHandler hf event hc parse dflt hord pord =
     (case Decode (RequestCodec hc) event of
        Inl e \<Rightarrow> Inl e
      | Inr inputEvent \<Rightarrow>
          (case toHttpRequest inputEvent (pord (evHeaders inputEvent)) of
             Inl e \<Rightarrow> Inl e
           | Inr req \<Rightarrow>
               (case GetRequestTimeout parse req dflt of
                  Inl e \<Rightarrow> Inl e
                | Inr t \<Rightarrow>
                    (case hf req (request_deadline t) of
                       Inl e \<Rightarrow> Inl e
                     | Inr resp \<Rightarrow>
                         (case fromHttpResponse resp (hord (respHeader resp)) of
                            Inl e \<Rightarrow> Inl e
                          | Inr outputEvent \<Rightarrow> Encode (ResponseCodec hc) outputEvent)))))"

text \<open>\<open>HttpNotifyHandler\<close>: the same dispatch; the recorded response is dropped.\<close>
definition HttpNotifyHandler ::
  "(http_request \<Rightarrow> int option \<Rightarrow> http_response result) \<Rightarrow> bytes \<Rightarrow> http_codec \<Rightarrow>
   (string \<Rightarrow> int result) \<Rightarrow> int \<Rightarrow> (pb_headers \<Rightarrow> string list) \<Rightarrow> go_error option" where
  "HttpNotifyHandler hf event hc parse dflt pord =
     (case Decode (RequestCodec hc) event of
        Inl e \<Rightarrow> Some e
      | Inr inputEvent \<Rightarrow>
          (case toHttpRequest inputEvent (pord (evHeaders inputEvent)) of
             Inl e \<Rightarrow> Some e
           | Inr req \<Rightarrow>
               (case GetRequestTimeout parse req dflt of
                  Inl e \<Rightarrow> Some e
                | Inr t \<Rightarrow> (case hf req (request_deadline t) of Inl e \<Rightarrow> Some e | Inr _ \<Rightarrow> None))))"

datatype http_handler_option = WithHTTPDefaultRequestTimeout int

text \<open>\<open>NewHTTPHandler\<close>: no default timeout unless an option sets one.\<close>
definition NewHTTPHandler ::
  "(http_request \<Rightarrow> int option \<Rightarrow> http_response result) \<Rightarrow> http_codec \<Rightarrow> http_handler_option list \<Rightarrow>
   (string \<Rightarrow> int result) \<Rightarrow> (header \<Rightarrow> string list) \<Rightarrow> (pb_headers \<Rightarrow> string list) \<Rightarrow> event_handler" where
  "NewHTTPHandler hf hc opts parse hord pord =
     (let dflt = foldl (\<lambda>d opt. case opt of WithHTTPDefaultRequestTimeout t \<Rightarrow> t) 0 opts in
      \<lparr>HandleRequest = (\<lambda>event. HttpRequestHandler hf event hc parse dflt hord pord),
       HandleNotify = (\<lambda>event. HttpNotifyHandler hf event hc parse dflt pord)\<rparr>)"

section \<open>Lemmas\<close>

lemma GetRequestTimeout_same_header:
  "reqHeader q = reqHeader r \<Longrightarrow> GetRequestTimeout parse r dflt = Inr t \<Longrightarrow>
   GetRequestTimeout parse q dflt'
     = Inr (if header_get (reqHeader r) HeaderRequestTimeout = [] then dflt' else t)"
  by (auto simp: GetRequestTimeout_def Let_def split: sum.splits if_splits)

lemma roundtripsE:
  assumes "roundtrips c x"
  obtains b where "Encode c x = Inr b" "Decode c b = Inr x"
  using assms by (auto simp: roundtrips_def split: sum.splits)

lemma toHeaders_dom: "toHeaders hs ks = Inr ph \<Longrightarrow> dom ph = set ks"
  by (drule toHeaders_Inr) (auto split: if_splits)

lemma fromHttpResponse_ok:
  assumes "valid_header (respHeader resp) ks"
  shows "fromHttpResponse resp ks
           = Inr \<lparr>evStatusCode = word_of_int (respStatus resp),
                  evRespHeaders = (\<lambda>k. if k \<in> set ks then Some (Some (map StringValue (hdr_index (respHeader resp) k))) else None),
                  evRespBody = respBody resp\<rparr>"
  using assms by (simp add: fromHttpResponse_def toHeaders_def valid_header_def to_headers_loop_ok)

section \<open>Properties\<close>

text \<open>
  C23: The deadline of a proxied exchange.  Once the request is converted and encoded,
  \<open>ProxyHttpRequest\<close> calls \<open>Send\<close> exactly once, under the duration of the
  \<open>x-backstream-request-timeout\<close> header when it is set and parses, under the default
  when it is not set, and with no deadline at all when that duration is not positive;
  a header that does not parse is returned as the error and nothing is sent or written.
\<close>
theorem ProxyHttpRequest_deadline:
  assumes "fromHttpRequest r (hord (reqHeader r)) = (r1, Inr iev)" "Encode (RequestCodec hc) iev = Inr input"
  shows "aSent (ProxyHttpRequest send w r hc parse dflt hord pord)
           = (let rt = header_get (reqHeader r) HeaderRequestTimeout in
              if rt = [] then [(if 0 < dflt then Some dflt else None, input)]
              else (case parse rt of Inl e \<Rightarrow> [] | Inr d \<Rightarrow> [(if 0 < d then Some d else None, input)]))
       \<and> (case GetRequestTimeout parse r dflt of
            Inl e \<Rightarrow> aErr (ProxyHttpRequest send w r hc parse dflt hord pord) = Some e
                   \<and> aW (ProxyHttpRequest send w r hc parse dflt hord pord) = w
          | Inr _ \<Rightarrow> True)"
  using assms
  by (auto simp: ProxyHttpRequest_def GetRequestTimeout_def request_deadline_def Let_def
           split: sum.splits prod.splits)

theorem ProxyHttpRequest_deadline_witness:
  "fromHttpRequest \<lparr>reqMethod = ''GET'', urlPath = ''/x'', urlRawPath = [], urlRawQuery = [],
        reqHeader = [''X-Backstream-Request-Timeout'' \<mapsto> [''-1s'']], reqBody = NoBody\<rparr>
      [''X-Backstream-Request-Timeout'']
     = (\<lparr>reqMethod = ''GET'', urlPath = ''/x'', urlRawPath = [], urlRawQuery = [],
        reqHeader = [''X-Backstream-Request-Timeout'' \<mapsto> [''-1s'']], reqBody = NoBody\<rparr>,
        Inr \<lparr>evMethod = ''GET'', evRawPath = ''/x'', evRawQuery = [],
             evHeaders = [''X-Backstream-Request-Timeout'' \<mapsto> Some [StringValue ''-1s'']], evBody = []\<rparr>)
   \<and> aSent (ProxyHttpRequest (\<lambda>dl input. Inr []) new_writer
        \<lparr>reqMethod = ''GET'', urlPath = ''/x'', urlRawPath = [], urlRawQuery = [],
         reqHeader = [''X-Backstream-Request-Timeout'' \<mapsto> [''-1s'']], reqBody = NoBody\<rparr>
        \<lparr>RequestCodec = \<lparr>Encode = (\<lambda>ev. Inr [1]), Decode = (\<lambda>b. Inl (CodecErr [])), IsBinary = True\<rparr>,
         ResponseCodec = \<lparr>Encode = (\<lambda>ev. Inr []), Decode = (\<lambda>b. Inl (CodecErr [])), IsBinary = True\<rparr>,
         MessageCodec = ProtoCodec\<rparr>
        (\<lambda>s. Inr (- 1000000000)) DefaultRequestTimeout (\<lambda>h. [''X-Backstream-Request-Timeout'']) (\<lambda>h. []))
     = [(None, [1])]"
proof -
  let ?r = "\<lparr>reqMethod = ''GET'', urlPath = ''/x'', urlRawPath = [], urlRawQuery = [],
        reqHeader = [''X-Backstream-Request-Timeout'' \<mapsto> [''-1s'']], reqBody = NoBody\<rparr>"
  let ?iev = "\<lparr>evMethod = ''GET'', evRawPath = ''/x'', evRawQuery = [],
             evHeaders = [''X-Backstream-Request-Timeout'' \<mapsto> Some [StringValue ''-1s'']], evBody = []\<rparr>"
  let ?hc = "\<lparr>RequestCodec = \<lparr>Encode = (\<lambda>ev. Inr [1]), Decode = (\<lambda>b. Inl (CodecErr [])), IsBinary = True\<rparr>,
         ResponseCodec = \<lparr>Encode = (\<lambda>ev. Inr []), Decode = (\<lambda>b. Inl (CodecErr [])), IsBinary = True\<rparr>,
         MessageCodec = ProtoCodec\<rparr>"
  have fr: "fromHttpRequest ?r [''X-Backstream-Request-Timeout''] = (?r, Inr ?iev)"
    by (simp add: fromHttpRequest_def read_all_def body_close_def toHeaders_def toListString_def hdr_index_def)
  have hg: "header_get (reqHeader ?r) HeaderRequestTimeout = ''-1s''"
    by code_simp
  have "Encode (RequestCodec ?hc) ?iev = Inr [1]" by simp
  from ProxyHttpRequest_deadline [where hord = "\<lambda>h. [''X-Backstream-Request-Timeout'']", OF _ this, of ?r ?r]
    fr hg
  show ?thesis by (simp add: Let_def)
qed

text \<open>
  C21: A contained panic is answered at once, with nothing.  When the user's handler
  panics on a request, the recovery wrapper returns a nil payload and a nil error, so
  the agent replies immediately with a RESPONSE envelope under the request's id and
  with an empty payload, rather than leaving the request unanswered.
\<close>
theorem recovered_panic_answers_empty:
  assumes "HandleRequest h (msgData m) = Inl (Panic p)" "msgType m = Message_REQUEST"
  shows "handleReceived ProtoCodec (recoveryHandler h) c (encode_message m)
           = Response (encode_message \<lparr>msgId = msgId m, msgType = Message_RESPONSE, msgData = []\<rparr>)"
  using assms
  by (cases m) (simp add: handleReceived_def ProtoCodec_def decode_encode_message recoveryHandler_def)

theorem recovered_panic_answers_empty_witness:
  "HandleRequest \<lparr>HandleRequest = (\<lambda>b. Inl (Panic ''boom'')), HandleNotify = (\<lambda>b. None)\<rparr> [5] = Inl (Panic ''boom'')
   \<and> handleReceived ProtoCodec (recoveryHandler \<lparr>HandleRequest = (\<lambda>b. Inl (Panic ''boom'')), HandleNotify = (\<lambda>b. None)\<rparr>)
       (snd (handleConn NewPool 1 ''c1'')) (encode_message \<lparr>msgId = ''q'', msgType = Message_REQUEST, msgData = [5]\<rparr>)
     = Response (encode_message \<lparr>msgId = ''q'', msgType = Message_RESPONSE, msgData = []\<rparr>)"
  using recovered_panic_answers_empty [of "\<lparr>HandleRequest = (\<lambda>b. Inl (Panic ''boom'')), HandleNotify = (\<lambda>b. None)\<rparr>"
      "\<lparr>msgId = ''q'', msgType = Message_REQUEST, msgData = [5]\<rparr>" "''boom''" "snd (handleConn NewPool 1 ''c1'')"]
  by simp

text \<open>
  C22: An empty reply makes the edge panic.  When the agent answers with an empty payload
  and the response codec decodes it to the zero event (as \<open>proto.Unmarshal\<close> does),
  \<open>writeHttpResponse\<close> calls \<open>WriteHeader(0)\<close>, which panics: the edge's handler
  unwinds with nothing written instead of answering 502.
\<close>
theorem empty_reply_panics_edge:
  assumes "fromHttpRequest r (hord (reqHeader r)) = (r1, Inr iev)" "Encode (RequestCodec hc) iev = Inr input"
    "GetRequestTimeout parse r dflt = Inr t" "send (request_deadline t) input = Inr []"
    "Decode (ResponseCodec hc) [] = Inr \<lparr>evStatusCode = 0, evRespHeaders = Map.empty, evRespBody = []\<rparr>"
    "wSent w = None"
  shows "aErr (ProxyHttpRequest send w r hc parse dflt hord pord) = Some (Panic ''invalid WriteHeader code'')
       \<and> wSent (aW (ProxyHttpRequest send w r hc parse dflt hord pord)) = None
       \<and> wBody (aW (ProxyHttpRequest send w r hc parse dflt hord pord)) = wBody w"
proof -
  have "\<exists>h. from_headers_loop Map.empty ks acc = Inr h" for ks acc
    by (induction ks arbitrary: acc) (auto simp: fromListString_def pb_index_def)
  then have fh: "\<exists>h. fromHeaders Map.empty ks = Inr h" for ks
    by (simp add: fromHeaders_def)
  then obtain h where "fromHeaders Map.empty (pord Map.empty) = Inr h" by blast
  then show ?thesis
    using assms
    by (auto simp: ProxyHttpRequest_def writeHttpResponse_def WriteHeader_def split: sum.splits prod.splits)
qed

theorem empty_reply_panics_edge_witness:
  "aErr (ProxyHttpRequest (\<lambda>dl input. Inr []) new_writer
        \<lparr>reqMethod = ''GET'', urlPath = ''/x'', urlRawPath = [], urlRawQuery = [], reqHeader = Map.empty, reqBody = NoBody\<rparr>
        \<lparr>RequestCodec = \<lparr>Encode = (\<lambda>ev. Inr [1]), Decode = (\<lambda>b. Inl (CodecErr [])), IsBinary = True\<rparr>,
         ResponseCodec = \<lparr>Encode = (\<lambda>ev. Inr []),
                          Decode = (\<lambda>b. Inr \<lparr>evStatusCode = 0, evRespHeaders = Map.empty, evRespBody = []\<rparr>),
                          IsBinary = True\<rparr>,
         MessageCodec = ProtoCodec\<rparr>
        (\<lambda>s. Inl (ParseErr s)) DefaultRequestTimeout (\<lambda>h. []) (\<lambda>h. []))
     = Some (Panic ''invalid WriteHeader code'')"
proof -
  let ?r = "\<lparr>reqMethod = ''GET'', urlPath = ''/x'', urlRawPath = [], urlRawQuery = [], reqHeader = Map.empty, reqBody = NoBody\<rparr>"
  let ?iev = "\<lparr>evMethod = ''GET'', evRawPath = ''/x'', evRawQuery = [], evHeaders = Map.empty, evBody = []\<rparr>"
  have fr: "fromHttpRequest ?r ((\<lambda>h. []) (reqHeader ?r)) = (?r, Inr ?iev)"
    by (simp add: fromHttpRequest_def read_all_def body_close_def toHeaders_def)
  have gt: "GetRequestTimeout (\<lambda>s. Inl (ParseErr s)) ?r DefaultRequestTimeout = Inr DefaultRequestTimeout"
    by (simp add: GetRequestTimeout_def header_get_def)
  show ?thesis
    using empty_reply_panics_edge [OF fr _ gt, of _ "[1]" "\<lambda>dl input. Inr []" new_writer]
    by (simp add: new_writer_def)
qed



text \<open>
  C32: The codec bundle fixes the frame type.  Over a tunnel built with the bundle of
  \<open>NewHttpJsonCodec\<close>, the write loop sends each dequeued envelope as a text frame of
  exactly its bytes; with \<open>NewHttpProtoCodec\<close>, as a binary frame of the protobuf
  encoding.
\<close>
theorem bundle_frame_type:
  assumes "writeLoop_step (MessageCodec hc) c WriteDequeue True = Some (c', fs, ex)"
    and "\<not> wsClosed c" and "sendCh c = m # rest"
  shows "(hc = NewHttpJsonCodec mq uq mr ur mm um \<longrightarrow> fs = [TextMessage m] \<and> sendCh c' = rest)
       \<and> (hc = NewHttpProtoCodec pq vq pr vr \<longrightarrow> fs = [BinaryMessage m] \<and> sendCh c' = rest)"
  using assms
  by (auto simp: writeLoop_step_def frame_of_def NewHttpJsonCodec_def NewHttpProtoCodec_def
                 JsonCodec_def ProtoCodec_def)

theorem bundle_frame_type_witness:
  "\<exists>c' fs ex.
     writeLoop_step (MessageCodec (NewHttpJsonCodec (\<lambda>ev. Inr []) (\<lambda>b. Inl (CodecErr [])) (\<lambda>ev. Inr [])
                                    (\<lambda>b. Inl (CodecErr [])) (\<lambda>m. Inr [123, 125]) (\<lambda>b. Inl (CodecErr []))))
       (snd (handleConn NewPool 0 ''c1'')\<lparr>sendCh := [[123, 125]]\<rparr>) WriteDequeue True = Some (c', fs, ex)
     \<and> fs = [TextMessage [123, 125]] \<and> sendCh c' = []"
proof -
  let ?hc = "NewHttpJsonCodec (\<lambda>ev. Inr []) (\<lambda>b. Inl (CodecErr [])) (\<lambda>ev. Inr [])
                                 (\<lambda>b. Inl (CodecErr [])) (\<lambda>m. Inr [123, 125]) (\<lambda>b. Inl (CodecErr []))"
  let ?c = "snd (handleConn NewPool 0 ''c1'')\<lparr>sendCh := [[123, 125]]\<rparr>"
  obtain c' fs ex where st: "writeLoop_step (MessageCodec ?hc) ?c WriteDequeue True = Some (c', fs, ex)"
    by (auto simp: writeLoop_step_def handleConn_def)
  have "\<not> wsClosed ?c" "sendCh ?c = [[123, 125]] @ []" by (simp_all add: handleConn_def)
  with bundle_frame_type [OF st, where mq = "\<lambda>ev. Inr []" and uq = "\<lambda>b. Inl (CodecErr [])"
        and mr = "\<lambda>ev. Inr []" and ur = "\<lambda>b. Inl (CodecErr [])" and mm = "\<lambda>m. Inr [123, 125]"
        and um = "\<lambda>b. Inl (CodecErr [])" and m = "[123, 125]" and rest = "[]"]
  show ?thesis using st by auto
qed

end
