(* ===== verification/Serve.thy ===== *)
theory Serve
  imports Handler
begin

text \<open>
  The edge server of \<open>src/ws/serve.go\<close>: the pool of agent tunnels, the WebSocket
  endpoint that registers a tunnel under the agent's client id, and the two HTTP
  endpoints that proxy a request to a tunnel of the client id named in the request.
  \<open>send c\<close> is \<open>Send\<close> on the tunnel \<open>c\<close>; \<open>ord\<close> is the order in which the pool's
  \<open>range\<close> visits the tunnels.  A result \<open>Some (Panic m)\<close> is a handler that unwinds
  (\<open>net/http\<close> then drops the client connection); \<open>None\<close> is a handler that returned.
\<close>

section \<open>State and options\<close>

record serve =
  spool :: pool
  requireClientId :: bool
  sHandler :: proxy_handler

datatype serve_option = WithServeLogger | WithRequireClientId bool

definition HeaderClientId :: string where
  "HeaderClientId = ''x-backstream-client-id''"

text \<open>\<open>NewServe\<close>: an empty pool, the client id required unless an option says otherwise.\<close>
definition NewServe :: "proxy_handler \<Rightarrow> serve_option list \<Rightarrow> serve" where
  "NewServe ph opts =
     foldl (\<lambda>s opt. case opt of WithServeLogger \<Rightarrow> s | WithRequireClientId b \<Rightarrow> s\<lparr>requireClientId := b\<rparr>)
       \<lparr>spool = NewPool, requireClientId = True, sHandler = ph\<rparr> opts"

definition Serve_GetConnByID :: "serve \<Rightarrow> cid list \<Rightarrow> string \<Rightarrow> cid option" where
  "Serve_GetConnByID s ord i = GetConnByID (spool s) ord i"

definition Serve_GetConnsByID :: "serve \<Rightarrow> cid list \<Rightarrow> string \<Rightarrow> cid list" where
  "Serve_GetConnsByID s ord i = GetConnsByID (spool s) ord i"

section \<open>Tunnel endpoint\<close>

text \<open>
  \<open>HandleWS\<close>: refuse a missing client id when it is required (400), give up when the
  WebSocket upgrade fails (\<open>upgrader.Upgrade\<close> has answered the client), otherwise
  \<open>handleConn\<close> registers the new tunnel \<open>c\<close> in the pool.
\<close>
definition HandleWS :: "serve \<Rightarrow> http_writer \<Rightarrow> header \<Rightarrow> cid \<Rightarrow> bool \<Rightarrow> serve \<times> http_writer \<times> conn option" where
  "HandleWS s w hdr c upgrade_ok =
     (let client_id = header_get hdr HeaderClientId in
      if requireClientId s \<and> client_id = []
      then (s, fst (http_error w (''header '' @ HeaderClientId @ '' is required'') 400), None)
      else if \<not> upgrade_ok then (s, w, None)
      else (case handleConn (spool s) c client_id of (p', cn) \<Rightarrow> (s\<lparr>spool := p'\<rparr>, w, Some cn)))"

section \<open>Proxy endpoints\<close>

text \<open>The Send calls of a handler, each with the tunnel it went to.\<close>
type_synonym sends = "(cid \<times> int option \<times> bytes) list"

definition not_found_msg :: "string \<Rightarrow> string" where
  "not_found_msg client_id =
     ''connection for clientID='' @ [char_of (39::nat)] @ client_id @ [char_of (39::nat)] @ '' not found''"

text \<open>A returned error is answered 502 with its text; a panic unwinds past \<open>http.Error\<close>.\<close>
definition fail_502 :: "http_writer \<Rightarrow> go_error \<Rightarrow> http_writer \<times> go_error option" where
  "fail_502 w e = (if is_panic e then (w, Some e) else (fst (http_error w (go_error_text e) 502), None))"

definition HandleProxy ::
  "serve \<Rightarrow> http_writer \<Rightarrow> http_request \<Rightarrow> cid list \<Rightarrow> (cid \<Rightarrow> int option \<Rightarrow> bytes \<Rightarrow> bytes result) \<Rightarrow>
   (string \<Rightarrow> int result) \<Rightarrow> (header \<Rightarrow> string list) \<Rightarrow> (pb_headers \<Rightarrow> string list) \<Rightarrow>
   http_writer \<times> sends \<times> go_error option" where
  "HandleProxy s w r ord send parse hord pord =
     (let client_id = header_get (reqHeader r) HeaderClientId in
      case Serve_GetConnByID s ord client_id of
        None \<Rightarrow> (fst (http_error w (not_found_msg client_id) 422), [], None)
      | Some c \<Rightarrow>
          (let a = ProxyRequest (sHandler s) (send c) w r parse hord pord;
               sent = map (\<lambda>x. (c, x)) (aSent a) in
           case aErr a of
             None \<Rightarrow> (aW a, sent, None)
           | Some e \<Rightarrow> (case fail_502 (aW a) e of (w', p) \<Rightarrow> (w', sent, p))))"

text \<open>
  The loop of \<open>HandleProxyWithRetry\<close> over the tunnels of the client id, with the
  request (whose body each attempt reads and closes), the writer, the Send calls so far
  and the last error.  It returns on the first success; \<open>errors.Is(err,
  ErrConnectionClosed)\<close> leads to \<open>continue\<close>, and any other error falls through to
  the next iteration as well.  A panic unwinds out of the loop.
\<close>
fun retry_loop ::
  "(cid \<Rightarrow> http_request \<Rightarrow> http_writer \<Rightarrow> attempt) \<Rightarrow> cid list \<Rightarrow> http_request \<Rightarrow> http_writer \<Rightarrow>
   sends \<Rightarrow> go_error option \<Rightarrow> http_request \<times> http_writer \<times> sends \<times> go_error option" where
  "retry_loop P [] r w sent err = (r, w, sent, err)"
| "retry_loop P (c # cs) r w sent err =
     (let a = P c r w; sent' = sent @ map (\<lambda>x. (c, x)) (aSent a) in
      case aErr a of
        None \<Rightarrow> (aReq a, aW a, sent', None)
      | Some e \<Rightarrow>
          if is_panic e then (aReq a, aW a, sent', Some e)
          else if e = ErrConnectionClosed then retry_loop P cs (aReq a) (aW a) sent' (Some e)
          else retry_loop P cs (aReq a) (aW a) sent' (Some e))"

definition HandleProxyWithRetry ::
  "serve \<Rightarrow> http_writer \<Rightarrow> http_request \<Rightarrow> cid list \<Rightarrow> (cid \<Rightarrow> int option \<Rightarrow> bytes \<Rightarrow> bytes result) \<Rightarrow>
   (string \<Rightarrow> int result) \<Rightarrow> (header \<Rightarrow> string list) \<Rightarrow> (pb_headers \<Rightarrow> string list) \<Rightarrow>
   http_writer \<times> sends \<times> go_error option" where
  "HandleProxyWithRetry s w r ord send parse hord pord =
     (let client_id = header_get (reqHeader r) HeaderClientId;
          conns = Serve_GetConnsByID s ord client_id in
      if conns = [] then (fst (http_error w (not_found_msg client_id) 422), [], None)
      else
        (case retry_loop (\<lambda>c r w. ProxyRequest (sHandler s) (send c) w r parse hord pord) conns r w [] None of
           (r', w', sent, None) \<Rightarrow> (w', sent, None)
         | (r', w', sent, Some e) \<Rightarrow> (case fail_502 w' e of (w'', p) \<Rightarrow> (w'', sent, p))))"

section \<open>Lemmas\<close>

lemma ProxyHttpRequest_req:
  "aReq (ProxyHttpRequest send w r hc parse dflt hord pord) = r\<lparr>reqBody := body_close (reqBody r)\<rparr>"
  unfolding ProxyHttpRequest_def
  by (auto simp: fromHttpRequest_def Let_def split: sum.splits prod.splits)

lemma ProxyHttpRequest_closed_body:
  "reqBody r = BodyClosed \<Longrightarrow>
   ProxyHttpRequest send w r hc parse dflt hord pord
     = \<lparr>aReq = r, aW = w, aSent = [], aErr = Some (IOErr ''http: invalid Read on closed Body'')\<rparr>"
  by (simp add: ProxyHttpRequest_def fromHttpRequest_def read_all_def body_close_def)

lemma retry_loop_closed_body:
  assumes "reqBody r = BodyClosed"
  shows "retry_loop (\<lambda>c r w. ProxyRequest ph (send c) w r parse hord pord) cs r w sent err
           = (r, w, sent, if cs = [] then err else Some (IOErr ''http: invalid Read on closed Body''))"
  using assms
  by (induction cs arbitrary: err) (simp_all add: ProxyRequest_def ProxyHttpRequest_closed_body)

lemma attempt_prefix:
  assumes "aErr (ProxyHttpRequest send w r hc parse dflt hord pord) = None"
  shows "\<exists>r1 iev input t. fromHttpRequest r (hord (reqHeader r)) = (r1, Inr iev)
           \<and> Encode (RequestCodec hc) iev = Inr input \<and> GetRequestTimeout parse r dflt = Inr t"
  using assms unfolding ProxyHttpRequest_def
  by (auto split: sum.splits prod.splits)

lemma attempt_send_fails:
  assumes "fromHttpRequest r (hord (reqHeader r)) = (r1, Inr iev)" "Encode (RequestCodec hc) iev = Inr input"
    "GetRequestTimeout parse r dflt = Inr t" "send (request_deadline t) input = Inl e"
  shows "ProxyHttpRequest send w r hc parse dflt hord pord
           = \<lparr>aReq = r1, aW = w, aSent = [(request_deadline t, input)], aErr = Some e\<rparr>"
  using assms by (simp add: ProxyHttpRequest_def)

text \<open>Attempts that fail without a panic and leave request and writer as they were are skipped.\<close>
lemma retry_loop_skip:
  assumes "\<forall>c' \<in> set cs1. aReq (P c' r w) = r \<and> aW (P c' r w) = w \<and> (\<exists>e. aErr (P c' r w) = Some e \<and> \<not> is_panic e)"
  shows "\<exists>sent' err'. retry_loop P (cs1 @ rest) r w sent err = retry_loop P rest r w sent' err'
           \<and> (\<forall>y \<in> set sent'. y \<in> set sent \<or> fst y \<in> set cs1)"
  using assms
proof (induction cs1 arbitrary: sent err)
  case (Cons c cs1)
  then obtain e where e: "aErr (P c r w) = Some e" "\<not> is_panic e" "aReq (P c r w) = r" "aW (P c r w) = w" by auto
  let ?sent = "sent @ map (\<lambda>x. (c, x)) (aSent (P c r w))"
  have step: "retry_loop P ((c # cs1) @ rest) r w sent err = retry_loop P (cs1 @ rest) r w ?sent (Some e)"
    using e by (simp add: Let_def)
  from Cons.IH [of ?sent "Some e"] Cons.prems obtain sent' err' where
    ih: "retry_loop P (cs1 @ rest) r w ?sent (Some e) = retry_loop P rest r w sent' err'"
        "\<forall>y \<in> set sent'. y \<in> set ?sent \<or> fst y \<in> set cs1" by auto
  have "retry_loop P ((c # cs1) @ rest) r w sent err = retry_loop P rest r w sent' err'"
    using step ih(1) by simp
  moreover have "\<forall>y \<in> set sent'. y \<in> set sent \<or> fst y \<in> set (c # cs1)"
    using ih(2) by auto
  ultimately show ?case by blast
qed auto

lemma Serve_GetConnByID_registered:
  assumes "Serve_GetConnByID s ord i = Some c"
  shows "clients (spool s) c = Some i"
  using assms find_Some_enum by (fastforce simp: Serve_GetConnByID_def GetConnByID_find)

lemma Serve_GetConnByID_none:
  assumes "enumerates ord (clients (spool s))" "Serve_GetConnByID s ord i = None"
  shows "conns_of (spool s) i = {}"
  using assms by (auto simp: Serve_GetConnByID_def GetConnByID_find find_None_enum enumerates_def conns_of_def)

lemma hg_client: "header_get [''X-Backstream-Client-Id'' \<mapsto> [''c1'']] HeaderClientId = ''c1''"
  by code_simp
lemma hg_timeout: "header_get [''X-Backstream-Client-Id'' \<mapsto> [''c1'']] HeaderRequestTimeout = []"
  by code_simp

lemma hg_client9: "header_get [''X-Backstream-Client-Id'' \<mapsto> [''c9'']] HeaderClientId = ''c9''"
  by code_simp

lemma find_hd_filter: "find P xs = (case filter P xs of [] \<Rightarrow> None | x # _ \<Rightarrow> Some x)"
  by (induction xs) auto

lemma Serve_GetConnByID_first:
  "Serve_GetConnByID s ord i = (case Serve_GetConnsByID s ord i of [] \<Rightarrow> None | c # _ \<Rightarrow> Some c)"
  by (simp add: Serve_GetConnByID_def Serve_GetConnsByID_def pool_lookup_simps find_hd_filter)

lemma retry_loop_single:
  "retry_loop P [c] r w [] None
     = (let a = P c r w in (aReq a, aW a, map (\<lambda>x. (c, x)) (aSent a), aErr a))"
  by (simp add: Let_def split: option.splits)

section \<open>Properties\<close>

text \<open>
  C12: The retry path loses the request body.  For a request with a body, only the first
  tunnel of the client id ever receives the request: the first attempt reads and closes
  the body, so when it fails (with any error that is not a panic) every later attempt
  fails in \<open>fromHttpRequest\<close> before sending, and the client gets 502 with
  \<open>http: invalid Read on closed Body\<close>, even when a later tunnel is healthy.
\<close>
theorem retry_loses_body:
  assumes "Serve_GetConnsByID s ord (header_get (reqHeader r) HeaderClientId) = c1 # cs" "cs \<noteq> []"
    "reqBody r = BodyOpen b"
    "aErr (ProxyRequest (sHandler s) (send c1) w r parse hord pord) = Some e" "\<not> is_panic e"
  shows "HandleProxyWithRetry s w r ord send parse hord pord
           = (fst (http_error (aW (ProxyRequest (sHandler s) (send c1) w r parse hord pord))
                     ''http: invalid Read on closed Body'' 502),
              map (\<lambda>x. (c1, x)) (aSent (ProxyRequest (sHandler s) (send c1) w r parse hord pord)), None)"
proof -
  let ?P = "\<lambda>c r w. ProxyRequest (sHandler s) (send c) w r parse hord pord"
  let ?a = "?P c1 r w"
  have cl: "reqBody (aReq ?a) = BodyClosed"
    using assms(3) by (simp add: ProxyRequest_def ProxyHttpRequest_req body_close_def)
  have "retry_loop ?P (c1 # cs) r w [] None
          = (aReq ?a, aW ?a, map (\<lambda>x. (c1, x)) (aSent ?a), Some (IOErr ''http: invalid Read on closed Body''))"
    using assms(2,4,5) retry_loop_closed_body [OF cl, of "sHandler s" send parse hord pord cs "aW ?a"]
    by (simp add: Let_def)
  then show ?thesis
    using assms(1) by (simp add: HandleProxyWithRetry_def fail_502_def Let_def)
qed

theorem retry_loses_body_witness:
  "HandleProxyWithRetry
     \<lparr>spool = register (register NewPool 1 ''c1'') 2 ''c1'', requireClientId = True,
      sHandler = NewProxyHandler
        \<lparr>RequestCodec = \<lparr>Encode = (\<lambda>ev. Inr [1]), Decode = (\<lambda>b. Inl (CodecErr [])), IsBinary = True\<rparr>,
         ResponseCodec = \<lparr>Encode = (\<lambda>ev. Inr []),
                          Decode = (\<lambda>b. Inr \<lparr>evStatusCode = 200, evRespHeaders = Map.empty, evRespBody = [7]\<rparr>),
                          IsBinary = True\<rparr>,
         MessageCodec = ProtoCodec\<rparr> []\<rparr>
     new_writer
     \<lparr>reqMethod = ''POST'', urlPath = ''/x'', urlRawPath = [], urlRawQuery = [],
      reqHeader = [''X-Backstream-Client-Id'' \<mapsto> [''c1'']], reqBody = BodyOpen [1]\<rparr>
     [1, 2] (\<lambda>c dl input. if c = 1 then Inl ErrConnectionClosed else Inr [])
     (\<lambda>s. Inl (ParseErr s)) (\<lambda>h. sorted_list_of_set (dom h)) (\<lambda>h. sorted_list_of_set (dom h))
   = (fst (http_error new_writer ''http: invalid Read on closed Body'' 502), [(1, Some DefaultRequestTimeout, [1])], None)"
proof -
  let ?hc = "\<lparr>RequestCodec = \<lparr>Encode = (\<lambda>ev. Inr [1]), Decode = (\<lambda>b. Inl (CodecErr [])), IsBinary = True\<rparr>,
         ResponseCodec = \<lparr>Encode = (\<lambda>ev. Inr []),
                          Decode = (\<lambda>b. Inr \<lparr>evStatusCode = 200, evRespHeaders = Map.empty, evRespBody = [7]\<rparr>),
                          IsBinary = True\<rparr>,
         MessageCodec = ProtoCodec\<rparr>"
  let ?s = "\<lparr>spool = register (register NewPool 1 ''c1'') 2 ''c1'', requireClientId = True,
            sHandler = NewProxyHandler ?hc []\<rparr>"
  let ?r = "\<lparr>reqMethod = ''POST'', urlPath = ''/x'', urlRawPath = [], urlRawQuery = [],
      reqHeader = [''X-Backstream-Client-Id'' \<mapsto> [''c1'']], reqBody = BodyOpen [1]\<rparr>"
  let ?send = "\<lambda>c (dl::int option) (input::bytes). if c = (1::nat) then Inl ErrConnectionClosed else Inr ([]::bytes)"
  let ?ord = "\<lambda>h::header. sorted_list_of_set (dom h)"
  let ?pord = "\<lambda>h::pb_headers. sorted_list_of_set (dom h)"
  let ?iev = "\<lparr>evMethod = ''POST'', evRawPath = ''/x'', evRawQuery = [],
              evHeaders = [''X-Backstream-Client-Id'' \<mapsto> Some [StringValue ''c1'']], evBody = [1]\<rparr>"
  have conns: "Serve_GetConnsByID ?s [1, 2] (header_get (reqHeader ?r) HeaderClientId) = 1 # [2]"
    by (simp add: hg_client Serve_GetConnsByID_def GetConnsByID_def register_def NewPool_def)
  have fr: "fromHttpRequest ?r (?ord (reqHeader ?r)) = (?r\<lparr>reqBody := BodyClosed\<rparr>, Inr ?iev)"
    by (simp add: fromHttpRequest_def read_all_def body_close_def toHeaders_def toListString_def hdr_index_def)
  have gt: "GetRequestTimeout (\<lambda>s. Inl (ParseErr s)) ?r DefaultRequestTimeout = Inr DefaultRequestTimeout"
    by (simp add: GetRequestTimeout_def hg_timeout)
  have rd: "request_deadline DefaultRequestTimeout = Some DefaultRequestTimeout"
    by (simp add: request_deadline_def DefaultRequestTimeout_def)
  have a1: "ProxyRequest (sHandler ?s) (?send 1) new_writer ?r (\<lambda>s. Inl (ParseErr s)) ?ord ?pord
              = \<lparr>aReq = ?r\<lparr>reqBody := BodyClosed\<rparr>, aW = new_writer, aSent = [(Some DefaultRequestTimeout, [1])],
                 aErr = Some ErrConnectionClosed\<rparr>"
    using attempt_send_fails [where send = "?send 1" and hord = ?ord and pord = ?pord, OF fr _ gt]
    by (simp add: ProxyRequest_def NewProxyHandler_def rd)
  have e: "aErr (ProxyRequest (sHandler ?s) (?send 1) new_writer ?r (\<lambda>s. Inl (ParseErr s)) ?ord ?pord)
            = Some ErrConnectionClosed" using a1 by simp
  have ne: "[2::nat] \<noteq> []" and body: "reqBody ?r = BodyOpen [1]" and np: "\<not> is_panic ErrConnectionClosed"
    by simp_all
  from retry_loses_body [where send = ?send and hord = ?ord and pord = ?pord and w = new_writer
      and parse = "\<lambda>s. Inl (ParseErr s)", OF conns ne body e np] a1
  show ?thesis by simp
qed

text \<open>
  C13: The retry path skips every failing tunnel, not only closed ones.  For a request
  without a body, the tunnels before the first one that serves the request are skipped
  whatever error their \<open>Send\<close> returns (a timeout included, although the request may
  have been executed there), and the client gets the answer of that first healthy tunnel.
\<close>
theorem retry_skips_failed_tunnels:
  assumes "Serve_GetConnsByID s ord (header_get (reqHeader r) HeaderClientId) = cs1 @ c # cs2"
    "reqBody r = NoBody"
    "\<forall>c' \<in> set cs1. \<forall>dl input. \<exists>e. send c' dl input = Inl e \<and> \<not> is_panic e"
    "aErr (ProxyRequest (sHandler s) (send c) w r parse hord pord) = None"
  shows "\<exists>sent. HandleProxyWithRetry s w r ord send parse hord pord
                 = (aW (ProxyRequest (sHandler s) (send c) w r parse hord pord), sent, None)
             \<and> (\<forall>y \<in> set sent. fst y \<in> set cs1 \<or> fst y = c)"
proof -
  let ?P = "\<lambda>c r w. ProxyRequest (sHandler s) (send c) w r parse hord pord"
  obtain r1 iev input t where pre:
      "fromHttpRequest r (hord (reqHeader r)) = (r1, Inr iev)"
      "Encode (RequestCodec (phCodec (sHandler s))) iev = Inr input"
      "GetRequestTimeout parse r (phDefaultRequestTimeout (sHandler s)) = Inr t"
    using attempt_prefix assms(4) unfolding ProxyRequest_def by blast
  have r1: "r1 = r"
    using pre(1) assms(2) by (auto simp: fromHttpRequest_def body_close_def)
  have skip: "\<forall>c' \<in> set cs1. aReq (?P c' r w) = r \<and> aW (?P c' r w) = w
                \<and> (\<exists>e. aErr (?P c' r w) = Some e \<and> \<not> is_panic e)"
  proof
    fix c' assume "c' \<in> set cs1"
    then obtain e where e: "send c' (request_deadline t) input = Inl e" "\<not> is_panic e"
      using assms(3) by blast
    show "aReq (?P c' r w) = r \<and> aW (?P c' r w) = w \<and> (\<exists>e. aErr (?P c' r w) = Some e \<and> \<not> is_panic e)"
      using attempt_send_fails [where send = "send c'" and hord = hord, OF pre e(1)] e(2) r1
      by (simp add: ProxyRequest_def)
  qed
  obtain sent' err' where sk: "retry_loop ?P (cs1 @ c # cs2) r w [] None = retry_loop ?P (c # cs2) r w sent' err'"
      "\<forall>y \<in> set sent'. fst y \<in> set cs1"
    using retry_loop_skip [where P = ?P and r = r and w = w, OF skip, of "c # cs2" "[]" None] by auto
  let ?sent = "sent' @ map (\<lambda>x. (c, x)) (aSent (?P c r w))"
  have "retry_loop ?P (cs1 @ c # cs2) r w [] None = (aReq (?P c r w), aW (?P c r w), ?sent, None)"
    using sk(1) assms(4) by (simp add: Let_def)
  then have "HandleProxyWithRetry s w r ord send parse hord pord = (aW (?P c r w), ?sent, None)"
    using assms(1) by (simp add: HandleProxyWithRetry_def Let_def)
  moreover have "\<forall>y \<in> set ?sent. fst y \<in> set cs1 \<or> fst y = c"
    using sk(2) by auto
  ultimately show ?thesis by blast
qed

theorem retry_skips_failed_tunnels_witness:
  "\<exists>sent. HandleProxyWithRetry
     \<lparr>spool = register (register NewPool 1 ''c1'') 2 ''c1'', requireClientId = True,
      sHandler = NewProxyHandler
        \<lparr>RequestCodec = \<lparr>Encode = (\<lambda>ev. Inr [1]), Decode = (\<lambda>b. Inl (CodecErr [])), IsBinary = True\<rparr>,
         ResponseCodec = \<lparr>Encode = (\<lambda>ev. Inr []),
                          Decode = (\<lambda>b. Inr \<lparr>evStatusCode = 200, evRespHeaders = Map.empty, evRespBody = [7]\<rparr>),
                          IsBinary = True\<rparr>,
         MessageCodec = ProtoCodec\<rparr> []\<rparr>
     new_writer
     \<lparr>reqMethod = ''GET'', urlPath = ''/x'', urlRawPath = [], urlRawQuery = [],
      reqHeader = [''X-Backstream-Client-Id'' \<mapsto> [''c1'']], reqBody = NoBody\<rparr>
     [1, 2] (\<lambda>c dl input. if c = 1 then Inl CtxErr else Inr [9])
     (\<lambda>s. Inl (ParseErr s)) (\<lambda>h. sorted_list_of_set (dom h)) (\<lambda>h. sorted_list_of_set (dom h))
   = (\<lparr>wHeader = Map.empty, wSent = Some (200, Map.empty), wBody = [7], wBroken = False\<rparr>, sent, None)
   \<and> (\<forall>y \<in> set sent. fst y \<in> set [1] \<or> fst y = 2)"
proof -
  let ?hc = "\<lparr>RequestCodec = \<lparr>Encode = (\<lambda>ev. Inr [1]), Decode = (\<lambda>b. Inl (CodecErr [])), IsBinary = True\<rparr>,
         ResponseCodec = \<lparr>Encode = (\<lambda>ev. Inr []),
                          Decode = (\<lambda>b. Inr \<lparr>evStatusCode = 200, evRespHeaders = Map.empty, evRespBody = [7]\<rparr>),
                          IsBinary = True\<rparr>,
         MessageCodec = ProtoCodec\<rparr>"
  let ?s = "\<lparr>spool = register (register NewPool 1 ''c1'') 2 ''c1'', requireClientId = True,
            sHandler = NewProxyHandler ?hc []\<rparr>"
  let ?r = "\<lparr>reqMethod = ''GET'', urlPath = ''/x'', urlRawPath = [], urlRawQuery = [],
      reqHeader = [''X-Backstream-Client-Id'' \<mapsto> [''c1'']], reqBody = NoBody\<rparr>"
  let ?send = "\<lambda>c (dl::int option) (input::bytes). if c = (1::nat) then Inl CtxErr else Inr ([9]::bytes)"
  let ?ord = "\<lambda>h::header. sorted_list_of_set (dom h)"
  let ?pord = "\<lambda>h::pb_headers. sorted_list_of_set (dom h)"
  let ?iev = "\<lparr>evMethod = ''GET'', evRawPath = ''/x'', evRawQuery = [],
              evHeaders = [''X-Backstream-Client-Id'' \<mapsto> Some [StringValue ''c1'']], evBody = []\<rparr>"
  have conns: "Serve_GetConnsByID ?s [1, 2] (header_get (reqHeader ?r) HeaderClientId) = [1] @ 2 # []"
    by (simp add: hg_client Serve_GetConnsByID_def GetConnsByID_def register_def NewPool_def)
  have fr: "fromHttpRequest ?r (?ord (reqHeader ?r)) = (?r, Inr ?iev)"
    by (simp add: fromHttpRequest_def read_all_def body_close_def toHeaders_def toListString_def hdr_index_def)
  have gt: "GetRequestTimeout (\<lambda>s. Inl (ParseErr s)) ?r DefaultRequestTimeout = Inr DefaultRequestTimeout"
    by (simp add: GetRequestTimeout_def hg_timeout)
  have rd: "request_deadline DefaultRequestTimeout = Some DefaultRequestTimeout"
    by (simp add: request_deadline_def DefaultRequestTimeout_def)
  have a2: "ProxyRequest (sHandler ?s) (?send 2) new_writer ?r (\<lambda>s. Inl (ParseErr s)) ?ord ?pord
              = \<lparr>aReq = ?r, aW = \<lparr>wHeader = Map.empty, wSent = Some (200, Map.empty), wBody = [7], wBroken = False\<rparr>,
                 aSent = [(Some DefaultRequestTimeout, [1])], aErr = None\<rparr>"
    using fr by (simp add: ProxyRequest_def ProxyHttpRequest_def NewProxyHandler_def gt rd writeHttpResponse_def
                  fromHeaders_def WriteHeader_def write_body_def new_writer_def)
  have body: "reqBody ?r = NoBody" by simp
  have fails: "\<forall>c' \<in> set [1::nat]. \<forall>dl input. \<exists>e. ?send c' dl input = Inl e \<and> \<not> is_panic e" by simp
  have ok: "aErr (ProxyRequest (sHandler ?s) (?send 2) new_writer ?r (\<lambda>s. Inl (ParseErr s)) ?ord ?pord) = None"
    using a2 by simp
  from retry_skips_failed_tunnels [where send = ?send and hord = ?ord and pord = ?pord and w = new_writer
      and parse = "\<lambda>s. Inl (ParseErr s)", OF conns body fails ok] a2
  show ?thesis by simp
qed

text \<open>
  C24: \<open>HandleProxy\<close> routes by client id.  Every \<open>Send\<close> it makes goes to a tunnel
  registered under the request's client id, and when no tunnel is registered under it
  the client gets 422 and nothing is sent.
\<close>
theorem HandleProxy_routes:
  assumes "enumerates ord (clients (spool s))"
  shows "case HandleProxy s w r ord send parse hord pord of
           (w', sent, p) \<Rightarrow>
             (\<forall>y \<in> set sent. clients (spool s) (fst y) = Some (header_get (reqHeader r) HeaderClientId))
           \<and> (conns_of (spool s) (header_get (reqHeader r) HeaderClientId) = {} \<longrightarrow>
                w' = fst (http_error w (not_found_msg (header_get (reqHeader r) HeaderClientId)) 422)
                \<and> sent = [] \<and> p = None)"
proof (cases "Serve_GetConnByID s ord (header_get (reqHeader r) HeaderClientId)")
  case None
  then show ?thesis
    using Serve_GetConnByID_none [OF assms None] by (simp add: HandleProxy_def Let_def)
next
  case (Some c)
  then have "clients (spool s) c = Some (header_get (reqHeader r) HeaderClientId)"
    by (rule Serve_GetConnByID_registered)
  then show ?thesis
    using Some by (auto simp: HandleProxy_def Let_def conns_of_def split: option.splits prod.splits)
qed

theorem HandleProxy_routes_witness:
  "enumerates [1, 2] (clients (register (register NewPool 1 ''c1'') 2 ''c1''))
   \<and> HandleProxy
     \<lparr>spool = register (register NewPool 1 ''c1'') 2 ''c1'', requireClientId = True,
      sHandler = NewProxyHandler
        \<lparr>RequestCodec = \<lparr>Encode = (\<lambda>ev. Inr [1]), Decode = (\<lambda>b. Inl (CodecErr [])), IsBinary = True\<rparr>,
         ResponseCodec = \<lparr>Encode = (\<lambda>ev. Inr []), Decode = (\<lambda>b. Inl (CodecErr [])), IsBinary = True\<rparr>,
         MessageCodec = ProtoCodec\<rparr> []\<rparr>
     new_writer
     \<lparr>reqMethod = ''GET'', urlPath = ''/x'', urlRawPath = [], urlRawQuery = [],
      reqHeader = [''X-Backstream-Client-Id'' \<mapsto> [''c9'']], reqBody = NoBody\<rparr>
     [1, 2] (\<lambda>c dl input. Inr []) (\<lambda>s. Inl (ParseErr s)) (\<lambda>h. []) (\<lambda>h. [])
   = (fst (http_error new_writer (not_found_msg ''c9'') 422), [], None)"
proof -
  let ?s = "\<lparr>spool = register (register NewPool 1 ''c1'') 2 ''c1'', requireClientId = True,
      sHandler = NewProxyHandler
        \<lparr>RequestCodec = \<lparr>Encode = (\<lambda>ev. Inr [1]), Decode = (\<lambda>b. Inl (CodecErr [])), IsBinary = True\<rparr>,
         ResponseCodec = \<lparr>Encode = (\<lambda>ev. Inr []), Decode = (\<lambda>b. Inl (CodecErr [])), IsBinary = True\<rparr>,
         MessageCodec = ProtoCodec\<rparr> []\<rparr>"
  have e: "enumerates [1, 2] (clients (spool ?s))"
    by (auto simp: enumerates_def register_def NewPool_def)
  have none: "conns_of (spool ?s) ''c9'' = {}"
    by (auto simp: conns_of_def register_def NewPool_def)
  from HandleProxy_routes [where w = new_writer
      and r = "\<lparr>reqMethod = ''GET'', urlPath = ''/x'', urlRawPath = [], urlRawQuery = [],
        reqHeader = [''X-Backstream-Client-Id'' \<mapsto> [''c9'']], reqBody = NoBody\<rparr>"
      and send = "\<lambda>c dl input. Inr []" and parse = "\<lambda>s. Inl (ParseErr s)" and hord = "\<lambda>h. []"
      and pord = "\<lambda>h. []", OF e] e none
  show ?thesis by (simp add: hg_client9 split: prod.splits)
qed

text \<open>
  C25: \<open>HandleWS\<close> registers exactly the accepted tunnels.  A tunnel is created exactly
  when the upgrade succeeds and the client id is present or not required; it is then
  registered in the pool under that client id, next to the tunnels already there, and
  otherwise the pool is unchanged.
\<close>
theorem HandleWS_registers:
  "case HandleWS s w hdr c ok of
     (s', w', co) \<Rightarrow>
       (co \<noteq> None \<longleftrightarrow> ok \<and> (requireClientId s \<longrightarrow> header_get hdr HeaderClientId \<noteq> []))
     \<and> (co = None \<longrightarrow> spool s' = spool s)
     \<and> (\<forall>cn. co = Some cn \<longrightarrow>
          clients (spool s') = (clients (spool s))(c \<mapsto> header_get hdr HeaderClientId)
          \<and> clientID cn = header_get hdr HeaderClientId)"
  by (auto simp: HandleWS_def handleConn_def register_def Let_def)

theorem HandleWS_registers_witness:
  "clients (spool (fst (HandleWS (NewServe \<lparr>phCodec = \<lparr>RequestCodec = \<lparr>Encode = (\<lambda>ev. Inr []), Decode = (\<lambda>b. Inl (CodecErr [])), IsBinary = True\<rparr>,
                                   ResponseCodec = \<lparr>Encode = (\<lambda>ev. Inr []), Decode = (\<lambda>b. Inl (CodecErr [])), IsBinary = True\<rparr>,
                                   MessageCodec = ProtoCodec\<rparr>, phDefaultRequestTimeout = 0\<rparr> [])
                         new_writer [''X-Backstream-Client-Id'' \<mapsto> [''c1'']] 3 True))) 3 = Some ''c1''"
proof -
  let ?S = "NewServe \<lparr>phCodec = \<lparr>RequestCodec = \<lparr>Encode = (\<lambda>ev. Inr []), Decode = (\<lambda>b. Inl (CodecErr [])), IsBinary = True\<rparr>,
                                   ResponseCodec = \<lparr>Encode = (\<lambda>ev. Inr []), Decode = (\<lambda>b. Inl (CodecErr [])), IsBinary = True\<rparr>,
                                   MessageCodec = ProtoCodec\<rparr>, phDefaultRequestTimeout = 0\<rparr> []"
  let ?H = "[''X-Backstream-Client-Id'' \<mapsto> [''c1'']]"
  obtain s' w' co where h: "HandleWS ?S new_writer ?H 3 True = (s', w', co)"
    by (cases "HandleWS ?S new_writer ?H 3 True") auto
  have th: "(co \<noteq> None \<longleftrightarrow> True \<and> (requireClientId ?S \<longrightarrow> header_get ?H HeaderClientId \<noteq> []))
     \<and> (co = None \<longrightarrow> spool s' = spool ?S)
     \<and> (\<forall>cn. co = Some cn \<longrightarrow>
          clients (spool s') = (clients (spool ?S))(3 \<mapsto> header_get ?H HeaderClientId)
          \<and> clientID cn = header_get ?H HeaderClientId)"
    using HandleWS_registers [where s = ?S and w = new_writer and hdr = ?H and c = 3 and ok = True] h
    by simp
  then obtain cn where "co = Some cn" by (auto simp: hg_client)
  with th h show ?thesis by (simp add: hg_client)
qed

text \<open>
  C14: With one tunnel per client id, the retry path is the plain path.  When at most
  one tunnel of the pool carries the request's client id, \<open>HandleProxyWithRetry\<close>
  answers, sends and panics exactly as \<open>HandleProxy\<close>.
\<close>
theorem retry_equiv_single_tunnel:
  assumes "length (Serve_GetConnsByID s ord (header_get (reqHeader r) HeaderClientId)) \<le> 1"
  shows "HandleProxyWithRetry s w r ord send parse hord pord = HandleProxy s w r ord send parse hord pord"
proof (cases "Serve_GetConnsByID s ord (header_get (reqHeader r) HeaderClientId)")
  case Nil
  then show ?thesis
    by (simp add: HandleProxyWithRetry_def HandleProxy_def Serve_GetConnByID_first Let_def)
next
  case (Cons c cs)
  with assms have cs: "cs = []" by simp
  show ?thesis
    using Cons cs
    by (simp add: HandleProxyWithRetry_def HandleProxy_def Serve_GetConnByID_first Let_def
                  retry_loop_single split: option.splits prod.splits)
qed

theorem retry_equiv_single_tunnel_witness:
  "length (Serve_GetConnsByID
     \<lparr>spool = register NewPool 1 ''c1'', requireClientId = True,
      sHandler = NewProxyHandler
        \<lparr>RequestCodec = \<lparr>Encode = (\<lambda>ev. Inr [1]), Decode = (\<lambda>b. Inl (CodecErr [])), IsBinary = True\<rparr>,
         ResponseCodec = \<lparr>Encode = (\<lambda>ev. Inr []), Decode = (\<lambda>b. Inl (CodecErr [])), IsBinary = True\<rparr>,
         MessageCodec = ProtoCodec\<rparr> []\<rparr> [1] (header_get [''X-Backstream-Client-Id'' \<mapsto> [''c1'']] HeaderClientId)) \<le> 1
   \<and> HandleProxyWithRetry
     \<lparr>spool = register NewPool 1 ''c1'', requireClientId = True,
      sHandler = NewProxyHandler
        \<lparr>RequestCodec = \<lparr>Encode = (\<lambda>ev. Inr [1]), Decode = (\<lambda>b. Inl (CodecErr [])), IsBinary = True\<rparr>,
         ResponseCodec = \<lparr>Encode = (\<lambda>ev. Inr []), Decode = (\<lambda>b. Inl (CodecErr [])), IsBinary = True\<rparr>,
         MessageCodec = ProtoCodec\<rparr> []\<rparr>
     new_writer
     \<lparr>reqMethod = ''GET'', urlPath = ''/x'', urlRawPath = [], urlRawQuery = [],
      reqHeader = [''X-Backstream-Client-Id'' \<mapsto> [''c1'']], reqBody = NoBody\<rparr>
     [1] (\<lambda>c dl input. Inl ErrConnectionClosed) (\<lambda>s. Inl (ParseErr s)) (\<lambda>h. []) (\<lambda>h. [])
   = HandleProxy
     \<lparr>spool = register NewPool 1 ''c1'', requireClientId = True,
      sHandler = NewProxyHandler
        \<lparr>RequestCodec = \<lparr>Encode = (\<lambda>ev. Inr [1]), Decode = (\<lambda>b. Inl (CodecErr [])), IsBinary = True\<rparr>,
         ResponseCodec = \<lparr>Encode = (\<lambda>ev. Inr []), Decode = (\<lambda>b. Inl (CodecErr [])), IsBinary = True\<rparr>,
         MessageCodec = ProtoCodec\<rparr> []\<rparr>
     new_writer
     \<lparr>reqMethod = ''GET'', urlPath = ''/x'', urlRawPath = [], urlRawQuery = [],
      reqHeader = [''X-Backstream-Client-Id'' \<mapsto> [''c1'']], reqBody = NoBody\<rparr>
     [1] (\<lambda>c dl input. Inl ErrConnectionClosed) (\<lambda>s. Inl (ParseErr s)) (\<lambda>h. []) (\<lambda>h. [])"
proof -
  let ?s = "\<lparr>spool = register NewPool 1 ''c1'', requireClientId = True,
      sHandler = NewProxyHandler
        \<lparr>RequestCodec = \<lparr>Encode = (\<lambda>ev. Inr [1]), Decode = (\<lambda>b. Inl (CodecErr [])), IsBinary = True\<rparr>,
         ResponseCodec = \<lparr>Encode = (\<lambda>ev. Inr []), Decode = (\<lambda>b. Inl (CodecErr [])), IsBinary = True\<rparr>,
         MessageCodec = ProtoCodec\<rparr> []\<rparr>"
  let ?r = "\<lparr>reqMethod = ''GET'', urlPath = ''/x'', urlRawPath = [], urlRawQuery = [],
      reqHeader = [''X-Backstream-Client-Id'' \<mapsto> [''c1'']], reqBody = NoBody\<rparr>"
  have len: "length (Serve_GetConnsByID ?s [1] (header_get (reqHeader ?r) HeaderClientId)) \<le> 1"
    by (simp add: Serve_GetConnsByID_def GetConnsByID_filter register_def NewPool_def hg_client)
  with retry_equiv_single_tunnel [where s = ?s and r = ?r and ord = "[1]", OF len] show ?thesis
    by simp
qed

end
