(* ===== verification/Client.thy ===== *)
theory Client
  imports Serve
begin

text \<open>
  The backend client of \<open>src/ws/client.go\<close>: the agent side that dials the edge and keeps
  one tunnel open.  Its state is the record \<open>client\<close> (its own pool of tunnels, the URL,
  the client id, whether a TLS config function is set, the number of supervisor
  goroutines \<open>Start\<close> launched, and the next connection identity a dial allocates).
  \<open>Client_GetConn\<close> and \<open>connect\<close> are the code's functions with the dialer as an
  argument: given the handshake header, \<open>dial\<close> says whether the WebSocket handshake
  succeeded or how it failed.  \<open>keepConnected\<close> is a loop that may run for ever; it is a
  \<open>partial_function (option)\<close> over the sequence of events its \<open>select\<close> sees, each
  turn of the loop being \<open>kc_turn\<close>.  The
  concurrent callers of \<open>GetConn\<close> and the \<open>connectMu\<close> they take are the step
  relation \<open>cstep\<close>.
\<close>

section \<open>State and options\<close>

record client =
  cpool :: pool
  cUrl :: string
  cClientID :: string
  cTLS :: bool
  supervisors :: nat
  cNext :: cid

datatype client_option = WithClientID string | WithClientLogger | WithClientTLSConfigFunc

definition apply_client_option :: "client \<Rightarrow> client_option \<Rightarrow> client" where
  "apply_client_option c opt =
     (case opt of
        WithClientID i \<Rightarrow> c\<lparr>cClientID := i\<rparr>
      | WithClientLogger \<Rightarrow> c
      | WithClientTLSConfigFunc \<Rightarrow> c\<lparr>cTLS := True\<rparr>)"

text \<open>\<open>NewClient\<close>: an empty pool and an empty client id unless an option sets one.\<close>
definition NewClient :: "string \<Rightarrow> client_option list \<Rightarrow> client" where
  "NewClient url opts =
     foldl apply_client_option
       \<lparr>cpool = NewPool, cUrl = url, cClientID = [], cTLS = False, supervisors = 0, cNext = 0\<rparr> opts"

text \<open>\<open>Start\<close> calls \<open>runOnce\<close>, a plain closure that starts one more \<open>keepConnected\<close> goroutine.\<close>
definition Start :: "client \<Rightarrow> client" where
  "Start c = c\<lparr>supervisors := Suc (supervisors c)\<rparr>"

section \<open>Dialling\<close>

text \<open>The outcome of \<open>dialer.DialContext\<close>: a tunnel, or an error with the HTTP response if there was one (its status and the result of reading its body).\<close>
datatype dial_out = DialOk | DialFail go_error "(nat \<times> bytes result) option"

text \<open>\<open>%d\<close> of a status code.\<close>
fun nat_str :: "nat \<Rightarrow> string" where
  "nat_str n = (if n < 10 then [char_of (48 + n)] else nat_str (n div 10) @ [char_of (48 + n mod 10)])"

declare nat_str.simps [simp del]

definition string_of_bytes :: "bytes \<Rightarrow> string" where
  "string_of_bytes b = map char_of_byte b"

text \<open>The handshake header: \<open>requestHeader.Add(HeaderClientId, c.clientID)\<close>.\<close>
definition handshake_header :: "client \<Rightarrow> header" where
  "handshake_header c = header_add Map.empty HeaderClientId (cClientID c)"

text \<open>
  \<open>connect\<close>: dial with the handshake header; on success \<open>handleConn\<close> registers the new
  tunnel (identity \<open>cNext\<close>) under the client id; on failure wrap the error with the
  response's status and body, or return it as it is when there was no response.
\<close>
definition connect :: "client \<Rightarrow> (header \<Rightarrow> dial_out) \<Rightarrow> client \<times> cid result" where
  "connect c dial =
     (case dial (handshake_header c) of
        DialOk \<Rightarrow>
          (case handleConn (cpool c) (cNext c) (cClientID c) of
             (p', _) \<Rightarrow> (c\<lparr>cpool := p', cNext := Suc (cNext c)\<rparr>, Inr (cNext c)))
      | DialFail err None \<Rightarrow> (c, Inl err)
      | DialFail err (Some (status, Inl err2)) \<Rightarrow>
          (c, Inl (GoErr (go_error_text err @ '': status: '' @ nat_str status @ '', read body failed: ''
                          @ go_error_text err2)))
      | DialFail err (Some (status, Inr b)) \<Rightarrow>
          (c, Inl (GoErr (go_error_text err @ '': status: '' @ nat_str status @ '', body: ''
                          @ string_of_bytes b))))"

text \<open>\<open>GetConn\<close> (under \<open>connectMu\<close>): any tunnel of the pool, else a new one.\<close>
definition Client_GetConn :: "client \<Rightarrow> cid list \<Rightarrow> (header \<Rightarrow> dial_out) \<Rightarrow> client \<times> cid result" where
  "Client_GetConn c ord dial =
     (case GetConn (cpool c) ord of
        Some x \<Rightarrow> (c, Inr x)
      | None \<Rightarrow> connect c dial)"

section \<open>The supervisor loop\<close>

text \<open>
  What the supervisor's \<open>select\<close> sees at each turn: a tick of the one-second ticker
  (with the dialer of that moment), the parent context done, or, interleaved, the
  teardown of a tunnel by its read loop (\<open>pool.unregister\<close>).
\<close>
datatype kc_event = KTick "header \<Rightarrow> dial_out" | KCtxDone | KTeardown cid

text \<open>
  One turn of the loop after its \<open>select\<close>: a tick runs \<open>GetConn\<close> (its error is only
  logged), a teardown unregisters the tunnel.  \<open>ord\<close> gives the order in which
  \<open>pool.GetConn\<close>'s range visits a pool.
\<close>
fun kc_turn :: "((cid \<rightharpoonup> string) \<Rightarrow> cid list) \<Rightarrow> kc_event \<Rightarrow> client \<Rightarrow> client" where
  "kc_turn ord (KTick dial) c = fst (Client_GetConn c (ord (clients (cpool c))) dial)"
| "kc_turn ord (KTeardown x) c = c\<lparr>cpool := unregister (cpool c) x\<rparr>"
| "kc_turn ord KCtxDone c = c"

text \<open>The \<open>for\<close>/\<open>select\<close> loop of \<open>keepConnected\<close>: return when the context is done.\<close>
partial_function (option) kc_loop ::
  "(nat \<Rightarrow> kc_event) \<Rightarrow> ((cid \<rightharpoonup> string) \<Rightarrow> cid list) \<Rightarrow> nat \<Rightarrow> client \<Rightarrow> client option" where
  "kc_loop ev ord i c =
     (if ev i = KCtxDone then Some c else kc_loop ev ord (Suc i) (kc_turn ord (ev i) c))"

declare kc_loop.simps [code]

text \<open>\<open>keepConnected\<close>: one \<open>GetConn\<close> at once (its error is only logged), then the loop.\<close>
definition keepConnected ::
  "(nat \<Rightarrow> kc_event) \<Rightarrow> ((cid \<rightharpoonup> string) \<Rightarrow> cid list) \<Rightarrow> (header \<Rightarrow> dial_out) \<Rightarrow> client \<Rightarrow> client option" where
  "keepConnected ev ord dial0 c = kc_loop ev ord 0 (fst (Client_GetConn c (ord (clients (cpool c))) dial0))"

section \<open>Concurrent callers of GetConn\<close>

text \<open>
  Where a call of \<open>GetConn\<close> is: waiting for \<open>connectMu\<close>, holding it before the pool
  check, holding it while dialling, or returned.
\<close>
datatype gc_pc = GCLock | GCCheck | GCDial | GCRet "cid result"

record cstate =
  cs :: client
  mu :: "nat option"
  gcs :: "nat \<rightharpoonup> gc_pc"

definition cstate_init :: "client \<Rightarrow> cstate" where
  "cstate_init c = \<lparr>cs = c, mu = None, gcs = Map.empty\<rparr>"

inductive cstep :: "cstate \<Rightarrow> cstate \<Rightarrow> bool" where
  call:
    "gcs s t = None \<Longrightarrow> cstep s (s\<lparr>gcs := (gcs s)(t \<mapsto> GCLock)\<rparr>)"
| lock:
    "gcs s t = Some GCLock \<Longrightarrow> mu s = None \<Longrightarrow>
     cstep s (s\<lparr>mu := Some t, gcs := (gcs s)(t \<mapsto> GCCheck)\<rparr>)"
| check_found:
    "gcs s t = Some GCCheck \<Longrightarrow> enumerates ord (clients (cpool (cs s))) \<Longrightarrow>
     GetConn (cpool (cs s)) ord = Some x \<Longrightarrow>
     cstep s (s\<lparr>mu := None, gcs := (gcs s)(t \<mapsto> GCRet (Inr x))\<rparr>)"
| check_empty:
    "gcs s t = Some GCCheck \<Longrightarrow> enumerates ord (clients (cpool (cs s))) \<Longrightarrow>
     GetConn (cpool (cs s)) ord = None \<Longrightarrow>
     cstep s (s\<lparr>gcs := (gcs s)(t \<mapsto> GCDial)\<rparr>)"
| dial:
    "gcs s t = Some GCDial \<Longrightarrow> connect (cs s) d = (c', r) \<Longrightarrow>
     cstep s (s\<lparr>cs := c', mu := None, gcs := (gcs s)(t \<mapsto> GCRet r)\<rparr>)"
| teardown:
    "cstep s (s\<lparr>cs := (cs s)\<lparr>cpool := unregister (cpool (cs s)) x\<rparr>\<rparr>)"
| return:
    "gcs s t = Some (GCRet r) \<Longrightarrow> cstep s (s\<lparr>gcs := (gcs s)(t := None)\<rparr>)"

inductive creach :: "client \<Rightarrow> cstate \<Rightarrow> bool" for c0 :: client where
  init: "creach c0 (cstate_init c0)"
| step: "creach c0 s \<Longrightarrow> cstep s s' \<Longrightarrow> creach c0 s'"

text \<open>The lock is held exactly by the call that is checking or dialling.\<close>
definition lock_held :: "cstate \<Rightarrow> bool" where
  "lock_held s \<longleftrightarrow> (\<forall>t. gcs s t = Some GCCheck \<or> gcs s t = Some GCDial \<longrightarrow> mu s = Some t)"

text \<open>A dial starts only from an empty pool, and nothing registers meanwhile.\<close>
definition dial_empty :: "cstate \<Rightarrow> bool" where
  "dial_empty s \<longleftrightarrow> (\<forall>t. gcs s t = Some GCDial \<longrightarrow> clients (cpool (cs s)) = Map.empty)"

definition single_tunnel :: "cstate \<Rightarrow> bool" where
  "single_tunnel s \<longleftrightarrow> finite (dom (clients (cpool (cs s)))) \<and> card (dom (clients (cpool (cs s)))) \<le> 1"

definition client_inv :: "cstate \<Rightarrow> bool" where
  "client_inv s \<longleftrightarrow> lock_held s \<and> dial_empty s \<and> single_tunnel s"

lemmas client_inv_defs = client_inv_def lock_held_def dial_empty_def single_tunnel_def

section \<open>Lemmas\<close>

lemma GetConn_None_empty:
  "enumerates ord (clients p) \<Longrightarrow> GetConn p ord = None \<Longrightarrow> clients p = Map.empty"
  by (auto simp: GetConn_def enumerates_def split: list.splits)

lemma GetConn_Some_mem:
  "enumerates ord (clients p) \<Longrightarrow> GetConn p ord = Some x \<Longrightarrow> x \<in> dom (clients p)"
  by (auto simp: GetConn_def enumerates_def split: list.splits)

lemma connect_pool:
  assumes "connect c d = (c', r)"
  shows "(cpool c' = cpool c \<and> (\<exists>e. r = Inl e))
       \<or> (cpool c' = register (cpool c) (cNext c) (cClientID c) \<and> r = Inr (cNext c))"
  using assms
  by (auto simp: connect_def handleConn_def split: dial_out.splits option.splits prod.splits sum.splits)

lemma handshake_client_id: "header_get (handshake_header c) HeaderClientId = cClientID c"
  by (simp add: handshake_header_def header_get_def header_add_def hdr_index_def Let_def)

lemma card_le_1_empty_register:
  "clients p = Map.empty \<Longrightarrow> finite (dom (clients (register p x i))) \<and> card (dom (clients (register p x i))) \<le> 1"
  by (simp add: register_def)

lemma single_tunnel_unregister:
  "finite (dom (clients p)) \<Longrightarrow> card (dom (clients p)) \<le> 1 \<Longrightarrow>
   finite (dom (clients (unregister p x))) \<and> card (dom (clients (unregister p x))) \<le> 1"
  by (simp add: unregister_def) (meson card_Diff1_le dual_order.trans finite_Diff)

lemma lock_owner:
  assumes "lock_held s" "gcs s t = Some GCCheck \<or> gcs s t = Some GCDial" "t' \<noteq> t"
  shows "gcs s t' \<noteq> Some GCCheck \<and> gcs s t' \<noteq> Some GCDial"
proof -
  from assms(1,2) have "mu s = Some t" by (auto simp: lock_held_def)
  with assms(1,3) show ?thesis by (auto simp: lock_held_def)
qed

lemma cstep_client_inv:
  assumes "cstep s s'" "client_inv s"
  shows "client_inv s'"
  using assms
proof (induction rule: cstep.induct)
  case (call s t)
  then show ?case by (auto simp: client_inv_defs)
next
  case (lock s t)
  then show ?case by (auto simp: client_inv_defs)
next
  case (check_found s t ord x)
  then have lh: "lock_held s" by (simp add: client_inv_def)
  have "\<forall>t'. t' \<noteq> t \<longrightarrow> gcs s t' \<noteq> Some GCCheck \<and> gcs s t' \<noteq> Some GCDial"
    using lock_owner [OF lh] check_found.hyps(1) by blast
  with check_found show ?case by (auto simp: client_inv_defs)
next
  case (check_empty s t ord)
  then have lh: "lock_held s" by (simp add: client_inv_def)
  have "\<forall>t'. t' \<noteq> t \<longrightarrow> gcs s t' \<noteq> Some GCCheck \<and> gcs s t' \<noteq> Some GCDial"
    using lock_owner [OF lh] check_empty.hyps(1) by blast
  moreover have "clients (cpool (cs s)) = Map.empty"
    using GetConn_None_empty check_empty.hyps(2,3) .
  ultimately show ?case using check_empty by (auto simp: client_inv_defs)
next
  case (dial s t d c' r)
  then have lk: "mu s = Some t" and em: "clients (cpool (cs s)) = Map.empty"
    by (auto simp: client_inv_defs)
  have others: "\<forall>t'. t' \<noteq> t \<longrightarrow> gcs s t' \<noteq> Some GCCheck \<and> gcs s t' \<noteq> Some GCDial"
    using lock_owner [of s t] dial.prems dial.hyps(1) by (simp add: client_inv_def)
  have "finite (dom (clients (cpool c'))) \<and> card (dom (clients (cpool c'))) \<le> 1"
    using connect_pool [OF dial.hyps(2)] em card_le_1_empty_register by auto
  then show ?case using others by (auto simp: client_inv_defs)
next
  case (teardown s x)
  then show ?case using single_tunnel_unregister by (auto simp: client_inv_defs unregister_def)
next
  case (return s t r)
  then show ?case by (auto simp: client_inv_defs)
qed

lemma creach_client_inv:
  assumes "creach c0 s" "clients (cpool c0) = Map.empty"
  shows "client_inv s"
  using assms
proof (induction rule: creach.induct)
  case init
  then show ?case by (simp add: client_inv_defs cstate_init_def)
next
  case (step s s')
  then show ?case by (blast intro: cstep_client_inv)
qed

lemma NewClient_fields:
  "cpool (foldl apply_client_option c opts) = cpool c \<and> cNext (foldl apply_client_option c opts) = cNext c"
  by (induction opts arbitrary: c) (simp_all add: apply_client_option_def split: client_option.splits)

lemma NewClient_pool: "clients (cpool (NewClient url opts)) = Map.empty"
  using NewClient_fields by (simp add: NewClient_def NewPool_def)

lemma kc_loop_returns: "ev (n + k) = KCtxDone \<Longrightarrow> \<exists>c'. kc_loop ev ord n c = Some c'"
proof (induction k arbitrary: n c)
  case 0
  then show ?case by (simp add: kc_loop.simps)
next
  case (Suc k)
  have ih: "\<And>c. \<exists>c'. kc_loop ev ord (Suc n) c = Some c'"
    using Suc.IH [of "Suc n"] Suc.prems by simp
  show ?case
    by (cases "ev n") (simp_all add: kc_loop.simps [of ev ord n] ih)
qed

lemma kc_loop_done:
  assumes ret: "kc_loop ev ord n c = Some c'"
  shows "\<exists>i \<ge> n. ev i = KCtxDone"
proof (rule kc_loop.raw_induct [where P = "\<lambda>ev ord n c c'. \<exists>i \<ge> n. ev i = KCtxDone", OF _ ret])
  fix f :: "(nat \<Rightarrow> kc_event) \<Rightarrow> ((cid \<rightharpoonup> string) \<Rightarrow> cid list) \<Rightarrow> nat \<Rightarrow> client \<Rightarrow> client option"
    and ev ord n c c'
  assume IH: "\<And>ev ord n c c'. f ev ord n c = Some c' \<Longrightarrow> \<exists>i \<ge> n. ev i = KCtxDone"
    and eq: "(if ev n = KCtxDone then Some c else f ev ord (Suc n) (kc_turn ord (ev n) c)) = Some c'"
  show "\<exists>i \<ge> n. ev i = KCtxDone"
  proof (cases "ev n = KCtxDone")
    case False
    with eq have "f ev ord (Suc n) (kc_turn ord (ev n) c) = Some c'" by simp
    then obtain i where "i \<ge> Suc n" "ev i = KCtxDone" using IH by blast
    then show ?thesis by (intro exI [of _ i]) simp
  qed blast
qed

text \<open>The loop computes the turns up to the first \<open>KCtxDone\<close>, one after the other.\<close>
lemma kc_loop_fold:
  "(\<forall>j < k. ev (i + j) \<noteq> KCtxDone) \<Longrightarrow> ev (i + k) = KCtxDone \<Longrightarrow>
   kc_loop ev ord i c = Some (foldl (\<lambda>c j. kc_turn ord (ev j) c) c [i..<i + k])"
proof (induction k arbitrary: i c)
  case 0
  then show ?case by (simp add: kc_loop.simps)
next
  case (Suc k)
  have "ev i \<noteq> KCtxDone" using Suc.prems(1) by (metis add_0_right zero_less_Suc)
  moreover have "kc_loop ev ord (Suc i) c'' = Some (foldl (\<lambda>c j. kc_turn ord (ev j) c) c'' [Suc i..<Suc i + k])"
    for c''
    using Suc.prems by (intro Suc.IH) auto
  moreover have "[i..<i + Suc k] = i # [Suc i..<Suc i + k]" by (simp add: upt_conv_Cons)
  ultimately show ?case by (simp add: kc_loop.simps [of ev ord i])
qed

lemma kc_turn_finite:
  "finite (dom (clients (cpool c))) \<Longrightarrow> finite (dom (clients (cpool (kc_turn ord e c))))"
proof (cases e)
  case (KTick dial)
  assume f: "finite (dom (clients (cpool c)))"
  obtain c' r where g: "Client_GetConn c (ord (clients (cpool c))) dial = (c', r)" by fastforce
  then have "cpool c' = cpool c \<or> cpool c' = register (cpool c) (cNext c) (cClientID c)"
    using connect_pool [of c dial] by (auto simp: Client_GetConn_def split: option.splits)
  with f g KTick show ?thesis by (auto simp: register_def)
qed (simp_all add: unregister_def)

lemma kc_fold_finite:
  "finite (dom (clients (cpool c))) \<Longrightarrow>
   finite (dom (clients (cpool (foldl (\<lambda>c j. kc_turn ord (ev j) c) c js))))"
  by (induction js arbitrary: c) (simp_all add: kc_turn_finite)

text \<open>A tick whose dial succeeds leaves a tunnel in the pool.\<close>
lemma kc_turn_tick_nonempty:
  assumes ord: "\<forall>m. finite (dom m) \<longrightarrow> set (ord m) = dom m"
    and f: "finite (dom (clients (cpool c)))" and ok: "\<forall>h. dial h = DialOk"
  shows "clients (cpool (kc_turn ord (KTick dial) c)) \<noteq> Map.empty"
proof (cases "ord (clients (cpool c))")
  case Nil
  then show ?thesis
    using ok by (simp add: Client_GetConn_def GetConn_def connect_def handleConn_def register_def)
next
  case (Cons x xs)
  then have "x \<in> dom (clients (cpool c))" using ord f by (metis list.set_intros(1))
  then show ?thesis using Cons by (auto simp: Client_GetConn_def GetConn_def)
qed

section \<open>Properties\<close>

text \<open>
  C6: The agent keeps at most one tunnel.  Whatever the interleaving of concurrent
  \<open>GetConn\<close> calls (the supervisors and any other caller), dials and tunnel teardowns,
  the client's pool never holds more than one tunnel and at most one dial is in
  progress: \<open>connectMu\<close> makes the pool check and the dial one critical section.
\<close>
theorem client_single_tunnel:
  assumes "creach (NewClient url opts) s"
  shows "card (dom (clients (cpool (cs s)))) \<le> 1
       \<and> (\<forall>t t'. gcs s t = Some GCDial \<longrightarrow> gcs s t' = Some GCDial \<longrightarrow> t = t')"
proof -
  have inv: "client_inv s" using creach_client_inv [OF assms NewClient_pool] .
  then have "lock_held s" by (simp add: client_inv_def)
  then have "\<forall>t t'. gcs s t = Some GCDial \<longrightarrow> gcs s t' = Some GCDial \<longrightarrow> t = t'"
    using lock_owner by blast
  with inv show ?thesis by (simp add: client_inv_defs)
qed


theorem client_single_tunnel_witness:
  "\<exists>s. creach (NewClient ''ws://edge/tunnel'' [WithClientID ''c1'']) s
       \<and> clients (cpool (cs s)) = [0 \<mapsto> ''c1'']
       \<and> card (dom (clients (cpool (cs s)))) \<le> 1
       \<and> (\<forall>t t'. gcs s t = Some GCDial \<longrightarrow> gcs s t' = Some GCDial \<longrightarrow> t = t')"
proof -
  let ?c0 = "NewClient ''ws://edge/tunnel'' [WithClientID ''c1'']"
  have c0: "?c0 = \<lparr>cpool = NewPool, cUrl = ''ws://edge/tunnel'', cClientID = ''c1'', cTLS = False,
                    supervisors = 0, cNext = 0\<rparr>"
    by (simp add: NewClient_def apply_client_option_def)
  define s0 where "s0 = cstate_init ?c0"
  define s1 where "s1 = s0\<lparr>gcs := (gcs s0)(0 \<mapsto> GCLock)\<rparr>"
  define s2 where "s2 = s1\<lparr>mu := Some 0, gcs := (gcs s1)(0 \<mapsto> GCCheck)\<rparr>"
  define s3 where "s3 = s2\<lparr>gcs := (gcs s2)(0 \<mapsto> GCDial)\<rparr>"
  obtain c' r where cn: "connect (cs s3) (\<lambda>_. DialOk) = (c', r)" by fastforce
  define s4 where "s4 = s3\<lparr>cs := c', mu := None, gcs := (gcs s3)(0 \<mapsto> GCRet r)\<rparr>"
  have "creach ?c0 s0" unfolding s0_def by (rule creach.init)
  moreover have "cstep s0 s1" unfolding s1_def by (rule cstep.call) (simp add: s0_def cstate_init_def)
  moreover have "cstep s1 s2" unfolding s2_def
    by (rule cstep.lock) (simp_all add: s1_def s0_def cstate_init_def)
  moreover have "cstep s2 s3" unfolding s3_def
    by (rule cstep.check_empty [where ord = "[]"])
       (simp_all add: s2_def s1_def s0_def cstate_init_def enumerates_def GetConn_def NewClient_pool)
  moreover have "cstep s3 s4" unfolding s4_def
    by (rule cstep.dial [where d = "\<lambda>_. DialOk", OF _ cn]) (simp add: s3_def)
  ultimately have reach: "creach ?c0 s4" by (meson creach.step)
  have "clients (cpool (cs s4)) = [0 \<mapsto> ''c1'']"
    using cn c0 by (simp add: s4_def s3_def s2_def s1_def s0_def cstate_init_def connect_def
                              handleConn_def register_def NewPool_def)
       (metis client.select_convs(1) pool.select_convs(1))
  with client_single_tunnel [OF reach] reach show ?thesis by blast
qed

text \<open>
  C16: The supervisor returns exactly when its context is done.  \<open>keepConnected\<close>
  returns for an event sequence in which the parent context is eventually done, and
  for no other: while the context lives it keeps ticking for ever.
\<close>
theorem keepConnected_returns:
  "(\<exists>c'. keepConnected ev ord d c = Some c') \<longleftrightarrow> (\<exists>i. ev i = KCtxDone)"
proof
  assume "\<exists>c'. keepConnected ev ord d c = Some c'"
  then show "\<exists>i. ev i = KCtxDone"
    using kc_loop_done unfolding keepConnected_def by blast
next
  assume "\<exists>i. ev i = KCtxDone"
  then obtain i where "ev (0 + i) = KCtxDone" by auto
  then show "\<exists>c'. keepConnected ev ord d c = Some c'"
    unfolding keepConnected_def by (rule kc_loop_returns)
qed


theorem keepConnected_returns_witness:
  "\<exists>c'. keepConnected (\<lambda>i. if i < 2 then KTick (\<lambda>_. DialOk) else KCtxDone)
                     (\<lambda>m. sorted_list_of_set (dom m)) (\<lambda>_. DialOk) (NewClient ''ws://edge/tunnel'' []) = Some c'"
  using keepConnected_returns [where ev = "\<lambda>i. if i < 2 then KTick (\<lambda>_. DialOk) else KCtxDone"
                                 and ord = "\<lambda>m. sorted_list_of_set (dom m)" and d = "\<lambda>_. DialOk"
                                 and c = "NewClient ''ws://edge/tunnel'' []"]
  by auto

text \<open>
  C15: \<open>GetConn\<close> reuses or reconnects.  With a tunnel in the pool it returns the first
  one the range visits and dials nothing; with an empty pool a successful dial registers
  exactly one new tunnel under the client id and returns it, and a failed dial returns
  an error and changes nothing.
\<close>
theorem Client_GetConn_outcome:
  assumes "enumerates ord (clients (cpool c))"
  shows "(clients (cpool c) \<noteq> Map.empty \<longrightarrow>
            Client_GetConn c ord dial = (c, Inr (hd ord)) \<and> hd ord \<in> dom (clients (cpool c)))
       \<and> (clients (cpool c) = Map.empty \<and> dial (handshake_header c) = DialOk \<longrightarrow>
            (\<exists>c'. Client_GetConn c ord dial = (c', Inr (cNext c))
                  \<and> clients (cpool c') = [cNext c \<mapsto> cClientID c]))
       \<and> (clients (cpool c) = Map.empty \<and> dial (handshake_header c) \<noteq> DialOk \<longrightarrow>
            (\<exists>e. Client_GetConn c ord dial = (c, Inl e)))"
proof -
  have e: "clients (cpool c) = Map.empty \<Longrightarrow> ord = []"
    using assms by (simp add: enumerates_def)
  have found: "Client_GetConn c ord dial = (c, Inr (hd ord)) \<and> hd ord \<in> dom (clients (cpool c))"
    if ne: "clients (cpool c) \<noteq> Map.empty"
  proof -
    obtain y ys where o: "ord = y # ys"
      using assms ne unfolding enumerates_def by (metis dom_eq_empty_conv list.exhaust set_empty)
    then have "y \<in> dom (clients (cpool c))" using assms by (auto simp: enumerates_def)
    then show ?thesis using o by (simp add: Client_GetConn_def GetConn_def)
  qed
  have dialed: "\<exists>c'. Client_GetConn c ord dial = (c', Inr (cNext c)) \<and> clients (cpool c') = [cNext c \<mapsto> cClientID c]"
    if "clients (cpool c) = Map.empty" "dial (handshake_header c) = DialOk"
    using that e by (simp add: Client_GetConn_def GetConn_def connect_def handleConn_def register_def)
  have failed: "\<exists>e. Client_GetConn c ord dial = (c, Inl e)"
    if "clients (cpool c) = Map.empty" "dial (handshake_header c) \<noteq> DialOk"
    using that e
    by (auto simp: Client_GetConn_def GetConn_def connect_def split: dial_out.splits option.splits sum.splits)
  show ?thesis using found dialed failed by blast
qed


theorem Client_GetConn_outcome_witness:
  "enumerates [] (clients (cpool (NewClient ''ws://edge/tunnel'' [WithClientID ''c1''])))
   \<and> (\<exists>c'. Client_GetConn (NewClient ''ws://edge/tunnel'' [WithClientID ''c1'']) [] (\<lambda>_. DialOk) = (c', Inr 0)
           \<and> clients (cpool c') = [0 \<mapsto> ''c1''])"
proof -
  let ?c = "NewClient ''ws://edge/tunnel'' [WithClientID ''c1'']"
  have e: "enumerates [] (clients (cpool ?c))" by (simp add: enumerates_def NewClient_pool)
  have "cNext ?c = 0 \<and> cClientID ?c = ''c1''" by (simp add: NewClient_def apply_client_option_def)
  with Client_GetConn_outcome [OF e, where dial = "\<lambda>_. DialOk"] e show ?thesis
    by (simp add: NewClient_pool)
qed

text \<open>
  C28: A failed dial is reported, never registered.  \<open>connect\<close> leaves the client as it
  was; without an HTTP response it returns the dialer's error, and with one it returns
  that error followed by the response's status (and its body, or why it could not be
  read).
\<close>
theorem connect_dial_errors:
  assumes "dial (handshake_header c) = DialFail err resp"
  shows "\<exists>e. connect c dial = (c, Inl e)
            \<and> (resp = None \<longrightarrow> e = err)
            \<and> (\<forall>st r. resp = Some (st, r) \<longrightarrow>
                 (\<exists>rest. go_error_text e = go_error_text err @ '': status: '' @ nat_str st @ rest))"
  using assms by (auto simp: connect_def split: option.splits sum.splits)


theorem connect_dial_errors_witness:
  "\<exists>e. connect (NewClient ''ws://edge/tunnel'' []) (\<lambda>_. DialFail (GoErr ''websocket: bad handshake'') (Some (400, Inr [])))
         = (NewClient ''ws://edge/tunnel'' [], Inl e)
       \<and> (\<exists>rest. go_error_text e = ''websocket: bad handshake: status: '' @ nat_str 400 @ rest)"
  using connect_dial_errors [where c = "NewClient ''ws://edge/tunnel'' []"
                              and dial = "\<lambda>_. DialFail (GoErr ''websocket: bad handshake'') (Some (400, Inr []))"
                              and err = "GoErr ''websocket: bad handshake''" and resp = "Some (400, Inr [])"]
  by auto

text \<open>
  C26: The edge registers the agent's tunnel under the agent's client id.  On the
  handshake header \<open>connect\<close> sends, \<open>HandleWS\<close> accepts exactly when the client id is
  not empty or the edge does not require one, and then registers the tunnel under that
  client id.
\<close>
theorem handshake_registers:
  assumes "HandleWS s w (handshake_header c) x True = (s', w', co)"
  shows "(co \<noteq> None \<longleftrightarrow> cClientID c \<noteq> [] \<or> \<not> requireClientId s)
       \<and> (co \<noteq> None \<longrightarrow> clients (spool s') x = Some (cClientID c))"
  using assms
  by (auto simp: HandleWS_def handshake_client_id handleConn_def register_def Let_def split: if_splits)


theorem handshake_registers_witness:
  "\<exists>s' w' co. HandleWS (NewServe \<lparr>phCodec = \<lparr>RequestCodec = \<lparr>Encode = (\<lambda>ev. Inr []), Decode = (\<lambda>b. Inl (CodecErr [])), IsBinary = True\<rparr>,
                                   ResponseCodec = \<lparr>Encode = (\<lambda>ev. Inr []), Decode = (\<lambda>b. Inl (CodecErr [])), IsBinary = True\<rparr>,
                                   MessageCodec = ProtoCodec\<rparr>, phDefaultRequestTimeout = 0\<rparr> [])
                         new_writer (handshake_header (NewClient ''ws://edge/tunnel'' [WithClientID ''c1''])) 3 True
                = (s', w', co)
            \<and> co \<noteq> None \<and> clients (spool s') 3 = Some ''c1''"
proof -
  let ?S = "NewServe \<lparr>phCodec = \<lparr>RequestCodec = \<lparr>Encode = (\<lambda>ev. Inr []), Decode = (\<lambda>b. Inl (CodecErr [])), IsBinary = True\<rparr>,
                                   ResponseCodec = \<lparr>Encode = (\<lambda>ev. Inr []), Decode = (\<lambda>b. Inl (CodecErr [])), IsBinary = True\<rparr>,
                                   MessageCodec = ProtoCodec\<rparr>, phDefaultRequestTimeout = 0\<rparr> []"
  let ?c = "NewClient ''ws://edge/tunnel'' [WithClientID ''c1'']"
  obtain s' w' co where h: "HandleWS ?S new_writer (handshake_header ?c) 3 True = (s', w', co)"
    by (cases "HandleWS ?S new_writer (handshake_header ?c) 3 True") auto
  have "cClientID ?c = ''c1''" by (simp add: NewClient_def apply_client_option_def)
  with handshake_registers [OF h] h show ?thesis by auto
qed


text \<open>
  C17: The supervisor reconnects.  Whatever ticks and tunnel teardowns came before, if the
  last turn before the context is done is a tick whose dial succeeds, \<open>keepConnected\<close>
  returns with a tunnel in the pool: a torn-down tunnel is replaced at the next
  successful tick.
\<close>
theorem keepConnected_reconnects:
  assumes ord: "\<forall>m. finite (dom m) \<longrightarrow> set (ord m) = dom m"
    and f: "finite (dom (clients (cpool c)))"
    and run: "\<forall>j < k. ev j \<noteq> KCtxDone" and tick: "ev k = KTick dial" and ok: "\<forall>h. dial h = DialOk"
    and stop: "ev (Suc k) = KCtxDone"
  shows "\<exists>c'. keepConnected ev ord d c = Some c' \<and> clients (cpool c') \<noteq> Map.empty"
proof -
  let ?turns = "\<lambda>c js. foldl (\<lambda>c j. kc_turn ord (ev j) c) c js"
  define c0 where "c0 = kc_turn ord (KTick d) c"
  have f0: "finite (dom (clients (cpool c0)))" unfolding c0_def using f by (rule kc_turn_finite)
  have "\<forall>j < Suc k. ev (0 + j) \<noteq> KCtxDone" using run tick by (auto simp: less_Suc_eq)
  from kc_loop_fold [OF this] stop
  have "kc_loop ev ord 0 c0 = Some (?turns c0 [0..<Suc k])" by simp
  then have ret: "keepConnected ev ord d c = Some (kc_turn ord (KTick dial) (?turns c0 [0..<k]))"
    by (simp add: keepConnected_def c0_def tick)
  have "finite (dom (clients (cpool (?turns c0 [0..<k]))))" using f0 by (rule kc_fold_finite)
  from kc_turn_tick_nonempty [OF ord this ok] ret show ?thesis by blast
qed

theorem keepConnected_reconnects_witness:
  "\<exists>c'. keepConnected (\<lambda>i. if i = 0 then KTeardown 0 else if i = 1 then KTick (\<lambda>_. DialOk) else KCtxDone)
          (\<lambda>m. sorted_list_of_set (dom m)) (\<lambda>_. DialOk) (NewClient ''ws://edge/tunnel'' [WithClientID ''c1''])
        = Some c'
      \<and> clients (cpool c') \<noteq> Map.empty"
proof -
  have ord: "\<forall>m::cid \<rightharpoonup> string. finite (dom m) \<longrightarrow> set (sorted_list_of_set (dom m)) = dom m" by simp
  have f: "finite (dom (clients (cpool (NewClient ''ws://edge/tunnel'' [WithClientID ''c1'']))))"
    by (simp add: NewClient_pool)
  show ?thesis
    by (rule keepConnected_reconnects [OF ord f, where k = 1 and dial = "\<lambda>_. DialOk"]) simp_all
qed

end
