(* ===== verification/Spec2Isabelle.thy ===== *)
theory Spec2Isabelle
  imports TunnelProps Serve Client
begin

text \<open>
  A shallow embedding of backstream, a reverse tunnel that carries HTTP requests and
  notifications as envelopes over one WebSocket per backend agent.

  \<^bold>\<open>Parts of the program and where they are modelled.\<close>
  \<^item> \<open>Prelude\<close>: byte strings (\<open>8 word list\<close>), the error type \<open>go_error\<close> standing for the
    Go \<open>error\<close> values the code returns (\<open>ErrConnectionClosed\<close>, \<open>ctx.Err()\<close>, codec,
    handler and I/O errors), results as \<open>go_error + 'a\<close>, and shared lemmas on maps and
    enumerations.
  \<^item> \<open>Pool\<close> (\<open>src/ws/pool.go\<close>): the registry of live tunnels, a map from connection to
    client id.  Each method holds the mutex for its whole body and is one function on
    the map; Go's unspecified \<open>range\<close> order is an argument, and the lemmas hold for
    every order that enumerates the map.
  \<^item> \<open>Message\<close> (\<open>src/ws/codec.go\<close>): the envelope (id, type, payload), the \<open>Codec\<close>
    interface as a record of functions, and \<open>ProtoCodec\<close>.  The envelope's protobuf wire
    format comes from generated code outside \<open>src/\<close> and is written from the message
    definition: fields 1-3 with varint lengths, decoded in any field order with
    last-wins semantics, under a fuel equal to the input length (each field consumes at
    least one byte, so that fuel always suffices).  The generic \<open>ProtoCodec\<close> (for the
    HTTP events) and \<open>JsonCodec\<close> take \<open>Marshal\<close> and \<open>Unmarshal\<close> as arguments:
    their wire formats are generated or library code, and protojson output is
    deliberately not byte-stable.
  \<^item> \<open>SyncedMap\<close> (\<open>src/internal/util/syncedmap.go\<close>): a locked map, each method one
    atomic map operation.
  \<^item> \<open>Conn\<close> (\<open>src/ws/conn.go\<close>): the tunnel connection.  The record \<open>conn\<close> holds the
    outbound queue \<open>sendCh\<close> (its buffer and closed flag), the pending-response table
    \<open>respMap\<close> (id to reply channel), the reply channels in an explicit store
    \<open>chans\<close> (a \<open>Send\<close> keeps its channel after the table entry is gone), the
    context's done flag and the socket's closed flag.  \<open>safeSend\<close>, \<open>handleReceived\<close>,
    the reader goroutine's reply (\<open>readLoop_reply\<close>), the reader's deferred teardown,
    one iteration of \<open>writeLoop\<close>, \<open>Close\<close>, \<open>Notify\<close> and \<open>handleConn\<close> are one
    definition each; \<open>Send\<close> is cut at its blocking points into \<open>Send_start\<close> (new id,
    encode, table entry), \<open>Send_enqueue\<close> (the \<open>safeSend\<close> and its two checks) and
    \<open>Send_wait\<close> (the final \<open>select\<close>), each running the deferred \<open>Delete\<close>
    (\<open>release\<close>) on its return paths.  A Go \<open>select\<close> is an explicit case argument, and
    a case that is not ready gives \<open>None\<close>: the step cannot be taken (the goroutine
    blocks).  The queue has capacity \<open>inFlightCount\<close> = 1024, a reply channel 1.
  \<^item> \<open>Tunnel\<close>: the concurrency of one connection as the step relation \<open>tstep\<close> over the
    record \<open>tunnel\<close> (the pool, the connection, every \<open>Send\<close> in progress, the goroutines
    the reader spawned, whether each loop runs, the frames written).  A rule is one
    atomic step of a caller, a goroutine or a loop, or an event of the environment: a
    frame arrives, a read fails, the context is cancelled.  Timers (deadlines, the ping
    ticker) are scheduler choices.  \<open>reach\<close> is the set of states reachable from
    \<open>handleConn\<close>.  Ghost fields record the frames received, the ids generated (a
    \<open>uuid.New\<close> is modelled as an id never used before) and every value enqueued.
  \<^item> \<open>TunnelInv\<close>: the invariants of \<open>reach\<close>, proved by rule induction over \<open>tstep\<close>:
    the queue bound and FIFO order (\<open>queue_inv\<close>), registration while the reader runs
    (\<open>reg_inv\<close>), the consistency of the table with the callers (\<open>table_inv\<close>: ids fresh
    and distinct, one entry exactly per waiting call, channels owned and distinct) and
    the correlation of replies with received RESPONSE envelopes (\<open>corr_inv\<close>).
  \<^item> \<open>TunnelProps\<close>: the properties of the tunnel drawn from those invariants, each
    with a concrete trace from \<open>handleConn\<close> through a request and its answer.
  \<^item> \<open>Http\<close> (\<open>src/handler/convert.go\<close>): the conversions between \<open>net/http\<close> values
    and the request and response events, with the library behaviour they depend on
    written out: header values as \<open>structpb\<close> list values (which must be valid UTF-8),
    canonical header keys and \<open>Header.Get/Add/Set/Del\<close>, the server request body whose
    deferred \<open>Close\<close> makes later reads fail, and a response writer that fixes status and
    header at the first \<open>WriteHeader\<close> and panics on a code outside 100..999.
  \<^item> \<open>Handler\<close> (\<open>src/handler/handler.go\<close>, \<open>httpcodec.go\<close>): the request timeout, the
    edge's \<open>ProxyHttpRequest\<close> (recording the \<open>Send\<close> calls it makes), the agent's
    \<open>HttpRequestHandler\<close> and \<open>HttpNotifyHandler\<close>, the recovery wrapper.  The functions
    the code only calls are arguments: \<open>conn.Send\<close> with the exchange's deadline,
    \<open>time.ParseDuration\<close>, the user's \<open>http.HandlerFunc\<close> (a panic is the result
    \<open>Inl (Panic m)\<close>), the generated event codecs, and the range order of every map.
  \<^item> \<open>Serve\<close> (\<open>src/ws/serve.go\<close>): the edge server state (pool, client-id policy,
    proxy handler), \<open>HandleWS\<close>, \<open>HandleProxy\<close> and \<open>HandleProxyWithRetry\<close> with its
    loop \<open>retry_loop\<close>, which threads the request (its body state) and the writer
    through the attempts.
  \<^item> \<open>Client\<close> (\<open>src/ws/client.go\<close>): the backend agent.  The record \<open>client\<close> holds its
    pool, URL, client id and TLS choice, the number of supervisors \<open>Start\<close> has spawned,
    and the id the next tunnel gets.  \<open>Client_GetConn\<close> is \<open>GetConn\<close>, which reuses a
    pooled tunnel or calls \<open>connect\<close>.  \<open>connect\<close> sends the client-id header and
    handles the three outcomes of \<open>DialContext\<close>; the dialer is an argument (\<open>dial_out\<close>).
    \<open>keepConnected\<close> is a \<open>partial_function (option)\<close> over the sequence of \<open>select\<close>
    outcomes: a tick with the dialer of that moment, a tunnel's teardown, or the context
    done.  It returns \<open>None\<close> exactly when the context is never done, so no fuel bound is
    needed.  Concurrent callers of \<open>GetConn\<close> are the step relation \<open>cstep\<close> over
    \<open>connectMu\<close> and each call's program point; \<open>creach\<close> is the set of states reachable
    from \<open>NewClient\<close>.  The HTTP codec bundles \<open>NewHttpJsonCodec\<close> and
    \<open>NewHttpProtoCodec\<close> (\<open>src/handler/httpcodec.go\<close>) are in \<open>Handler\<close>.

  \<^bold>\<open>What the lemmas show.\<close>  The pool lookups refine the abstract registry; the
  codec round-trips; \<open>handleReceived\<close> answers exactly the requests; and on every
  interleaving of a tunnel: replies are correlated by id, the table never leaks an
  entry and has one waiter per id, the queue stays within 1024, frames leave in
  enqueue order, teardown unregisters and closes, a caller whose context is done can
  always return, and a waiting caller is woken only by its reply or its context.  On
  the HTTP side: requests and responses survive the conversions (with the raw path
  becoming the agent's path); end to end, a proxied request is served by the agent's
  handler and its recorded response reaches the client; \<open>ProxyHttpRequest\<close> applies
  the header's timeout, or none when it is not positive; \<open>HandleProxy\<close> routes by
  client id and \<open>HandleWS\<close> registers exactly the accepted tunnels.  With at most one
  tunnel per client id the retry path equals the plain path, and in a reachable tunnel
  every channel reference names an allocated channel.  On the agent: at most one tunnel
  and one dial at a time on every interleaving, \<open>GetConn\<close> reuses or reconnects,
  \<open>keepConnected\<close> returns exactly when its context is done and ends with a tunnel when
  its last tick dials successfully, dial errors carry the
  status, and the edge registers the agent under its client id.  The JSON bundle makes
  the tunnel send text frames and the protobuf bundle binary frames.  Several theorems
  state behaviour that departs from the specification: the retry path loses the request
  body after the first attempt and skips tunnels on every error, a contained handler
  panic becomes an empty reply that makes the edge panic in \<open>WriteHeader(0)\<close>, and a
  teardown does not wake a waiting \<open>Send\<close>, the agent keeps one tunnel where the spec
  allows several, and the default agent (no client id) is refused by the default edge.

  \<^bold>\<open>Not modelled.\<close>  The bytes of the generated protobuf and protojson codecs
  of the HTTP events are arguments of the theorems, which assume only what they use: a
  codec decodes its own encoding, for the values at hand.  An error of \<open>connect\<close> is its
  text: \<open>fmt.Errorf\<close>'s wrapping (\<open>errors.Is\<close> on the result) is not kept.  The client's
  logger, TLS configuration and event handler are fixed at construction and only passed
  on.  Logging, the WebSocket library's framing and the example programs are I/O and
  are outside the model.
\<close>

end
